theory Spec2Isabelle
  imports Main "HOL-Library.AList" "HOL-Library.Char_ord" "HOL-Library.Code_Target_Nat"
    "HOL-Library.List_Lexorder" "HOL-Library.Multiset" "HOL-Library.Sublist"
begin

section \<open>Text primitives\<close>

text \<open>
  A JavaScript string is represented by the bytes of its UTF-8 encoding. Equality,
  concatenation, the search for an ASCII word and the regular expressions used by the
  store, whose classes are ASCII, give the same result on the encoding as on the string.
  Three methods depend on the Unicode tables of the engine: \<open>toLowerCase\<close>,
  \<open>toUpperCase\<close> and \<open>trim\<close>. The model takes them as the parameter \<open>js\<close> of
  every operation that calls them, and the theorems hold for every such parameter.
\<close>

record JsText =
  toLowerCase :: "string \<Rightarrow> string"
  toUpperCase :: "string \<Rightarrow> string"
  trim :: "string \<Rightarrow> string"

text \<open>
  On ASCII text the three methods are as follows; \<open>ascii_text\<close> is the parameter used
  where an operation is evaluated on an example, and every example is ASCII text.
\<close>

definition upper_letters :: string where
  "upper_letters = ''ABCDEFGHIJKLMNOPQRSTUVWXYZ''"

definition lower_letters :: string where
  "lower_letters = ''abcdefghijklmnopqrstuvwxyz''"

definition digit_chars :: string where
  "digit_chars = ''0123456789''"

definition toLowerCase_char :: "char \<Rightarrow> char" where
  "toLowerCase_char c =
     (case map_of (zip upper_letters lower_letters) c of Some d \<Rightarrow> d | None \<Rightarrow> c)"

definition toUpperCase_char :: "char \<Rightarrow> char" where
  "toUpperCase_char c =
     (case map_of (zip lower_letters upper_letters) c of Some d \<Rightarrow> d | None \<Rightarrow> c)"

definition is_space :: "char \<Rightarrow> bool" where
  "is_space c = (c \<in> set [CHR '' '', CHR 0x09, CHR 0x0A, CHR 0x0B, CHR 0x0C, CHR 0x0D])"

definition ascii_text :: JsText where
  "ascii_text =
     \<lparr>toLowerCase = map toLowerCase_char, toUpperCase = map toUpperCase_char,
      trim = (\<lambda>s. rev (dropWhile is_space (rev (dropWhile is_space s))))\<rparr>"

text \<open>\<open>s.startsWith(p)\<close> and \<open>s.includes(p)\<close>.\<close>

fun startsWith :: "string \<Rightarrow> string \<Rightarrow> bool" where
  "startsWith s [] = True"
| "startsWith [] (p # ps) = False"
| "startsWith (c # cs) (p # ps) = (c = p \<and> startsWith cs ps)"

fun includes_str :: "string \<Rightarrow> string \<Rightarrow> bool" where
  "includes_str [] p = (p = [])"
| "includes_str (c # cs) p = (startsWith (c # cs) p \<or> includes_str cs p)"

text \<open>\<open>xs.join(sep)\<close>.\<close>

fun join_str :: "string \<Rightarrow> string list \<Rightarrow> string" where
  "join_str sep [] = []"
| "join_str sep [x] = x"
| "join_str sep (x # y # ys) = x @ sep @ join_str sep (y # ys)"

text \<open>\<open>String(n)\<close> for a natural number, and \<open>s.padStart(4, "0")\<close>.\<close>

definition digit_char :: "nat \<Rightarrow> char" where
  "digit_char d = digit_chars ! d"

fun nat_digits :: "nat \<Rightarrow> string" where
  "nat_digits n =
     (if n < 10 then [digit_char n] else nat_digits (n div 10) @ [digit_char (n mod 10)])"

declare nat_digits.simps [simp del]

text \<open>
  The counters of a store are JavaScript numbers. They are modelled by the natural numbers
  up to \<open>2^53\<close>: there the arithmetic of the engine is exact and \<open>String\<close>
  prints every digit, and \<open>n + 1\<close> computed at \<open>2^53\<close> rounds back to
  \<open>2^53\<close>. A larger counter can only be seeded from an identifier on disk and
  is outside the model.
\<close>

definition max_counter :: nat where
  "max_counter = 9007199254740992"

definition js_succ :: "nat \<Rightarrow> nat" where
  "js_succ n = (if n < max_counter then n + 1 else n)"

definition padStart4 :: "string \<Rightarrow> string" where
  "padStart4 s = replicate (4 - length s) (CHR ''0'') @ s"

definition is_digit :: "char \<Rightarrow> bool" where
  "is_digit c = (c \<in> set digit_chars)"

definition is_lower_alnum :: "char \<Rightarrow> bool" where
  "is_lower_alnum c = (c \<in> set lower_letters \<or> c \<in> set digit_chars)"

section \<open>Entity schemas\<close>

text \<open>
  The records follow \<open>schemas.ts\<close>. An optional field is an \<open>option\<close>. Field names
  carry a prefix per entity because several entities share \<open>id\<close>, \<open>title\<close> and
  \<open>context_tags\<close>. Optional fields that no modelled operation reads or writes
  (risk level, reversibility, execution signals, decisions, repository references) are
  left out of the records.
\<close>

datatype CaseStatus = ACTIVE | COMPLETED | ABANDONED

datatype Regressions = NONE | MINOR | MAJOR

datatype FoundationScope = GLOBAL | PROJECT

datatype Relevance = directly_relevant | general

record ContextSignals =
  affected_surface :: "string list option"
  repo_scope :: "string option"

record OutcomeSignals =
  o_regressions :: "Regressions option"
  o_rework_within_14d :: "bool option"
  o_regret :: string
  o_notes :: "string option"

record CaseSignals =
  sig_context :: "ContextSignals option"
  sig_outcome :: "OutcomeSignals option"

record CaseContext =
  touched_areas :: "string list option"

record Case =
  c_id :: string
  c_title :: string
  c_goal :: "string option"
  c_status :: CaseStatus
  c_created_at :: string
  c_completed_at :: "string option"
  c_context :: "CaseContext option"
  c_signals :: "CaseSignals option"
  c_pressure_events :: "string list option"

record PressureEvent =
  pe_id :: string
  pe_timestamp :: string
  pe_case_id :: string
  pe_pressure_type :: "string option"
  pe_context_tags :: "string list option"
  pe_expected :: string
  pe_actual :: string
  pe_adaptation :: string
  pe_remember :: string
  pe_outcome :: "string option"
  pe_promoted_to_foundation :: "string option"

record Foundation =
  f_id :: string
  f_title :: string
  f_default_behavior :: string
  f_context_tags :: "string list"
  f_counter_contexts :: "string list option"
  f_confidence :: nat
  f_scope :: FoundationScope
  f_origin_project :: "string option"
  f_validated_in :: "string list option"
  f_exit_criteria :: "string option"
  f_source_pressures :: "string list"
  f_created_at :: string
  f_updated_at :: string

text \<open>
  \<open>FoundationWithSource\<close> is a foundation spread into a fresh object together with its
  provenance; the ranking adds \<open>_relevance\<close> to the same objects, so that field is
  optional here.
\<close>

record FoundationWithSource =
  foundation :: Foundation
  source_layer :: string
  source_scope :: FoundationScope
  relevance :: "Relevance option"

record FoundationConflict =
  fc_title :: string
  global_foundation :: Foundation
  project_foundation :: Foundation
  recommendation :: string

record ProjectConfig =
  project :: string
  version :: nat
  scope :: FoundationScope

text \<open>A JavaScript string used as a condition is true when it is not empty.\<close>

definition truthy :: "string option \<Rightarrow> bool" where
  "truthy v = (case v of None \<Rightarrow> False | Some s \<Rightarrow> s \<noteq> [])"

section \<open>Relevance ranking\<close>

text \<open>
  \<open>rankFoundationsByRelevance\<close>. The set \<open>caseTags\<close> is kept as the list of its
  insertions: only membership and emptiness of the set are used.
  \<open>Array.prototype.sort\<close> is stable and the comparator orders by descending overlap, so
  the sorted array is the stable sort on the negated overlap.
\<close>

definition caseTags :: "JsText \<Rightarrow> Case \<Rightarrow> string list" where
  "caseTags js activeCase =
     (let surfaces =
            (case c_signals activeCase of None \<Rightarrow> []
             | Some sg \<Rightarrow>
                 (case sig_context sg of None \<Rightarrow> []
                  | Some cx \<Rightarrow> (case affected_surface cx of None \<Rightarrow> [] | Some xs \<Rightarrow> xs)));
          areas =
            (case c_context activeCase of None \<Rightarrow> []
             | Some cx \<Rightarrow> (case touched_areas cx of None \<Rightarrow> [] | Some xs \<Rightarrow> xs))
      in map (toUpperCase js) surfaces @ map (toUpperCase js) areas)"

definition overlap :: "JsText \<Rightarrow> string list \<Rightarrow> FoundationWithSource \<Rightarrow> nat" where
  "overlap js tags f =
     length (filter (\<lambda>t. toUpperCase js t \<in> set tags) (f_context_tags (foundation f)))"

definition annotate_relevance ::
  "JsText \<Rightarrow> string list \<Rightarrow> FoundationWithSource \<Rightarrow> FoundationWithSource" where
  "annotate_relevance js tags f =
     f\<lparr>relevance := Some (if overlap js tags f > 0 then directly_relevant else general)\<rparr>"

definition rankFoundationsByRelevance ::
  "JsText \<Rightarrow> FoundationWithSource list \<Rightarrow> Case option \<Rightarrow> FoundationWithSource list" where
  "rankFoundationsByRelevance js foundations activeCase =
     (case activeCase of
        None \<Rightarrow> foundations
      | Some c \<Rightarrow>
          if caseTags js c = [] then foundations
          else map (annotate_relevance js (caseTags js c))
                 (sort_key (\<lambda>f. - int (overlap js (caseTags js c) f)) foundations))"

section \<open>Layer store: state\<close>

text \<open>
  One \<open>DecisionOSStorage\<close> instance together with the directory it owns. The instance
  fields are \<open>activeCase\<close> and the three counters; the other fields are the files:
  \<open>config.yaml\<close>, \<open>.active-case\<close>, the entries of \<open>cases/\<close> (directory name,
  \<open>case.yaml\<close>, \<open>pressures.yaml\<close>) and \<open>defaults/foundations.yaml\<close>. \<open>None\<close>
  is an absent file. Files hold parsed, schema-valid documents; a document that fails its
  schema is outside the model. A case id is a plain directory name.
\<close>

datatype error =
    CaseNotFound string
  | FoundationNotFound string
  | FoundationNotInProject string
  | NoGlobalLayer
  | NoActiveCase
  | NoLayerFound
  | ValidationFailure string
  | FileMissing string

record CaseDir =
  case_yaml :: "Case option"
  pressures_yaml :: "PressureEvent list option"

record Layer =
  basePath :: string
  activeCase :: "string option"
  nextPressureId :: nat
  nextCaseId :: nat
  nextFoundationId :: nat
  config_yaml :: "ProjectConfig option"
  active_case_file :: "string option"
  cases :: "(string \<times> CaseDir) list"
  foundations_yaml :: "Foundation list option"

record Filters =
  flt_context_tags :: "string list option"
  flt_min_confidence :: "nat option"

definition getConfig :: "Layer \<Rightarrow> error + ProjectConfig" where
  "getConfig s =
     (case config_yaml s of None \<Rightarrow> Inl (FileMissing ''config.yaml'') | Some c \<Rightarrow> Inr c)"

definition getActiveCase :: "Layer \<Rightarrow> string option" where
  "getActiveCase s = activeCase s"

definition persistActiveCase :: "Layer \<Rightarrow> Layer" where
  "persistActiveCase s =
     (if truthy (activeCase s) then s\<lparr>active_case_file := activeCase s\<rparr>
      else s\<lparr>active_case_file := None\<rparr>)"

definition setActiveCase :: "Layer \<Rightarrow> string option \<Rightarrow> Layer" where
  "setActiveCase s caseId = persistActiveCase (s\<lparr>activeCase := caseId\<rparr>)"

definition getCase :: "Layer \<Rightarrow> string \<Rightarrow> Case option" where
  "getCase s caseId =
     (case map_of (cases s) caseId of None \<Rightarrow> None | Some d \<Rightarrow> case_yaml d)"

definition getPressureEvents :: "Layer \<Rightarrow> string \<Rightarrow> PressureEvent list" where
  "getPressureEvents s caseId =
     (case map_of (cases s) caseId of
        None \<Rightarrow> []
      | Some d \<Rightarrow> (case pressures_yaml d of None \<Rightarrow> [] | Some es \<Rightarrow> es))"

text \<open>
  \<open>listCases\<close>: the directories of \<open>cases/\<close> whose name does not start with an
  underscore and that hold a \<open>case.yaml\<close>, sorted by id. \<open>localeCompare\<close> is modelled
  by the lexicographic order of the character codes, which orders the ids the store
  generates (digits, lower-case letters and hyphens) the same way.
\<close>

definition listCases :: "Layer \<Rightarrow> Case list" where
  "listCases s =
     sort_key c_id
       (List.map_filter
          (\<lambda>(name, d). if startsWith name ''_'' then None else case_yaml d) (cases s))"

definition getFoundations :: "Layer \<Rightarrow> Filters option \<Rightarrow> Foundation list" where
  "getFoundations s filters =
     (case foundations_yaml s of
        None \<Rightarrow> []
      | Some all_fs \<Rightarrow>
          (let by_tags =
                 (case filters of
                    None \<Rightarrow> all_fs
                  | Some fl \<Rightarrow>
                      (case flt_context_tags fl of
                         None \<Rightarrow> all_fs
                       | Some tags \<Rightarrow>
                           if tags = [] then all_fs
                           else filter (\<lambda>f. \<exists>t \<in> set (f_context_tags f). t \<in> set tags) all_fs))
           in (case filters of
                 None \<Rightarrow> by_tags
               | Some fl \<Rightarrow>
                   (case flt_min_confidence fl of
                      None \<Rightarrow> by_tags
                    | Some m \<Rightarrow> filter (\<lambda>f. f_confidence f \<ge> m) by_tags))))"

section \<open>Hierarchical store: state and merged reads\<close>

text \<open>
  The constructor refuses an empty list of discovered layers, takes the first layer as
  the project layer and, when there is more than one, the last as the global layer.
  \<open>home_dos\<close> is the path \<open>join(homedir(), ".decision-os")\<close>.
\<close>

record HStore =
  projectLayer :: Layer
  outerLayers :: "Layer list"
  home_dos :: string

definition newHierarchical :: "Layer list \<Rightarrow> string \<Rightarrow> error + HStore" where
  "newHierarchical discovered home =
     (case discovered of
        [] \<Rightarrow> Inl NoLayerFound
      | p # rest \<Rightarrow> Inr \<lparr>projectLayer = p, outerLayers = rest, home_dos = home\<rparr>)"

definition layers :: "HStore \<Rightarrow> Layer list" where
  "layers hs = projectLayer hs # outerLayers hs"

definition globalLayer :: "HStore \<Rightarrow> Layer option" where
  "globalLayer hs = (if outerLayers hs = [] then None else Some (last (outerLayers hs)))"

definition set_globalLayer :: "HStore \<Rightarrow> Layer \<Rightarrow> HStore" where
  "set_globalLayer hs g = hs\<lparr>outerLayers := butlast (outerLayers hs) @ [g]\<rparr>"

definition layer_scope :: "string \<Rightarrow> Layer \<Rightarrow> FoundationScope" where
  "layer_scope home l = (if basePath l = home then GLOBAL else PROJECT)"

definition annotate_source :: "string \<Rightarrow> Layer \<Rightarrow> Foundation \<Rightarrow> FoundationWithSource" where
  "annotate_source home l f =
     \<lparr>foundation = f, source_layer = basePath l, source_scope = layer_scope home l,
      relevance = None\<rparr>"

text \<open>
  The two nested loops of the merged \<open>getFoundations\<close>. The map \<open>seen\<close> is only asked
  whether it has a title, so the list of the titles set so far stands for it.
\<close>

fun merge_foundations ::
  "string \<Rightarrow> Layer \<Rightarrow> Foundation list \<Rightarrow> string list \<times> FoundationWithSource list \<Rightarrow>
   string list \<times> FoundationWithSource list" where
  "merge_foundations home l [] acc = acc"
| "merge_foundations home l (f # fs) (seen, merged) =
     (if f_title f \<notin> set seen
      then merge_foundations home l fs (f_title f # seen, merged @ [annotate_source home l f])
      else merge_foundations home l fs (seen, merged))"

fun merge_layers ::
  "string \<Rightarrow> Filters option \<Rightarrow> Layer list \<Rightarrow> string list \<times> FoundationWithSource list \<Rightarrow>
   string list \<times> FoundationWithSource list" where
  "merge_layers home filters [] acc = acc"
| "merge_layers home filters (l # ls) acc =
     merge_layers home filters ls (merge_foundations home l (getFoundations l filters) acc)"

definition hgetFoundations :: "HStore \<Rightarrow> Filters option \<Rightarrow> FoundationWithSource list" where
  "hgetFoundations hs filters = snd (merge_layers (home_dos hs) filters (layers hs) ([], []))"

subsection \<open>Conflict detection\<close>

definition title_match :: "JsText \<Rightarrow> Foundation \<Rightarrow> Foundation \<Rightarrow> bool" where
  "title_match js pf gf = (toLowerCase js (f_title gf) = toLowerCase js (f_title pf))"

definition overlappingTags :: "Foundation \<Rightarrow> Foundation \<Rightarrow> string list" where
  "overlappingTags pf gf = filter (\<lambda>t. t \<in> set (f_context_tags gf)) (f_context_tags pf)"

definition contradictory :: "JsText \<Rightarrow> Foundation \<Rightarrow> Foundation \<Rightarrow> bool" where
  "contradictory js pf gf =
     (let pfBehavior = toLowerCase js (f_default_behavior pf);
          gfBehavior = toLowerCase js (f_default_behavior gf)
      in (includes_str pfBehavior ''always'' \<and> includes_str gfBehavior ''never'') \<or>
         (includes_str pfBehavior ''never'' \<and> includes_str gfBehavior ''always'') \<or>
         (includes_str pfBehavior ''prefer'' \<and> includes_str gfBehavior ''avoid''))"

definition shadow_conflict :: "Foundation \<Rightarrow> Foundation \<Rightarrow> FoundationConflict" where
  "shadow_conflict pf titleMatch =
     \<lparr>fc_title = f_title pf, global_foundation = titleMatch, project_foundation = pf,
      recommendation =
        ''Project foundation '' @ [CHR 0x22] @ f_title pf @ [CHR 0x22] @
        '' shadows global foundation. '' @
        ''Project version will be used. Consider if global should be updated or removed.''\<rparr>"

definition tag_conflict :: "Foundation \<Rightarrow> Foundation \<Rightarrow> FoundationConflict" where
  "tag_conflict pf gf =
     \<lparr>fc_title = f_title pf @ '' vs '' @ f_title gf, global_foundation = gf,
      project_foundation = pf,
      recommendation =
        ''Potential conflict: Both apply to ['' @ join_str '', '' (overlappingTags pf gf) @
        ''] but may have contradictory guidance. Review and clarify.''\<rparr>"

text \<open>The inner loop over the global foundations, for one project foundation.\<close>

definition tag_conflicts ::
  "JsText \<Rightarrow> Foundation \<Rightarrow> Foundation list \<Rightarrow> FoundationConflict list" where
  "tag_conflicts js pf gfs =
     map (tag_conflict pf)
       (filter (\<lambda>gf. overlappingTags pf gf \<noteq> [] \<and> f_title pf \<noteq> f_title gf \<and>
                     contradictory js pf gf)
          gfs)"

text \<open>The body of the outer loop: a title match ends the iteration (\<open>continue\<close>).\<close>

definition conflicts_of ::
  "JsText \<Rightarrow> Foundation list \<Rightarrow> Foundation \<Rightarrow> FoundationConflict list" where
  "conflicts_of js gfs pf =
     (case find (title_match js pf) gfs of
        Some titleMatch \<Rightarrow> [shadow_conflict pf titleMatch]
      | None \<Rightarrow> tag_conflicts js pf gfs)"

definition detectConflicts :: "JsText \<Rightarrow> HStore \<Rightarrow> FoundationConflict list" where
  "detectConflicts js hs =
     (case globalLayer hs of
        None \<Rightarrow> []
      | Some g \<Rightarrow>
          concat (map (conflicts_of js (getFoundations g None))
                    (getFoundations (projectLayer hs) None)))"

subsection \<open>Context\<close>

record Context =
  ctx_project :: string
  ctx_active_case :: "Case option"
  ctx_recent_pressures :: "PressureEvent list"
  ctx_relevant_foundations :: "FoundationWithSource list"
  ctx_conflicts :: "FoundationConflict list"
  ctx_layers :: "string list"

definition getContext :: "JsText \<Rightarrow> HStore \<Rightarrow> error + Context" where
  "getContext js hs =
     (case getConfig (projectLayer hs) of
        Inl e \<Rightarrow> Inl e
      | Inr config \<Rightarrow>
          (let activeCase =
                 (case getActiveCase (projectLayer hs) of
                    None \<Rightarrow> None
                  | Some cid \<Rightarrow> if cid = [] then None else getCase (projectLayer hs) cid);
               recentPressures =
                 (case activeCase of
                    None \<Rightarrow> []
                  | Some c \<Rightarrow> getPressureEvents (projectLayer hs) (c_id c));
               allFoundations = hgetFoundations hs None;
               active = filter (\<lambda>f. f_confidence (foundation f) \<ge> 1) allFoundations;
               conflicts = detectConflicts js hs;
               ranked = rankFoundationsByRelevance js active activeCase
           in Inr \<lparr>ctx_project = project config, ctx_active_case = activeCase,
                    ctx_recent_pressures = drop (length recentPressures - 5) recentPressures,
                    ctx_relevant_foundations = ranked, ctx_conflicts = conflicts,
                    ctx_layers = map basePath (layers hs)\<rparr>))"

section \<open>Layer store: units of work\<close>

text \<open>
  \<open>slugify\<close>: lower-case, replace every run of characters outside \<open>[a-z0-9]\<close> by one
  hyphen, strip the hyphens at both ends, keep the first 50 characters.
\<close>

function collapse_non_alnum :: "string \<Rightarrow> string" where
  "collapse_non_alnum [] = []"
| "collapse_non_alnum (c # cs) =
     (if is_lower_alnum c then c # collapse_non_alnum cs
      else CHR ''-'' # collapse_non_alnum (dropWhile (\<lambda>d. \<not> is_lower_alnum d) cs))"
  by pat_completeness auto
termination
  by (relation "measure length") (auto simp: less_Suc_eq_le length_dropWhile_le)

definition trim_hyphens :: "string \<Rightarrow> string" where
  "trim_hyphens s =
     rev (dropWhile (\<lambda>c. c = CHR ''-'') (rev (dropWhile (\<lambda>c. c = CHR ''-'') s)))"

definition slugify :: "JsText \<Rightarrow> string \<Rightarrow> string" where
  "slugify js txt = take 50 (trim_hyphens (collapse_non_alnum (toLowerCase js txt)))"

text \<open>
  \<open>CaseSchema.parse\<close>: the one check that the typed record leaves open is that an
  outcome's regret is one of the four enumerated strings.
\<close>

definition Regret_values :: "string list" where
  "Regret_values = [''0'', ''1'', ''2'', ''3'']"

definition CaseSchema_parse :: "Case \<Rightarrow> error + Case" where
  "CaseSchema_parse c =
     (case c_signals c of
        None \<Rightarrow> Inr c
      | Some sg \<Rightarrow>
          (case sig_outcome sg of
             None \<Rightarrow> Inr c
           | Some oc \<Rightarrow>
               if o_regret oc \<in> set Regret_values then Inr c
               else Inl (ValidationFailure ''signals.outcome.regret'')))"

text \<open>
  Writing a file of a case directory creates the directory when it is missing
  (\<open>ensureDir\<close>) and replaces the file.
\<close>

definition case_dir_of :: "Layer \<Rightarrow> string \<Rightarrow> CaseDir" where
  "case_dir_of s caseId =
     (case map_of (cases s) caseId of
        None \<Rightarrow> \<lparr>case_yaml = None, pressures_yaml = None\<rparr>
      | Some d \<Rightarrow> d)"

definition write_case_yaml :: "Layer \<Rightarrow> string \<Rightarrow> Case \<Rightarrow> Layer" where
  "write_case_yaml s caseId c =
     s\<lparr>cases := AList.update caseId ((case_dir_of s caseId)\<lparr>case_yaml := Some c\<rparr>) (cases s)\<rparr>"

definition write_pressures_yaml :: "Layer \<Rightarrow> string \<Rightarrow> PressureEvent list \<Rightarrow> Layer" where
  "write_pressures_yaml s caseId es =
     s\<lparr>cases :=
         AList.update caseId ((case_dir_of s caseId)\<lparr>pressures_yaml := Some es\<rparr>) (cases s)\<rparr>"

record CreateCaseInput =
  cc_title :: string
  cc_goal :: "string option"
  cc_signals :: "CaseSignals option"
  cc_touched_areas :: "string list option"

text \<open>
  \<open>createCase\<close>. The clock is the argument \<open>now\<close>. The counter is incremented before
  the schema check, so the layer is returned in the failing case too.
\<close>

definition createCase ::
  "JsText \<Rightarrow> Layer \<Rightarrow> CreateCaseInput \<Rightarrow> string \<Rightarrow> Layer \<times> (error + Case)" where
  "createCase js s input now =
     (let new_id = padStart4 (nat_digits (nextCaseId s)) @ ''-'' @ slugify js (cc_title input);
          s1 = s\<lparr>nextCaseId := js_succ (nextCaseId s)\<rparr>;
          resolvedGoal =
            (case cc_goal input of
               None \<Rightarrow> cc_title input
             | Some g \<Rightarrow> if length (trim js g) > 0 then trim js g else cc_title input);
          caseData =
            \<lparr>c_id = new_id, c_title = cc_title input, c_goal = Some resolvedGoal,
             c_status = ACTIVE, c_created_at = now, c_completed_at = None,
             c_context = Some \<lparr>touched_areas = cc_touched_areas input\<rparr>,
             c_signals = cc_signals input, c_pressure_events = Some []\<rparr>
      in case CaseSchema_parse caseData of
           Inl e \<Rightarrow> (s1, Inl e)
         | Inr validated \<Rightarrow>
             (let s2 = write_case_yaml s1 new_id validated;
                  s3 = write_pressures_yaml s2 new_id [];
                  s4 = setActiveCase s3 (Some (c_id validated))
              in (s4, Inr validated)))"

text \<open>\<open>updateCase\<close>; the partial case \<open>updates\<close> is the function that overwrites its fields.\<close>

definition updateCase :: "Layer \<Rightarrow> string \<Rightarrow> (Case \<Rightarrow> Case) \<Rightarrow> error + (Layer \<times> Case)" where
  "updateCase s caseId updates =
     (case getCase s caseId of
        None \<Rightarrow> Inl (CaseNotFound caseId)
      | Some current \<Rightarrow>
          (case CaseSchema_parse (updates current) of
             Inl e \<Rightarrow> Inl e
           | Inr validated \<Rightarrow> Inr (write_case_yaml s caseId validated, validated)))"

definition forgetCase :: "Layer \<Rightarrow> string \<Rightarrow> Layer" where
  "forgetCase s caseId =
     (if map_of (cases s) caseId \<noteq> None then s\<lparr>cases := AList.delete caseId (cases s)\<rparr>
      else s)"

text \<open>
  The regret argument is a string or a number; numbers are modelled as integers and
  \<open>String\<close> prints them in decimal.
\<close>

datatype RegretArg = RegretNum int | RegretStr string

definition String_of :: "RegretArg \<Rightarrow> string" where
  "String_of r =
     (case r of
        RegretStr s \<Rightarrow> s
      | RegretNum i \<Rightarrow> if i < 0 then CHR ''-'' # nat_digits (nat (- i)) else nat_digits (nat i))"

record CloseOutcome =
  co_regret :: RegretArg
  co_notes :: "string option"
  co_regressions :: "Regressions option"

definition empty_signals :: CaseSignals where
  "empty_signals = \<lparr>sig_context = None, sig_outcome = None\<rparr>"

definition promoted :: "PressureEvent \<Rightarrow> bool" where
  "promoted p = truthy (pe_promoted_to_foundation p)"

definition closeCase ::
  "Layer \<Rightarrow> string \<Rightarrow> CloseOutcome \<Rightarrow> string \<Rightarrow> error + (Layer \<times> Case \<times> bool)" where
  "closeCase s caseId outcome now =
     (let normalizedRegret = String_of (co_regret outcome);
          existingSignals =
            (case getCase s caseId of
               None \<Rightarrow> empty_signals
             | Some current \<Rightarrow>
                 (case c_signals current of None \<Rightarrow> empty_signals | Some sg \<Rightarrow> sg))
      in case updateCase s caseId
                (\<lambda>c. c\<lparr>c_status := COMPLETED, c_completed_at := Some now,
                        c_signals :=
                          Some (existingSignals
                                 \<lparr>sig_outcome :=
                                    Some \<lparr>o_regressions = co_regressions outcome,
                                          o_rework_within_14d = None,
                                          o_regret = normalizedRegret,
                                          o_notes = co_notes outcome\<rparr>\<rparr>)\<rparr>) of
           Inl e \<Rightarrow> Inl e
         | Inr (s1, updated) \<Rightarrow>
             (let s2 = (if activeCase s1 = Some caseId then setActiveCase s1 None else s1)
              in if normalizedRegret = ''0''
                 then (let pressures = getPressureEvents s2 caseId;
                           allPromoted = (length pressures = 0 \<or> list_all promoted pressures)
                       in if allPromoted then Inr (forgetCase s2 caseId, updated, True)
                          else Inr (s2, updated, False))
                 else Inr (s2, updated, False)))"

section \<open>Layer store: pressure events and foundations\<close>

fun findIndex :: "('a \<Rightarrow> bool) \<Rightarrow> 'a list \<Rightarrow> nat option" where
  "findIndex P [] = None"
| "findIndex P (x # xs) = (if P x then Some 0 else map_option Suc (findIndex P xs))"

record LogPressureInput =
  lp_case_id :: "string option"
  lp_expected :: string
  lp_actual :: string
  lp_adaptation :: string
  lp_remember :: string
  lp_pressure_type :: "string option"
  lp_context_tags :: "string list option"

definition PressureType_values :: "string list" where
  "PressureType_values =
     [''CHANGE'', ''IRREVERSIBILITY'', ''COGNITIVE'', ''COUPLING'', ''OPERATIONAL'', ''EXTERNAL'']"

definition PressureEventSchema_parse :: "PressureEvent \<Rightarrow> error + PressureEvent" where
  "PressureEventSchema_parse p =
     (case pe_pressure_type p of
        None \<Rightarrow> Inr p
      | Some t \<Rightarrow>
          if t \<in> set PressureType_values then Inr p else Inl (ValidationFailure ''pressure_type''))"

definition logPressure ::
  "Layer \<Rightarrow> LogPressureInput \<Rightarrow> string \<Rightarrow> Layer \<times> (error + PressureEvent)" where
  "logPressure s input now =
     (let caseIdOpt = (if truthy (lp_case_id input) then lp_case_id input else activeCase s)
      in if \<not> truthy caseIdOpt then (s, Inl NoActiveCase)
         else (let caseId = the caseIdOpt
               in case getCase s caseId of
                    None \<Rightarrow> (s, Inl (CaseNotFound caseId))
                  | Some caseData \<Rightarrow>
                      (let new_id = ''PE-'' @ padStart4 (nat_digits (nextPressureId s));
                           s1 = s\<lparr>nextPressureId := js_succ (nextPressureId s)\<rparr>;
                           pressure =
                             \<lparr>pe_id = new_id, pe_timestamp = now, pe_case_id = caseId,
                              pe_pressure_type = lp_pressure_type input,
                              pe_context_tags = lp_context_tags input,
                              pe_expected = lp_expected input, pe_actual = lp_actual input,
                              pe_adaptation = lp_adaptation input,
                              pe_remember = lp_remember input, pe_outcome = None,
                              pe_promoted_to_foundation = None\<rparr>
                       in case PressureEventSchema_parse pressure of
                            Inl e \<Rightarrow> (s1, Inl e)
                          | Inr validated \<Rightarrow>
                              (let s2 = write_pressures_yaml s1 caseId
                                          (getPressureEvents s1 caseId @ [validated]);
                                   currentPEs =
                                     (case c_pressure_events caseData of
                                        None \<Rightarrow> []
                                      | Some xs \<Rightarrow> xs)
                               in case updateCase s2 caseId
                                         (\<lambda>c. c\<lparr>c_pressure_events :=
                                                   Some (currentPEs @ [new_id])\<rparr>) of
                                    Inl e \<Rightarrow> (s2, Inl e)
                                  | Inr (s3, _) \<Rightarrow> (s3, Inr validated)))))"

text \<open>
  \<open>markPressurePromoted\<close>: the first listed case holding an event with the id gets the
  event marked; an id that no case holds changes nothing.
\<close>

fun markPressurePromoted_loop :: "Layer \<Rightarrow> string \<Rightarrow> string \<Rightarrow> Case list \<Rightarrow> Layer" where
  "markPressurePromoted_loop s pressureId foundationId [] = s"
| "markPressurePromoted_loop s pressureId foundationId (c # cs) =
     (let pressures = getPressureEvents s (c_id c)
      in case findIndex (\<lambda>p. pe_id p = pressureId) pressures of
           Some idx \<Rightarrow>
             write_pressures_yaml s (c_id c)
               (pressures[idx := (pressures ! idx)\<lparr>pe_promoted_to_foundation := Some foundationId\<rparr>])
         | None \<Rightarrow> markPressurePromoted_loop s pressureId foundationId cs)"

definition markPressurePromoted :: "Layer \<Rightarrow> string \<Rightarrow> string \<Rightarrow> Layer" where
  "markPressurePromoted s pressureId foundationId =
     markPressurePromoted_loop s pressureId foundationId (listCases s)"

record PromoteInput =
  pi_title :: string
  pi_default_behavior :: string
  pi_context_tags :: "string list"
  pi_counter_contexts :: "string list option"
  pi_source_pressures :: "string list"
  pi_exit_criteria :: "string option"
  pi_scope :: "FoundationScope option"
  pi_origin_project :: "string option"

definition FoundationSchema_parse :: "Foundation \<Rightarrow> error + Foundation" where
  "FoundationSchema_parse f =
     (if f_confidence f \<le> 3 then Inr f else Inl (ValidationFailure ''confidence''))"

text \<open>
  \<open>promoteToFoundation\<close> of a layer. The record it builds has confidence 1, so its
  schema check cannot fail; both timestamps are the clock \<open>now\<close>.
\<close>

definition promoteToFoundation :: "Layer \<Rightarrow> PromoteInput \<Rightarrow> string \<Rightarrow> Layer \<times> Foundation" where
  "promoteToFoundation s input now =
     (let scope = (case pi_scope input of None \<Rightarrow> PROJECT | Some sc \<Rightarrow> sc);
          prefix = (if scope = GLOBAL then ''GF'' else ''F'');
          new_id = prefix @ ''-'' @ padStart4 (nat_digits (nextFoundationId s));
          s1 = s\<lparr>nextFoundationId := js_succ (nextFoundationId s)\<rparr>;
          validated =
            \<lparr>f_id = new_id, f_title = pi_title input,
             f_default_behavior = pi_default_behavior input,
             f_context_tags = pi_context_tags input,
             f_counter_contexts = pi_counter_contexts input,
             f_confidence = 1, f_scope = scope,
             f_origin_project = pi_origin_project input,
             f_validated_in =
               (if truthy (pi_origin_project input) then Some [the (pi_origin_project input)]
                else None),
             f_exit_criteria = pi_exit_criteria input,
             f_source_pressures = pi_source_pressures input,
             f_created_at = now, f_updated_at = now\<rparr>;
          existing = (case foundations_yaml s1 of None \<Rightarrow> [] | Some fs \<Rightarrow> fs);
          s2 = s1\<lparr>foundations_yaml := Some (existing @ [validated])\<rparr>;
          s3 = foldl (\<lambda>st peId. markPressurePromoted st peId new_id) s2
                 (pi_source_pressures input)
      in (s3, validated))"

text \<open>\<open>updateFoundation\<close>; \<open>updates\<close> overwrites the patched fields.\<close>

definition updateFoundation ::
  "Layer \<Rightarrow> string \<Rightarrow> (Foundation \<Rightarrow> Foundation) \<Rightarrow> string \<Rightarrow> error + (Layer \<times> Foundation)" where
  "updateFoundation s foundationId updates now =
     (case foundations_yaml s of
        None \<Rightarrow> Inl (FoundationNotFound foundationId)
      | Some fs \<Rightarrow>
          (case findIndex (\<lambda>f. f_id f = foundationId) fs of
             None \<Rightarrow> Inl (FoundationNotFound foundationId)
           | Some idx \<Rightarrow>
               (case FoundationSchema_parse ((updates (fs ! idx))\<lparr>f_updated_at := now\<rparr>) of
                  Inl e \<Rightarrow> Inl e
                | Inr validated \<Rightarrow>
                    Inr (s\<lparr>foundations_yaml := Some (fs[idx := validated])\<rparr>, validated))))"

text \<open>
  Modelled from the spec: \<open>removeFoundation\<close> is called by \<open>elevateFoundation\<close> and by
  the tests, and its body is not among the sources. The spec: it returns a boolean
  indicating whether an entry was found and removed, and never raises for a missing id or
  a missing collection file. The entry removed is the first one with the id.
\<close>

definition removeFoundation :: "Layer \<Rightarrow> string \<Rightarrow> error + (Layer \<times> bool)" where
  "removeFoundation s foundationId =
     (case foundations_yaml s of
        None \<Rightarrow> Inr (s, False)
      | Some fs \<Rightarrow>
          (case findIndex (\<lambda>f. f_id f = foundationId) fs of
             None \<Rightarrow> Inr (s, False)
           | Some idx \<Rightarrow>
               Inr (s\<lparr>foundations_yaml := Some (take idx fs @ drop (Suc idx) fs)\<rparr>, True)))"

section \<open>Layer store: initialization\<close>

text \<open>
  A new instance over an existing directory starts with no active case and all counters
  at 1; \<open>initialize\<close> writes a default configuration when there is none, restores the
  active case from its marker file and seeds the counters from the persisted entities.
  \<open>parseInt\<close> is applied to a non-empty run of decimal digits only; its result is exact
  for the numbers up to \<open>2^53\<close>.
\<close>

definition newStorage :: "Layer \<Rightarrow> Layer" where
  "newStorage dir =
     dir\<lparr>activeCase := None, nextPressureId := 1, nextCaseId := 1, nextFoundationId := 1\<rparr>"

definition digit_value :: "char \<Rightarrow> nat" where
  "digit_value c = length (takeWhile (\<lambda>d. d \<noteq> c) digit_chars)"

definition parseInt_digits :: "string \<Rightarrow> nat" where
  "parseInt_digits ds = foldl (\<lambda>n c. 10 * n + digit_value c) 0 ds"

text \<open>\<open>id.match(/^(\d+)/)\<close>: the leading digits, when there is one.\<close>

definition match_leading_number :: "string \<Rightarrow> nat option" where
  "match_leading_number s =
     (let ds = takeWhile is_digit s in if ds = [] then None else Some (parseInt_digits ds))"

text \<open>
  \<open>id.match(/PE-(\d+)/)\<close>: the digits after the leftmost occurrence of the prefix that
  a digit follows. The pattern \<open>/(?:G?F)-(\d+)/\<close> captures the same digits as the
  prefix \<open>F-\<close> does, because a match that starts at a \<open>G\<close> contains the match that
  starts at the \<open>F\<close> after it.
\<close>

fun match_number_after :: "string \<Rightarrow> string \<Rightarrow> nat option" where
  "match_number_after pat [] = None"
| "match_number_after pat (c # cs) =
     (if startsWith (c # cs) pat \<and> takeWhile is_digit (drop (length pat) (c # cs)) \<noteq> []
      then Some (parseInt_digits (takeWhile is_digit (drop (length pat) (c # cs))))
      else match_number_after pat cs)"

definition bump :: "nat \<Rightarrow> nat option \<Rightarrow> nat" where
  "bump next m =
     (case m of None \<Rightarrow> next | Some num \<Rightarrow> if num \<ge> next then js_succ num else next)"

definition initializeCounters :: "Layer \<Rightarrow> Layer" where
  "initializeCounters s =
     (let cs = listCases s;
          nc = foldl (\<lambda>n c. bump n (match_leading_number (c_id c))) (nextCaseId s) cs;
          np = foldl (\<lambda>n c. foldl (\<lambda>m p. bump m (match_number_after ''PE-'' (pe_id p))) n
                                (getPressureEvents s (c_id c)))
                 (nextPressureId s) cs;
          nf = foldl (\<lambda>n f. bump n (match_number_after ''F-'' (f_id f))) (nextFoundationId s)
                 (getFoundations s None)
      in s\<lparr>nextCaseId := nc, nextPressureId := np, nextFoundationId := nf\<rparr>)"

definition restoreActiveCase :: "JsText \<Rightarrow> Layer \<Rightarrow> Layer" where
  "restoreActiveCase js s =
     (case active_case_file s of
        None \<Rightarrow> s
      | Some content \<Rightarrow>
          (let caseId = trim js content
           in if caseId \<noteq> [] \<and> getCase s caseId \<noteq> None then s\<lparr>activeCase := Some caseId\<rparr>
              else s\<lparr>active_case_file := None\<rparr>))"

definition initialize :: "JsText \<Rightarrow> Layer \<Rightarrow> Layer" where
  "initialize js s =
     (let s1 = (if config_yaml s = None
                then s\<lparr>config_yaml :=
                         Some \<lparr>project = ''unnamed-project'', version = 1, scope = PROJECT\<rparr>\<rparr>
                else s)
      in initializeCounters (restoreActiveCase js s1))"

section \<open>Layer store: retrospective review\<close>

record FoundationCandidate =
  theme :: string
  cand_pressure_events :: "string list"
  remember_lines :: "string list"
  shared_tags :: "string list"

record BlockingForgetting =
  bf_case_id :: string
  bf_title :: string
  unpromoted_pe_count :: nat
  pe_ids :: "string list"

record HighRegretNoPE =
  hr_case_id :: string
  hr_title :: string
  hr_regret :: string

record Review =
  foundation_candidates :: "FoundationCandidate list"
  blocking_forgetting :: "BlockingForgetting list"
  high_regret_no_pe :: "HighRegretNoPE list"
  summary :: string

definition tags_of :: "PressureEvent \<Rightarrow> string list" where
  "tags_of p = (case pe_context_tags p of None \<Rightarrow> [] | Some ts \<Rightarrow> ts)"

definition case_regret :: "Case \<Rightarrow> string option" where
  "case_regret c =
     (case c_signals c of
        None \<Rightarrow> None
      | Some sg \<Rightarrow> (case sig_outcome sg of None \<Rightarrow> None | Some oc \<Rightarrow> Some (o_regret oc)))"

text \<open>The first loop of \<open>suggestReview\<close>, one definition per array it fills.\<close>

definition completed_cases :: "Layer \<Rightarrow> Case list" where
  "completed_cases s = filter (\<lambda>c. c_status c = COMPLETED) (listCases s)"

definition unpromoted_of :: "Layer \<Rightarrow> Case \<Rightarrow> PressureEvent list" where
  "unpromoted_of s c = filter (\<lambda>p. \<not> promoted p) (getPressureEvents s (c_id c))"

definition allUnpromoted :: "Layer \<Rightarrow> PressureEvent list" where
  "allUnpromoted s = concat (map (unpromoted_of s) (completed_cases s))"

definition blockingForgetting :: "Layer \<Rightarrow> BlockingForgetting list" where
  "blockingForgetting s =
     map (\<lambda>c. \<lparr>bf_case_id = c_id c, bf_title = c_title c,
               unpromoted_pe_count = length (unpromoted_of s c),
               pe_ids = map pe_id (unpromoted_of s c)\<rparr>)
       (filter (\<lambda>c. case_regret c = Some ''0'' \<and> length (unpromoted_of s c) > 0)
          (completed_cases s))"

definition highRegretNoPE :: "Layer \<Rightarrow> HighRegretNoPE list" where
  "highRegretNoPE s =
     map (\<lambda>c. \<lparr>hr_case_id = c_id c, hr_title = c_title c, hr_regret = the (case_regret c)\<rparr>)
       (filter (\<lambda>c. truthy (case_regret c) \<and>
                    (case match_leading_number (the (case_regret c)) of
                       None \<Rightarrow> False
                     | Some n \<Rightarrow> n \<ge> 2) \<and>
                    length (getPressureEvents s (c_id c)) = 0)
          (completed_cases s))"

text \<open>
  The map \<open>tagGroups\<close> keeps its keys in insertion order; it is the association list of
  its entries.
\<close>

definition push_group ::
  "(string \<times> PressureEvent list) list \<Rightarrow> string \<Rightarrow> PressureEvent \<Rightarrow>
   (string \<times> PressureEvent list) list" where
  "push_group groups tag pe =
     (if tag \<in> fst ` set groups
      then map (\<lambda>(k, v). if k = tag then (k, v @ [pe]) else (k, v)) groups
      else groups @ [(tag, [pe])])"

definition tagGroups :: "PressureEvent list \<Rightarrow> (string \<times> PressureEvent list) list" where
  "tagGroups unpromoted =
     foldl (\<lambda>groups pe. foldl (\<lambda>g tag. push_group g tag pe) groups (tags_of pe)) [] unpromoted"

text \<open>\<open>[...new Set(xs)]\<close>: the first occurrence of each element, in order.\<close>

definition uniq :: "'a list \<Rightarrow> 'a list" where
  "uniq xs = rev (remdups (rev xs))"

definition combo_key :: "PressureEvent list \<Rightarrow> string" where
  "combo_key pes = join_str '','' (sort (map pe_id pes))"

definition sharedTags :: "PressureEvent list \<Rightarrow> string list" where
  "sharedTags pes =
     filter (\<lambda>t. list_all (\<lambda>p. t \<in> set (tags_of p)) pes) (uniq (concat (map tags_of pes)))"

definition candidate_of :: "string \<Rightarrow> PressureEvent list \<Rightarrow> FoundationCandidate" where
  "candidate_of tag pes =
     \<lparr>theme = tag, cand_pressure_events = map pe_id pes,
      remember_lines = map (\<lambda>p. pe_id p @ '': '' @ pe_remember p) pes,
      shared_tags = sharedTags pes\<rparr>"

fun candidates_loop ::
  "(string \<times> PressureEvent list) list \<Rightarrow> string list \<Rightarrow> FoundationCandidate list" where
  "candidates_loop [] seenPECombos = []"
| "candidates_loop ((tag, pes) # rest) seenPECombos =
     (if length pes < 2 then candidates_loop rest seenPECombos
      else if combo_key pes \<in> set seenPECombos then candidates_loop rest seenPECombos
      else candidate_of tag pes # candidates_loop rest (combo_key pes # seenPECombos))"

definition foundationCandidates :: "Layer \<Rightarrow> FoundationCandidate list" where
  "foundationCandidates s = candidates_loop (tagGroups (allUnpromoted s)) []"

definition suggestReview :: "Layer \<Rightarrow> Review" where
  "suggestReview s =
     (let cands = foundationCandidates s;
          blocking = blockingForgetting s;
          high = highRegretNoPE s;
          parts =
            (if length cands > 0
             then [nat_digits (length cands) @ '' foundation candidate(s) from clustered PEs'']
             else []) @
            (if length blocking > 0
             then [nat_digits (length blocking) @
                   '' case(s) blocking forgetting (regret 0 but unpromoted PEs)'']
             else []) @
            (if length high > 0
             then [nat_digits (length high) @
                   '' high-regret case(s) with no PEs (possible missed captures)'']
             else []);
          parts' =
            (if parts = [] then [''Nothing to review. All learnings extracted or cases forgotten.'']
             else parts)
      in \<lparr>foundation_candidates = cands, blocking_forgetting = blocking,
          high_regret_no_pe = high, summary = join_str ''. '' parts' @ ''.''\<rparr>)"

section \<open>Hierarchical store: elevation and validation\<close>

definition validateFoundation :: "HStore \<Rightarrow> string \<Rightarrow> string \<Rightarrow> error + (HStore \<times> Foundation)" where
  "validateFoundation hs foundation_id now =
     (case find (\<lambda>f. f_id (foundation f) = foundation_id) (hgetFoundations hs None) of
        None \<Rightarrow> Inl (FoundationNotFound foundation_id)
      | Some fnd \<Rightarrow>
          (case getConfig (projectLayer hs) of
             Inl e \<Rightarrow> Inl e
           | Inr config \<Rightarrow>
               (let old = (case f_validated_in (foundation fnd) of None \<Rightarrow> [] | Some v \<Rightarrow> v);
                    validatedIn =
                      (if project config \<in> set old then old else old @ [project config]);
                    confidence = f_confidence (foundation fnd);
                    newConfidence =
                      (if length validatedIn \<ge> 3 \<and> confidence < 3 then min 3 (confidence + 1)
                       else confidence);
                    updates =
                      (\<lambda>f. f\<lparr>f_validated_in := Some validatedIn, f_confidence := newConfidence\<rparr>)
                in case (if source_scope fnd = GLOBAL then globalLayer hs else None) of
                     Some g \<Rightarrow>
                       (case updateFoundation g foundation_id updates now of
                          Inl e \<Rightarrow> Inl e
                        | Inr (g', updated) \<Rightarrow> Inr (set_globalLayer hs g', updated))
                   | None \<Rightarrow>
                       (case updateFoundation (projectLayer hs) foundation_id updates now of
                          Inl e \<Rightarrow> Inl e
                        | Inr (p', updated) \<Rightarrow> Inr (hs\<lparr>projectLayer := p'\<rparr>, updated)))))"

definition elevation_note :: "string \<Rightarrow> string option \<Rightarrow> string" where
  "elevation_note proj reason =
     (if truthy reason
      then [CHR 0x0A, CHR 0x0A] @ ''[Elevated from '' @ proj @ '': '' @ the reason @ '']''
      else [])"

definition elevateFoundation ::
  "HStore \<Rightarrow> string \<Rightarrow> string option \<Rightarrow> string \<Rightarrow> error + (HStore \<times> Foundation)" where
  "elevateFoundation hs foundation_id reason now =
     (case globalLayer hs of
        None \<Rightarrow> Inl NoGlobalLayer
      | Some g \<Rightarrow>
          (case find (\<lambda>f. f_id f = foundation_id) (getFoundations (projectLayer hs) None) of
             None \<Rightarrow> Inl (FoundationNotInProject foundation_id)
           | Some fnd \<Rightarrow>
               (case getConfig (projectLayer hs) of
                  Inl e \<Rightarrow> Inl e
                | Inr config \<Rightarrow>
                    (let (g', globalFoundation) =
                           promoteToFoundation g
                             \<lparr>pi_title = f_title fnd,
                              pi_default_behavior =
                                f_default_behavior fnd @ elevation_note (project config) reason,
                              pi_context_tags = f_context_tags fnd,
                              pi_counter_contexts = f_counter_contexts fnd,
                              pi_source_pressures = f_source_pressures fnd,
                              pi_exit_criteria = f_exit_criteria fnd,
                              pi_scope = Some GLOBAL,
                              pi_origin_project = Some (project config)\<rparr> now
                     in case removeFoundation (projectLayer hs) foundation_id of
                          Inl e \<Rightarrow> Inl e
                        | Inr (p', removed) \<Rightarrow>
                            Inr (set_globalLayer (hs\<lparr>projectLayer := p'\<rparr>) g',
                                 globalFoundation)))))"

section \<open>Notions used in the statements\<close>

text \<open>
  These definitions are written from the words of the specification, not from the code:
  the statements compare the operations with them.
\<close>

definition fws_title :: "FoundationWithSource \<Rightarrow> string" where
  "fws_title a = f_title (foundation a)"

text \<open>The collection of a layer: the foundations of its file, none when there is no file.\<close>

definition layer_records :: "Layer \<Rightarrow> Foundation list" where
  "layer_records l = (case foundations_yaml l of None \<Rightarrow> [] | Some fs \<Rightarrow> fs)"

text \<open>
  A foundation passes the filters of a listing: it shares a tag with a non-empty list of
  tags, when one is given, and its confidence is at least the minimum, when one is given.
\<close>

definition passes :: "Filters option \<Rightarrow> Foundation \<Rightarrow> bool" where
  "passes filters f =
     (case filters of
        None \<Rightarrow> True
      | Some fl \<Rightarrow>
          (case flt_context_tags fl of
             None \<Rightarrow> True
           | Some tags \<Rightarrow> tags = [] \<or> (\<exists>t \<in> set (f_context_tags f). t \<in> set tags)) \<and>
          (case flt_min_confidence fl of None \<Rightarrow> True | Some m \<Rightarrow> m \<le> f_confidence f))"

text \<open>
  A record with its provenance: the path of its layer, and GLOBAL exactly when that layer
  is the user-wide directory.
\<close>

definition with_provenance :: "string \<Rightarrow> Layer \<Rightarrow> Foundation \<Rightarrow> FoundationWithSource" where
  "with_provenance home l f =
     \<lparr>foundation = f, source_layer = basePath l,
      source_scope = (if basePath l = home then GLOBAL else PROJECT), relevance = None\<rparr>"

text \<open>The records of all layers that pass the filters, with provenance, nearest layer first.\<close>

definition listing_candidates ::
  "string \<Rightarrow> Filters option \<Rightarrow> Layer list \<Rightarrow> FoundationWithSource list" where
  "listing_candidates home filters ls =
     concat (map (\<lambda>l. map (with_provenance home l) (filter (passes filters) (layer_records l))) ls)"

text \<open>A foundation's behaviour text contains a word, whatever the case of its letters.\<close>

definition says :: "JsText \<Rightarrow> Foundation \<Rightarrow> string \<Rightarrow> bool" where
  "says js f w = includes_str (toLowerCase js (f_default_behavior f)) w"

text \<open>Two titles are the same up to the case of their letters.\<close>

definition same_title_ci :: "JsText \<Rightarrow> Foundation \<Rightarrow> Foundation \<Rightarrow> bool" where
  "same_title_ci js pf gf = (toLowerCase js (f_title pf) = toLowerCase js (f_title gf))"

text \<open>The context tags of the project foundation that the global foundation has too.\<close>

definition common_tags :: "Foundation \<Rightarrow> Foundation \<Rightarrow> string list" where
  "common_tags pf gf = filter (\<lambda>t. t \<in> set (f_context_tags gf)) (f_context_tags pf)"

text \<open>The project and the global foundation of each reported conflict, in order.\<close>

definition conflict_pairs :: "JsText \<Rightarrow> HStore \<Rightarrow> (Foundation \<times> Foundation) list" where
  "conflict_pairs js hs =
     map (\<lambda>c. (project_foundation c, global_foundation c)) (detectConflicts js hs)"

section \<open>Example stores\<close>

definition ex_foundation ::
  "string \<Rightarrow> string \<Rightarrow> string \<Rightarrow> string list \<Rightarrow> nat \<Rightarrow> Foundation" where
  "ex_foundation i t b tags conf =
     \<lparr>f_id = i, f_title = t, f_default_behavior = b, f_context_tags = tags,
      f_counter_contexts = None, f_confidence = conf, f_scope = PROJECT,
      f_origin_project = None, f_validated_in = None, f_exit_criteria = None,
      f_source_pressures = [], f_created_at = ''t0'', f_updated_at = ''t0''\<rparr>"

definition ex_empty_layer :: "string \<Rightarrow> string \<Rightarrow> Layer" where
  "ex_empty_layer path proj =
     \<lparr>basePath = path, activeCase = None, nextPressureId = 1, nextCaseId = 1,
      nextFoundationId = 1,
      config_yaml = Some \<lparr>project = proj, version = 1, scope = PROJECT\<rparr>,
      active_case_file = None, cases = [], foundations_yaml = None\<rparr>"

definition ex_home :: string where
  "ex_home = ''/home/u/.decision-os''"

definition ex_case :: Case where
  "ex_case =
     \<lparr>c_id = ''0001-database-migration'', c_title = ''Database migration'',
      c_goal = Some ''Database migration'', c_status = ACTIVE, c_created_at = ''t0'',
      c_completed_at = None, c_context = Some \<lparr>touched_areas = None\<rparr>,
      c_signals =
        Some \<lparr>sig_context =
                Some \<lparr>affected_surface = Some [''data_model'', ''BACKEND''], repo_scope = None\<rparr>,
              sig_outcome = None\<rparr>,
      c_pressure_events = Some []\<rparr>"

definition ex_ui :: Foundation where
  "ex_ui = ex_foundation ''F-0001'' ''UI pattern'' ''Use this UI pattern''
     [''UI_UX'', ''FRONTEND''] 1"

definition ex_data :: Foundation where
  "ex_data = ex_foundation ''F-0002'' ''Data modeling pattern'' ''Model data this way''
     [''DATA_MODEL'', ''BACKEND''] 1"

definition ex_zero :: Foundation where
  "ex_zero = ex_foundation ''F-0003'' ''Retired idea'' ''Prefer the old way'' [''BACKEND''] 0"

definition ex_global_ui :: Foundation where
  "ex_global_ui = (ex_foundation ''GF-0001'' ''UI pattern'' ''Avoid this UI pattern''
     [''UI_UX''] 2)\<lparr>f_scope := GLOBAL\<rparr>"

definition ex_global_never :: Foundation where
  "ex_global_never = (ex_foundation ''GF-0002'' ''Widgets'' ''Never nest widgets''
     [''FRONTEND''] 1)\<lparr>f_scope := GLOBAL\<rparr>"

definition ex_project_layer :: Layer where
  "ex_project_layer =
     (ex_empty_layer ''/w/app/.decision-os'' ''app'')
       \<lparr>activeCase := Some ''0001-database-migration'',
        nextCaseId := 2, nextFoundationId := 4,
        active_case_file := Some ''0001-database-migration'',
        cases := [(''0001-database-migration'',
                   \<lparr>case_yaml = Some ex_case, pressures_yaml = Some []\<rparr>)],
        foundations_yaml := Some [ex_ui, ex_data, ex_zero]\<rparr>"

definition ex_global_layer :: Layer where
  "ex_global_layer =
     (ex_empty_layer ex_home ''_global'')
       \<lparr>nextFoundationId := 3, foundations_yaml := Some [ex_global_ui, ex_global_never]\<rparr>"

definition ex_hs :: HStore where
  "ex_hs = \<lparr>projectLayer = ex_project_layer, outerLayers = [ex_global_layer], home_dos = ex_home\<rparr>"

text \<open>
  A project foundation that shadows one global foundation by title and contradicts
  another one on a shared tag.
\<close>

definition ex_always :: Foundation where
  "ex_always = (ex_foundation ''F-0001'' ''UI Pattern'' ''Always nest widgets''
     [''FRONTEND''] 1)"

definition ex_nest :: Foundation where
  "ex_nest = (ex_foundation ''F-0002'' ''Nesting'' ''ALWAYS nest widgets''
     [''LAYOUT'', ''FRONTEND''] 1)"

definition ex_hs_shadow :: HStore where
  "ex_hs_shadow =
     \<lparr>projectLayer = ex_project_layer\<lparr>foundations_yaml := Some [ex_always, ex_nest]\<rparr>,
      outerLayers = [ex_global_layer], home_dos = ex_home\<rparr>"

text \<open>
  The same project below a parent project, on a machine without a user-wide directory.
\<close>

definition ex_hs_parent :: HStore where
  "ex_hs_parent =
     \<lparr>projectLayer = ex_project_layer\<lparr>foundations_yaml := Some [ex_always, ex_nest]\<rparr>,
      outerLayers = [ex_global_layer\<lparr>basePath := ''/w/.decision-os''\<rparr>], home_dos = ex_home\<rparr>"

text \<open>
  The scenarios of the repository's tests: a unit created and closed at once, and a unit
  with one pressure event that is not promoted.
\<close>

definition ex_create_input :: "string \<Rightarrow> CreateCaseInput" where
  "ex_create_input t =
     \<lparr>cc_title = t, cc_goal = None, cc_signals = None, cc_touched_areas = None\<rparr>"

definition ex_clean_layer :: Layer where
  "ex_clean_layer =
     fst (createCase ascii_text (ex_empty_layer ''/w/app/.decision-os'' ''app'')
            (ex_create_input ''clean task'') ''t1'')"

definition ex_outcome :: "int \<Rightarrow> CloseOutcome" where
  "ex_outcome r = \<lparr>co_regret = RegretNum r, co_notes = None, co_regressions = None\<rparr>"

definition ex_log_input :: "string \<Rightarrow> string list option \<Rightarrow> LogPressureInput" where
  "ex_log_input r tags =
     \<lparr>lp_case_id = None, lp_expected = ''API returns 200'', lp_actual = ''API returns 403'',
      lp_adaptation = ''Added auth header'', lp_remember = r, lp_pressure_type = None,
      lp_context_tags = tags\<rparr>"

definition ex_lessons_layer :: Layer where
  "ex_lessons_layer =
     fst (logPressure
            (fst (createCase ascii_text (ex_empty_layer ''/w/app/.decision-os'' ''app'')
                    (ex_create_input ''Add tile caching'') ''t1''))
            (ex_log_input ''This API requires auth'' None) ''t2'')"

text \<open>The pattern \<open>^\d{4}-[a-z0-9-]+$\<close> of unit identifiers.\<close>

definition matches_unit_id :: "string \<Rightarrow> bool" where
  "matches_unit_id s =
     (length s \<ge> 6 \<and> list_all is_digit (take 4 s) \<and> s ! 4 = CHR ''-'' \<and>
      list_all (\<lambda>c. is_lower_alnum c \<or> c = CHR ''-'') (drop 5 s))"

text \<open>The sequence number of a unit: the number its identifier starts with.\<close>

definition case_seq :: "Case \<Rightarrow> nat" where
  "case_seq c = (case match_leading_number (c_id c) of None \<Rightarrow> 0 | Some n \<Rightarrow> n)"

text \<open>
  The mutating operations of one store instance, and the units created by a run of them.
  An operation that fails leaves the run going, as a caller that catches the error does.
\<close>

datatype LayerOp =
    OpCreateCase CreateCaseInput string
  | OpCloseCase string CloseOutcome string
  | OpLogPressure LogPressureInput string
  | OpPromoteToFoundation PromoteInput string
  | OpSetActiveCase "string option"

fun apply_op :: "JsText \<Rightarrow> Layer \<Rightarrow> LayerOp \<Rightarrow> Layer \<times> Case list" where
  "apply_op js s (OpCreateCase input now) =
     (case createCase js s input now of
        (s', Inr c) \<Rightarrow> (s', [c])
      | (s', Inl e) \<Rightarrow> (s', []))"
| "apply_op js s (OpCloseCase caseId outcome now) =
     (case closeCase s caseId outcome now of
        Inr (s', u, forgotten) \<Rightarrow> (s', [])
      | Inl e \<Rightarrow> (s, []))"
| "apply_op js s (OpLogPressure input now) = (fst (logPressure s input now), [])"
| "apply_op js s (OpPromoteToFoundation input now) = (fst (promoteToFoundation s input now), [])"
| "apply_op js s (OpSetActiveCase caseId) = (setActiveCase s caseId, [])"

fun run_ops :: "JsText \<Rightarrow> Layer \<Rightarrow> LayerOp list \<Rightarrow> Layer \<times> Case list" where
  "run_ops js s [] = (s, [])"
| "run_ops js s (op # ops) =
     (let (s1, created1) = apply_op js s op;
          (s2, created2) = run_ops js s1 ops
      in (s2, created1 @ created2))"

text \<open>
  A project foundation that three projects have validated and that stands at confidence 3.
\<close>

definition ex_proven :: Foundation where
  "ex_proven =
     (ex_foundation ''F-0009'' ''Trace call sites'' ''Trace call sites before refactoring''
        [''REFACTORING''] 3)
       \<lparr>f_origin_project := Some ''app'',
        f_validated_in := Some [''app'', ''shop'', ''blog''],
        f_exit_criteria := Some ''Tooling finds call sites''\<rparr>"

definition ex_hs_elev :: HStore where
  "ex_hs_elev =
     \<lparr>projectLayer = ex_project_layer\<lparr>foundations_yaml := Some [ex_ui, ex_proven]\<rparr>,
      outerLayers = [ex_global_layer], home_dos = ex_home\<rparr>"

section \<open>Notions used in the statements: cross-validation\<close>

text \<open>
  The validated-in list of a record after the label of the current project has been
  added, when it was absent; the confidence that goes with it, one more when the list has
  three distinct labels or more and the confidence is below 3; and the record as it is
  written.
\<close>

definition labels_after :: "Foundation \<Rightarrow> string \<Rightarrow> string list" where
  "labels_after r label =
     (case f_validated_in r of
        None \<Rightarrow> [label]
      | Some old \<Rightarrow> if label \<in> set old then old else old @ [label])"

definition confidence_after :: "Foundation \<Rightarrow> string \<Rightarrow> nat" where
  "confidence_after r label =
     (if 3 \<le> card (set (labels_after r label)) \<and> f_confidence r < 3
      then f_confidence r + 1 else f_confidence r)"

definition validated_record :: "Foundation \<Rightarrow> string \<Rightarrow> string \<Rightarrow> Foundation" where
  "validated_record r label now =
     r\<lparr>f_validated_in := Some (labels_after r label),
       f_confidence := confidence_after r label, f_updated_at := now\<rparr>"

text \<open>A collection in which the record with the given id is replaced.\<close>

definition replace_by_id :: "string \<Rightarrow> Foundation \<Rightarrow> Foundation list \<Rightarrow> Foundation list" where
  "replace_by_id fid u fs = map (\<lambda>r. if f_id r = fid then u else r) fs"

text \<open>
  A layer whose collection file holds the given records, and a project where a foundation
  has been validated in two other projects.
\<close>

definition with_records :: "Layer \<Rightarrow> Foundation list \<Rightarrow> Layer" where
  "with_records l fs = l\<lparr>foundations_yaml := Some fs\<rparr>"

definition ex_shared :: Foundation where
  "ex_shared =
     (ex_foundation ''F-0004'' ''Cache tiles'' ''Prefer cached tiles'' [''PERFORMANCE''] 2)
       \<lparr>f_origin_project := Some ''shop'', f_validated_in := Some [''shop'', ''blog'']\<rparr>"

definition ex_hs_valid :: HStore where
  "ex_hs_valid =
     \<lparr>projectLayer = with_records ex_project_layer [ex_ui, ex_shared],
      outerLayers = [ex_global_layer], home_dos = ex_home\<rparr>"

section \<open>Auxiliary definitions\<close>

text \<open>The elements of a list whose title is neither in \<open>S\<close> nor carried by an earlier element.\<close>

fun firsts :: "string set \<Rightarrow> FoundationWithSource list \<Rightarrow> FoundationWithSource list" where
  "firsts S [] = []"
| "firsts S (a # as) =
     (if fws_title a \<in> S then firsts S as else a # firsts (insert (fws_title a) S) as)"

text \<open>The confidence that goes with a validated-in list, by the number of its entries.\<close>

definition entries_confidence :: "Foundation \<Rightarrow> string \<Rightarrow> nat" where
  "entries_confidence r label =
     (if 3 \<le> length (labels_after r label) \<and> f_confidence r < 3 then f_confidence r + 1
      else f_confidence r)"

text \<open>A run of operations in which the first unit is forgotten when it is closed.\<close>

definition ex_ops :: "LayerOp list" where
  "ex_ops =
     [OpCreateCase (ex_create_input ''clean task'') ''t1'',
      OpCloseCase ''0001-clean-task'' (ex_outcome 0) ''t2'',
      OpCreateCase (ex_create_input ''Third: task!'') ''t3'']"

text \<open>
  A layer with one completed unit of work that owns the given pressure events, none of
  them promoted.
\<close>

definition ex_pe :: "string \<Rightarrow> string list \<Rightarrow> PressureEvent" where
  "ex_pe i tags =
     \<lparr>pe_id = i, pe_timestamp = ''t2'', pe_case_id = ''0001-database-migration'',
      pe_pressure_type = None, pe_context_tags = Some tags,
      pe_expected = ''API returns 200'', pe_actual = ''API returns 403'',
      pe_adaptation = ''Added auth header'', pe_remember = ''This API requires auth'',
      pe_outcome = None, pe_promoted_to_foundation = None\<rparr>"

definition ex_review_layer :: "PressureEvent list \<Rightarrow> Layer" where
  "ex_review_layer es =
     ex_project_layer
       \<lparr>cases := [(''0001-database-migration'',
                   \<lparr>case_yaml = Some (ex_case\<lparr>c_status := COMPLETED\<rparr>),
                    pressures_yaml = Some es\<rparr>)]\<rparr>"

section \<open>Verification: relevance ranking\<close>

lemma overlap_annotate [simp]: "overlap js T (annotate_relevance js' T' f) = overlap js T f"
  by (simp add: overlap_def annotate_relevance_def)

lemma foundation_annotate_relevance [simp]:
  "foundation (annotate_relevance js T f) = foundation f"
  by (simp add: annotate_relevance_def)

lemma sorted_desc_sort_key:
  "sorted_wrt (\<lambda>a b. overlap js T b \<le> overlap js T a) (sort_key (\<lambda>f. - int (overlap js T f)) fs)"
proof -
  have "sorted (map (\<lambda>f. - int (overlap js T f)) (sort_key (\<lambda>f. - int (overlap js T f)) fs))"
    by (rule sorted_sort_key)
  then show ?thesis
    by (simp add: sorted_map)
qed

lemma stable_sort_key_overlap:
  "filter (\<lambda>f. overlap js T f = k) (sort_key (\<lambda>f. - int (overlap js T f)) fs) =
   filter (\<lambda>f. overlap js T f = k) fs"
proof -
  have "filter (\<lambda>f. - int (overlap js T f) = - int k) (sort_key (\<lambda>f. - int (overlap js T f)) fs) =
        filter (\<lambda>f. - int (overlap js T f) = - int k) fs"
    by (rule sort_key_stable)
  then show ?thesis by simp
qed

lemma sorted_desc_before:
  assumes "sorted_wrt (\<lambda>a b. g b \<le> (g a :: nat)) ys" "i < length ys" "j < length ys"
    "g (ys ! i) > 0" "g (ys ! j) = 0"
  shows "i < j"
proof (rule ccontr)
  assume "\<not> i < j"
  then have "j < i \<or> j = i" by arith
  then show False
  proof
    assume "j < i"
    with assms(1,2) have "g (ys ! i) \<le> g (ys ! j)"
      by (simp add: sorted_wrt_iff_nth_less)
    with assms(4,5) show False by simp
  next
    assume "j = i"
    with assms(4,5) show False by simp
  qed
qed

text \<open>
  Claim C5. Without an active case, or when the case's tag set (affected surfaces and
  touched areas, upper-cased) is empty, the candidates are returned as they are. Otherwise
  the output is the candidates stably sorted by descending overlap (a permutation, sorted,
  equal-overlap candidates in their input order), each annotated \<open>directly_relevant\<close>
  when its overlap is positive and \<open>general\<close> when it is zero, so every candidate with a
  positive overlap stands before every candidate with overlap zero.
\<close>

theorem rank_relevance:
  "rankFoundationsByRelevance js fs None = fs \<and>
   (caseTags js c = [] \<longrightarrow> rankFoundationsByRelevance js fs (Some c) = fs) \<and>
   (caseTags js c \<noteq> [] \<longrightarrow>
      (\<exists>ys. rankFoundationsByRelevance js fs (Some c) = map (annotate_relevance js (caseTags js c)) ys \<and>
            mset ys = mset fs \<and>
            sorted_wrt (\<lambda>a b. overlap js (caseTags js c) b \<le> overlap js (caseTags js c) a) ys \<and>
            (\<forall>k. filter (\<lambda>f. overlap js (caseTags js c) f = k) ys =
                 filter (\<lambda>f. overlap js (caseTags js c) f = k) fs)) \<and>
      (\<forall>f \<in> set (rankFoundationsByRelevance js fs (Some c)).
         relevance f =
           Some (if overlap js (caseTags js c) f > 0 then directly_relevant else general)) \<and>
      (\<forall>i j. i < length fs \<and> j < length fs \<and>
             overlap js (caseTags js c) (rankFoundationsByRelevance js fs (Some c) ! i) > 0 \<and>
             overlap js (caseTags js c) (rankFoundationsByRelevance js fs (Some c) ! j) = 0 \<longrightarrow> i < j))"
proof (intro conjI impI)
  show "rankFoundationsByRelevance js fs None = fs"
    by (simp add: rankFoundationsByRelevance_def)
  show "rankFoundationsByRelevance js fs (Some c) = fs" if "caseTags js c = []"
    using that by (simp add: rankFoundationsByRelevance_def)
next
  assume ne: "caseTags js c \<noteq> []"
  let ?T = "caseTags js c"
  let ?ys = "sort_key (\<lambda>f. - int (overlap js ?T f)) fs"
  have out: "rankFoundationsByRelevance js fs (Some c) = map (annotate_relevance js ?T) ?ys"
    using ne by (simp add: rankFoundationsByRelevance_def)
  have srt: "sorted_wrt (\<lambda>a b. overlap js ?T b \<le> overlap js ?T a) ?ys"
    by (rule sorted_desc_sort_key)
  show "\<exists>ys. rankFoundationsByRelevance js fs (Some c) = map (annotate_relevance js ?T) ys \<and>
            mset ys = mset fs \<and>
            sorted_wrt (\<lambda>a b. overlap js ?T b \<le> overlap js ?T a) ys \<and>
            (\<forall>k. filter (\<lambda>f. overlap js ?T f = k) ys = filter (\<lambda>f. overlap js ?T f = k) fs)"
    using out srt stable_sort_key_overlap by (intro exI [of _ ?ys]) simp
  show "\<forall>f \<in> set (rankFoundationsByRelevance js fs (Some c)).
         relevance f = Some (if overlap js ?T f > 0 then directly_relevant else general)"
    by (auto simp: out annotate_relevance_def overlap_def)
  show "\<forall>i j. i < length fs \<and> j < length fs \<and>
             overlap js ?T (rankFoundationsByRelevance js fs (Some c) ! i) > 0 \<and>
             overlap js ?T (rankFoundationsByRelevance js fs (Some c) ! j) = 0 \<longrightarrow> i < j"
  proof (intro allI impI)
    fix i j
    assume h: "i < length fs \<and> j < length fs \<and>
             overlap js ?T (rankFoundationsByRelevance js fs (Some c) ! i) > 0 \<and>
             overlap js ?T (rankFoundationsByRelevance js fs (Some c) ! j) = 0"
    then have li: "i < length ?ys" and lj: "j < length ?ys" by simp_all
    have "overlap js ?T (?ys ! i) > 0"
      using h nth_map [OF li, of "annotate_relevance js ?T"] by (simp add: out)
    moreover have "overlap js ?T (?ys ! j) = 0"
      using h nth_map [OF lj, of "annotate_relevance js ?T"] by (simp add: out)
    moreover note li lj
    ultimately show "i < j"
      using sorted_desc_before [OF srt] by blast
  qed
qed

text \<open>
  The ranking of the repository's test: the case touches \<open>data_model\<close> and \<open>BACKEND\<close>,
  the data modelling foundation overlaps twice and moves before the UI foundation.
\<close>

theorem rank_relevance_witness:
  "caseTags ascii_text ex_case \<noteq> [] \<and>
   map (\<lambda>f. (f_title (foundation f), relevance f))
     (rankFoundationsByRelevance ascii_text
        (map (annotate_source ex_home ex_project_layer) [ex_ui, ex_data]) (Some ex_case)) =
     [(''Data modeling pattern'', Some directly_relevant), (''UI pattern'', Some general)]"
proof -
  let ?fs = "map (annotate_source ex_home ex_project_layer) [ex_ui, ex_data]"
  have ne: "caseTags ascii_text ex_case \<noteq> []"
    by code_simp
  from rank_relevance [of ascii_text ?fs ex_case] ne
  have rel: "\<forall>f \<in> set (rankFoundationsByRelevance ascii_text ?fs (Some ex_case)).
      relevance f = Some (if overlap ascii_text (caseTags ascii_text ex_case) f > 0 then directly_relevant else general)"
    by blast
  have "map (\<lambda>f. (f_title (foundation f), overlap ascii_text (caseTags ascii_text ex_case) f))
     (rankFoundationsByRelevance ascii_text ?fs (Some ex_case)) =
     [(''Data modeling pattern'', 2), (''UI pattern'', 0)]"
    by code_simp
  with rel ne show ?thesis
    by (auto simp: map_eq_Cons_conv)
qed

section \<open>Verification: merged foundation listing\<close>

lemma passes_None: "passes None = (\<lambda>f. True)"
  by (rule ext) (simp add: passes_def)

lemma passes_Some:
  "passes (Some fl) =
     (\<lambda>f. (case flt_context_tags fl of
            None \<Rightarrow> True
          | Some tags \<Rightarrow> tags = [] \<or> (\<exists>t \<in> set (f_context_tags f). t \<in> set tags)) \<and>
          (case flt_min_confidence fl of None \<Rightarrow> True | Some m \<Rightarrow> m \<le> f_confidence f))"
  by (rule ext) (simp add: passes_def)

lemma getFoundations_passes:
  "getFoundations l filters = filter (passes filters) (layer_records l)"
proof (cases "foundations_yaml l")
  case None
  then show ?thesis
    by (simp add: getFoundations_def layer_records_def)
next
  case (Some fs)
  show ?thesis
  proof (cases filters)
    case None
    with Some show ?thesis
      by (simp add: getFoundations_def layer_records_def passes_None)
  next
    case fl: (Some fl)
    have "getFoundations l (Some fl) = filter (passes (Some fl)) fs"
    proof (cases "flt_context_tags fl")
      case None
      with Some show ?thesis
        by (cases "flt_min_confidence fl")
           (simp_all add: getFoundations_def passes_Some)
    next
      case tg: (Some tags)
      with Some show ?thesis
        by (cases "flt_min_confidence fl"; cases "tags = []")
           (simp_all add: getFoundations_def passes_Some)
    qed
    with Some fl show ?thesis
      by (simp add: layer_records_def)
  qed
qed

lemma annotate_source_provenance: "annotate_source home l = with_provenance home l"
  by (rule ext) (simp add: annotate_source_def with_provenance_def layer_scope_def)

lemma listing_candidates_code:
  "listing_candidates home filters ls =
     concat (map (\<lambda>l. map (annotate_source home l) (getFoundations l filters)) ls)"
  by (simp add: listing_candidates_def getFoundations_passes annotate_source_provenance)

lemma fws_title_annotate [simp]: "fws_title (annotate_source home l f) = f_title f"
  by (simp add: fws_title_def annotate_source_def)

lemma firsts_append:
  "firsts S (xs @ ys) = firsts S xs @ firsts (S \<union> fws_title ` set xs) ys"
proof (induction xs arbitrary: S)
  case Nil
  then show ?case by simp
next
  case (Cons a xs)
  then show ?case
    by (simp add: insert_absorb Un_commute insert_commute)
qed

lemma firsts_titles: "fws_title ` set (firsts S xs) = fws_title ` set xs - S"
  by (induction xs arbitrary: S) auto

lemma firsts_distinct: "distinct (map fws_title (firsts S xs))"
proof (induction xs arbitrary: S)
  case Nil
  then show ?case by simp
next
  case (Cons a xs)
  have "fws_title a \<notin> fws_title ` set (firsts (insert (fws_title a) S) xs)"
    by (simp add: firsts_titles)
  with Cons show ?case by simp
qed

lemma firsts_find:
  "find (\<lambda>a. fws_title a = t) (firsts S xs) =
     (if t \<in> S then None else find (\<lambda>a. fws_title a = t) xs)"
proof (induction xs arbitrary: S)
  case Nil
  then show ?case by simp
next
  case (Cons a xs)
  then show ?case by auto
qed

lemma firsts_subseq: "subseq (firsts S xs) xs"
  by (induction xs arbitrary: S) auto

lemma merge_foundations_firsts:
  "merge_foundations home l fs (seen, merged) =
     (rev (map fws_title (firsts (set seen) (map (annotate_source home l) fs))) @ seen,
      merged @ firsts (set seen) (map (annotate_source home l) fs))"
proof (induction fs arbitrary: seen merged)
  case Nil
  then show ?case by simp
next
  case (Cons f fs)
  then show ?case by simp
qed

lemma merge_layers_firsts:
  "snd (merge_layers home filters ls (seen, merged)) =
     merged @ firsts (set seen) (listing_candidates home filters ls)"
proof (induction ls arbitrary: seen merged)
  case Nil
  then show ?case by (simp add: listing_candidates_code)
next
  case (Cons l ls)
  let ?X = "map (annotate_source home l) (getFoundations l filters)"
  let ?seen' = "rev (map fws_title (firsts (set seen) ?X)) @ seen"
  have t: "set ?seen' = set seen \<union> fws_title ` set ?X"
    using firsts_titles [of "set seen" ?X] by auto
  have "snd (merge_layers home filters (l # ls) (seen, merged)) =
        snd (merge_layers home filters ls (?seen', merged @ firsts (set seen) ?X))"
    by (simp add: merge_foundations_firsts)
  also have "\<dots> = (merged @ firsts (set seen) ?X) @
        firsts (set ?seen') (listing_candidates home filters ls)"
    by (rule Cons.IH)
  also have "\<dots> = merged @ firsts (set seen) (?X @ listing_candidates home filters ls)"
    by (simp only: t firsts_append append_assoc)
  finally show ?case
    by (simp add: listing_candidates_code)
qed

lemma hgetFoundations_firsts:
  "hgetFoundations hs filters = firsts {} (listing_candidates (home_dos hs) filters (layers hs))"
  by (simp add: hgetFoundations_def merge_layers_firsts)

lemma filter_key_distinct:
  "distinct (map k xs) \<Longrightarrow>
   filter (\<lambda>a. k a = t) xs = (case find (\<lambda>a. k a = t) xs of None \<Rightarrow> [] | Some x \<Rightarrow> [x])"
proof (induction xs)
  case Nil
  then show ?case by simp
next
  case (Cons a xs)
  show ?case
  proof (cases "k a = t")
    case True
    from Cons.prems have "k a \<notin> k ` set xs" by simp
    with True have "\<forall>x \<in> set xs. k x \<noteq> t" by blast
    then have "filter (\<lambda>a. k a = t) xs = []" by (simp add: filter_empty_conv)
    with True show ?thesis by simp
  next
    case False
    with Cons show ?thesis by simp
  qed
qed

lemma find_map_annot:
  "find (\<lambda>a. fws_title a = t) (map (annotate_source home l) fs) =
   map_option (annotate_source home l) (find (\<lambda>f. f_title f = t) fs)"
  by (induction fs) auto

lemma find_append_Some: "find P xs = Some x \<Longrightarrow> find P (xs @ ys) = Some x"
  by (induction xs) (auto split: if_splits)


lemma firsts_set: "set (firsts S xs) \<subseteq> set xs"
  by (induction xs arbitrary: S) auto

lemma find_filter_conj: "find P (filter Q xs) = find (\<lambda>x. P x \<and> Q x) xs"
  by (induction xs) auto

lemma find_map_provenance:
  "find (\<lambda>a. fws_title a = t) (map (with_provenance home l) fs) =
   map_option (with_provenance home l) (find (\<lambda>f. f_title f = t) fs)"
  by (induction fs) (auto simp: fws_title_def with_provenance_def)

text \<open>
  Claim C3, amended. The merged listing goes through the layers nearest first and, among
  the records that pass the filters of the call, keeps one record per title (compared as
  is, case-sensitively), the first one: the titles of the output are distinct, the output
  is a subsequence of the passing records of all layers, and for every title the record
  listed is the first passing record of that title. Every record listed carries the path
  of the layer that holds it and no relevance, and its source scope is GLOBAL exactly when
  that layer is the user-wide directory, PROJECT otherwise. In particular a record of the
  project layer that passes the filters, when the project layer is not the user-wide
  directory, has the first passing project record of its title as the only record listed
  under that title, annotated PROJECT, whatever the outer layers hold.
\<close>

theorem merged_listing:
  "distinct (map fws_title (hgetFoundations hs filters)) \<and>
   subseq (hgetFoundations hs filters) (listing_candidates (home_dos hs) filters (layers hs)) \<and>
   (\<forall>t. find (\<lambda>a. fws_title a = t) (hgetFoundations hs filters) =
        find (\<lambda>a. fws_title a = t) (listing_candidates (home_dos hs) filters (layers hs))) \<and>
   (\<forall>a \<in> set (hgetFoundations hs filters).
      \<exists>l \<in> set (layers hs).
        foundation a \<in> set (layer_records l) \<and> passes filters (foundation a) \<and>
        source_layer a = basePath l \<and> relevance a = None \<and>
        (source_scope a = GLOBAL) = (basePath l = home_dos hs) \<and>
        (source_scope a = PROJECT) = (basePath l \<noteq> home_dos hs)) \<and>
   (\<forall>pf. pf \<in> set (layer_records (projectLayer hs)) \<and> passes filters pf \<and>
         basePath (projectLayer hs) \<noteq> home_dos hs \<longrightarrow>
      (\<exists>pf'. find (\<lambda>f. f_title f = f_title pf \<and> passes filters f)
                (layer_records (projectLayer hs)) = Some pf' \<and>
         filter (\<lambda>a. fws_title a = f_title pf) (hgetFoundations hs filters) =
           [\<lparr>foundation = pf', source_layer = basePath (projectLayer hs),
             source_scope = PROJECT, relevance = None\<rparr>]))"
proof (intro conjI allI impI ballI)
  let ?C = "listing_candidates (home_dos hs) filters (layers hs)"
  show d: "distinct (map fws_title (hgetFoundations hs filters))"
    by (simp add: hgetFoundations_firsts firsts_distinct)
  show "subseq (hgetFoundations hs filters) ?C"
    by (simp add: hgetFoundations_firsts firsts_subseq)
  show f: "find (\<lambda>a. fws_title a = t) (hgetFoundations hs filters) =
        find (\<lambda>a. fws_title a = t) ?C" for t
    by (simp add: hgetFoundations_firsts firsts_find)
  show "\<exists>l \<in> set (layers hs).
        foundation a \<in> set (layer_records l) \<and> passes filters (foundation a) \<and>
        source_layer a = basePath l \<and> relevance a = None \<and>
        (source_scope a = GLOBAL) = (basePath l = home_dos hs) \<and>
        (source_scope a = PROJECT) = (basePath l \<noteq> home_dos hs)"
    if "a \<in> set (hgetFoundations hs filters)" for a
  proof -
    from that firsts_set [of "{}" ?C] have "a \<in> set ?C"
      by (auto simp: hgetFoundations_firsts)
    then obtain l r where l: "l \<in> set (layers hs)" and r: "r \<in> set (layer_records l)"
      and p: "passes filters r" and a: "a = with_provenance (home_dos hs) l r"
      by (auto simp: listing_candidates_def)
    from a have "foundation a = r" "source_layer a = basePath l" "relevance a = None"
      "(source_scope a = GLOBAL) = (basePath l = home_dos hs)"
      "(source_scope a = PROJECT) = (basePath l \<noteq> home_dos hs)"
      by (simp_all add: with_provenance_def)
    with l r p show ?thesis by blast
  qed
  fix pf
  assume h: "pf \<in> set (layer_records (projectLayer hs)) \<and> passes filters pf \<and>
         basePath (projectLayer hs) \<noteq> home_dos hs"
  let ?p = "projectLayer hs"
  let ?t = "f_title pf"
  let ?P = "\<lambda>f. f_title f = ?t \<and> passes filters f"
  from h have "\<exists>x \<in> set (layer_records ?p). ?P x" by blast
  then obtain pf' where pf': "find ?P (layer_records ?p) = Some pf'"
    by (cases "find ?P (layer_records ?p)") (auto simp: find_None_iff)
  have "find (\<lambda>a. fws_title a = ?t) ?C =
        Some (with_provenance (home_dos hs) ?p pf')"
    by (simp add: listing_candidates_def layers_def find_append_Some find_map_provenance
        find_filter_conj pf')
  with f have "find (\<lambda>a. fws_title a = ?t) (hgetFoundations hs filters) =
        Some (with_provenance (home_dos hs) ?p pf')" by simp
  with filter_key_distinct [OF d, of ?t]
  have "filter (\<lambda>a. fws_title a = ?t) (hgetFoundations hs filters) =
        [with_provenance (home_dos hs) ?p pf']" by simp
  with h pf' show "\<exists>pf'. find ?P (layer_records ?p) = Some pf' \<and>
         filter (\<lambda>a. fws_title a = ?t) (hgetFoundations hs filters) =
           [\<lparr>foundation = pf', source_layer = basePath ?p,
             source_scope = PROJECT, relevance = None\<rparr>]"
    by (simp add: with_provenance_def)
qed

text \<open>
  The project layer and the user-wide layer both hold a record titled \<open>UI pattern\<close>: without
  filters only the project record is listed, annotated PROJECT, and the record that only
  the user-wide layer holds is listed as GLOBAL.
\<close>

theorem merged_listing_witness:
  "ex_ui \<in> set (layer_records (projectLayer ex_hs)) \<and> passes None ex_ui \<and>
   ex_global_ui \<in> set (layer_records ex_global_layer) \<and>
   f_title ex_global_ui = f_title ex_ui \<and>
   basePath (projectLayer ex_hs) \<noteq> home_dos ex_hs \<and>
   basePath ex_global_layer = home_dos ex_hs \<and>
   filter (\<lambda>a. fws_title a = ''UI pattern'') (hgetFoundations ex_hs None) =
     [\<lparr>foundation = ex_ui, source_layer = ''/w/app/.decision-os'', source_scope = PROJECT,
       relevance = None\<rparr>] \<and>
   map (\<lambda>a. (fws_title a, source_layer a, source_scope a)) (hgetFoundations ex_hs None) =
     [(''UI pattern'', ''/w/app/.decision-os'', PROJECT),
      (''Data modeling pattern'', ''/w/app/.decision-os'', PROJECT),
      (''Retired idea'', ''/w/app/.decision-os'', PROJECT),
      (''Widgets'', ''/home/u/.decision-os'', GLOBAL)]"
proof -
  have h1: "ex_ui \<in> set (layer_records (projectLayer ex_hs))"
    by code_simp
  have h1': "passes None ex_ui"
    by code_simp
  have h2: "basePath (projectLayer ex_hs) \<noteq> home_dos ex_hs"
    by code_simp
  have h3: "ex_global_ui \<in> set (layer_records ex_global_layer)"
    by code_simp
  have h4: "f_title ex_global_ui = f_title ex_ui"
    by code_simp
  have h5: "basePath ex_global_layer = home_dos ex_hs"
    by code_simp
  have t: "f_title ex_ui = ''UI pattern''"
    by code_simp
  have p: "basePath (projectLayer ex_hs) = ''/w/app/.decision-os''"
    by code_simp
  have fnd: "find (\<lambda>f. f_title f = f_title ex_ui \<and> passes None f)
      (layer_records (projectLayer ex_hs)) = Some ex_ui"
    by code_simp
  have all: "map (\<lambda>a. (fws_title a, source_layer a, source_scope a)) (hgetFoundations ex_hs None) =
     [(''UI pattern'', ''/w/app/.decision-os'', PROJECT),
      (''Data modeling pattern'', ''/w/app/.decision-os'', PROJECT),
      (''Retired idea'', ''/w/app/.decision-os'', PROJECT),
      (''Widgets'', ''/home/u/.decision-os'', GLOBAL)]"
    by code_simp
  from merged_listing [of ex_hs None] h1 h1' h2
  obtain pf' where
    "find (\<lambda>f. f_title f = f_title ex_ui \<and> passes None f)
       (layer_records (projectLayer ex_hs)) = Some pf'"
    "filter (\<lambda>a. fws_title a = f_title ex_ui) (hgetFoundations ex_hs None) =
       [\<lparr>foundation = pf', source_layer = basePath (projectLayer ex_hs),
         source_scope = PROJECT, relevance = None\<rparr>]"
    by blast
  with fnd t p have
    "filter (\<lambda>a. fws_title a = ''UI pattern'') (hgetFoundations ex_hs None) =
       [\<lparr>foundation = ex_ui, source_layer = ''/w/app/.decision-os'', source_scope = PROJECT,
         relevance = None\<rparr>]"
    by simp
  with h1 h1' h2 h3 h4 h5 all show ?thesis by simp
qed

text \<open>
  With a minimum confidence of 2 the project record titled \<open>UI pattern\<close> (confidence 1)
  does not pass, and the global record of the same title is the one listed, as GLOBAL:
  a project record and a global record share a title and the global one appears.
\<close>

theorem merged_listing_counterexample:
  "ex_ui \<in> set (layer_records (projectLayer ex_hs)) \<and>
   ex_global_ui \<in> set (layer_records ex_global_layer) \<and>
   ex_global_layer \<in> set (layers ex_hs) \<and>
   f_title ex_global_ui = f_title ex_ui \<and>
   basePath (projectLayer ex_hs) \<noteq> home_dos ex_hs \<and>
   basePath ex_global_layer = home_dos ex_hs \<and>
   hgetFoundations ex_hs (Some \<lparr>flt_context_tags = None, flt_min_confidence = Some 2\<rparr>) =
     [\<lparr>foundation = ex_global_ui, source_layer = ''/home/u/.decision-os'',
       source_scope = GLOBAL, relevance = None\<rparr>]"
  by code_simp

section \<open>Verification: conflict detection\<close>

lemma getFoundations_unfiltered: "getFoundations l None = layer_records l"
  by (simp add: getFoundations_passes passes_None)

lemma title_match_same_title: "title_match js pf = same_title_ci js pf"
  by (rule ext) (auto simp: title_match_def same_title_ci_def)

lemma overlappingTags_common: "overlappingTags pf gf = common_tags pf gf"
  by (simp add: overlappingTags_def common_tags_def)

lemma same_title_ci_refl: "f_title pf = f_title gf \<Longrightarrow> same_title_ci js pf gf"
  by (simp add: same_title_ci_def)

lemma tag_conflicts_nomatch:
  assumes "\<forall>gf \<in> set gfs. \<not> same_title_ci js pf gf"
  shows "tag_conflicts js pf gfs =
    map (tag_conflict pf) (filter (\<lambda>gf. common_tags pf gf \<noteq> [] \<and> contradictory js pf gf) gfs)"
proof -
  from assms have
    "filter (\<lambda>gf. common_tags pf gf \<noteq> [] \<and> f_title pf \<noteq> f_title gf \<and> contradictory js pf gf) gfs =
     filter (\<lambda>gf. common_tags pf gf \<noteq> [] \<and> contradictory js pf gf) gfs"
    by (intro filter_cong) (auto dest: same_title_ci_refl)
  then show ?thesis
    by (simp add: tag_conflicts_def overlappingTags_common)
qed

lemma conflicts_of_cases:
  "conflicts_of js gfs pf =
     (case find (same_title_ci js pf) gfs of
        Some gf \<Rightarrow> [shadow_conflict pf gf]
      | None \<Rightarrow>
          map (tag_conflict pf)
            (filter (\<lambda>gf. common_tags pf gf \<noteq> [] \<and> contradictory js pf gf) gfs))"
proof (cases "find (same_title_ci js pf) gfs")
  case None
  then have "\<forall>gf \<in> set gfs. \<not> same_title_ci js pf gf"
    by (simp add: find_None_iff)
  from tag_conflicts_nomatch [OF this] None show ?thesis
    by (simp add: conflicts_of_def title_match_same_title)
next
  case (Some gf)
  then show ?thesis
    by (simp add: conflicts_of_def title_match_same_title)
qed

lemma pairs_of_conflicts_of:
  "map (\<lambda>c. (project_foundation c, global_foundation c)) (conflicts_of js gfs pf) =
     (case find (same_title_ci js pf) gfs of
        Some gf \<Rightarrow> [(pf, gf)]
      | None \<Rightarrow>
          map (Pair pf) (filter (\<lambda>gf. common_tags pf gf \<noteq> [] \<and> contradictory js pf gf) gfs))"
  by (simp add: conflicts_of_cases shadow_conflict_def tag_conflict_def comp_def
      split: option.splits)

lemma conflicts_of_content:
  assumes "c \<in> set (conflicts_of js gfs pf)"
  shows "project_foundation c = pf \<and>
    (if same_title_ci js pf (global_foundation c) then c = shadow_conflict pf (global_foundation c)
     else c = tag_conflict pf (global_foundation c))"
proof (cases "find (same_title_ci js pf) gfs")
  case None
  then have n: "\<forall>gf \<in> set gfs. \<not> same_title_ci js pf gf"
    by (simp add: find_None_iff)
  from assms None obtain gf where "gf \<in> set gfs" "c = tag_conflict pf gf"
    by (auto simp: conflicts_of_cases)
  with n show ?thesis
    by (auto simp: tag_conflict_def)
next
  case (Some gf)
  then have "same_title_ci js pf gf"
    by (auto simp: find_Some_iff)
  moreover from assms Some have "c = shadow_conflict pf gf"
    by (simp add: conflicts_of_cases)
  ultimately show ?thesis
    by (simp add: shadow_conflict_def)
qed

text \<open>
  Claim C4, amended. When the outermost of two or more layers is the user-wide directory,
  conflict detection goes through the project foundations in order and reports, for each:
  when some global title equals its title up to the case of the letters, exactly one
  conflict, with the first such global foundation, and nothing else for that project
  foundation; otherwise one conflict, in order, for every global foundation that shares a
  context tag with it and whose behaviour is found contradictory. A conflict between two
  titles that are equal up to case is titled with the project title and says that the
  project foundation shadows the global one; any other conflict is titled with both titles
  and names the tags that the two foundations share. Behaviours are found contradictory
  when one says \<open>always\<close> and the other \<open>never\<close>, in either direction, or when the
  project one says \<open>prefer\<close> and the global one \<open>avoid\<close>; they are not found
  contradictory unless one of the two word pairs occurs in some direction. When the
  project layer is the only layer, nothing is reported.
\<close>

theorem detectConflicts_spec:
  "(\<forall>g. globalLayer hs = Some g \<and> basePath g = home_dos hs \<longrightarrow>
      conflict_pairs js hs =
        concat (map (\<lambda>pf. case find (same_title_ci js pf) (layer_records g) of
                             Some gf \<Rightarrow> [(pf, gf)]
                           | None \<Rightarrow>
                               map (Pair pf)
                                 (filter (\<lambda>gf. common_tags pf gf \<noteq> [] \<and> contradictory js pf gf)
                                    (layer_records g)))
                  (layer_records (projectLayer hs))) \<and>
      (\<forall>c \<in> set (detectConflicts js hs).
         (same_title_ci js (project_foundation c) (global_foundation c) \<longrightarrow>
            fc_title c = f_title (project_foundation c) \<and>
            recommendation c =
              ''Project foundation '' @ [CHR 0x22] @ f_title (project_foundation c) @ [CHR 0x22] @
              '' shadows global foundation. '' @
              ''Project version will be used. Consider if global should be updated or removed.'') \<and>
         (\<not> same_title_ci js (project_foundation c) (global_foundation c) \<longrightarrow>
            fc_title c =
              f_title (project_foundation c) @ '' vs '' @ f_title (global_foundation c) \<and>
            recommendation c =
              ''Potential conflict: Both apply to ['' @
              join_str '', '' (common_tags (project_foundation c) (global_foundation c)) @
              ''] but may have contradictory guidance. Review and clarify.''))) \<and>
   (\<forall>pf gf.
      ((says js pf ''always'' \<and> says js gf ''never'') \<or>
       (says js pf ''never'' \<and> says js gf ''always'') \<or>
       (says js pf ''prefer'' \<and> says js gf ''avoid'') \<longrightarrow> contradictory js pf gf) \<and>
      (contradictory js pf gf \<longrightarrow>
         (says js pf ''always'' \<and> says js gf ''never'') \<or>
         (says js pf ''never'' \<and> says js gf ''always'') \<or>
         (says js pf ''prefer'' \<and> says js gf ''avoid'') \<or>
         (says js pf ''avoid'' \<and> says js gf ''prefer''))) \<and>
   (outerLayers hs = [] \<longrightarrow> detectConflicts js hs = [])"
proof (intro conjI allI impI ballI)
  show "detectConflicts js hs = []" if "outerLayers hs = []"
    using that by (simp add: detectConflicts_def globalLayer_def)
next
  fix g
  assume g: "globalLayer hs = Some g \<and> basePath g = home_dos hs"
  let ?gfs = "layer_records g"
  let ?pfs = "layer_records (projectLayer hs)"
  have dc: "detectConflicts js hs = concat (map (conflicts_of js ?gfs) ?pfs)"
    using g by (simp add: detectConflicts_def getFoundations_unfiltered)
  show "conflict_pairs js hs =
        concat (map (\<lambda>pf. case find (same_title_ci js pf) ?gfs of
                             Some gf \<Rightarrow> [(pf, gf)]
                           | None \<Rightarrow>
                               map (Pair pf)
                                 (filter (\<lambda>gf. common_tags pf gf \<noteq> [] \<and> contradictory js pf gf)
                                    ?gfs))
                  ?pfs)"
    by (simp add: conflict_pairs_def dc map_concat comp_def pairs_of_conflicts_of)
  fix c
  assume "c \<in> set (detectConflicts js hs)"
  then obtain pf where "c \<in> set (conflicts_of js ?gfs pf)"
    by (auto simp: dc)
  from conflicts_of_content [OF this]
  have c: "project_foundation c = pf"
    "same_title_ci js pf (global_foundation c) \<Longrightarrow> c = shadow_conflict pf (global_foundation c)"
    "\<not> same_title_ci js pf (global_foundation c) \<Longrightarrow> c = tag_conflict pf (global_foundation c)"
    by (simp_all split: if_splits)
  {
    assume s: "same_title_ci js (project_foundation c) (global_foundation c)"
    with c have e: "c = shadow_conflict pf (global_foundation c)" by simp
    show "fc_title c = f_title (project_foundation c)"
      by (subst e) (simp add: shadow_conflict_def c(1))
    show "recommendation c =
              ''Project foundation '' @ [CHR 0x22] @ f_title (project_foundation c) @ [CHR 0x22] @
              '' shadows global foundation. '' @
              ''Project version will be used. Consider if global should be updated or removed.''"
      by (subst e) (simp add: shadow_conflict_def c(1))
  }
  {
    assume s: "\<not> same_title_ci js (project_foundation c) (global_foundation c)"
    with c have e: "c = tag_conflict pf (global_foundation c)" by simp
    show "fc_title c =
              f_title (project_foundation c) @ '' vs '' @ f_title (global_foundation c)"
      by (subst e) (simp add: tag_conflict_def c(1))
    show "recommendation c =
              ''Potential conflict: Both apply to ['' @
              join_str '', '' (common_tags (project_foundation c) (global_foundation c)) @
              ''] but may have contradictory guidance. Review and clarify.''"
      by (subst e) (simp add: tag_conflict_def c(1) overlappingTags_common)
  }
next
  fix pf gf
  show "contradictory js pf gf"
    if "(says js pf ''always'' \<and> says js gf ''never'') \<or>
        (says js pf ''never'' \<and> says js gf ''always'') \<or>
        (says js pf ''prefer'' \<and> says js gf ''avoid'')"
    using that by (simp add: contradictory_def says_def Let_def)
  show "(says js pf ''always'' \<and> says js gf ''never'') \<or>
        (says js pf ''never'' \<and> says js gf ''always'') \<or>
        (says js pf ''prefer'' \<and> says js gf ''avoid'') \<or>
        (says js pf ''avoid'' \<and> says js gf ''prefer'')"
    if "contradictory js pf gf"
    using that by (auto simp: contradictory_def says_def Let_def)
qed

text \<open>
  In the example store the user-wide directory is the outermost layer. The project's
  \<open>UI Pattern\<close> shadows the global \<open>UI pattern\<close> and nothing else is reported for it;
  the project's \<open>Nesting\<close> says \<open>always\<close>, shares the tag \<open>FRONTEND\<close> with the global
  \<open>Widgets\<close>, which says \<open>never\<close>, and is reported with that tag. A store with the
  project layer alone reports nothing.
\<close>

theorem detectConflicts_spec_witness:
  "globalLayer ex_hs_shadow = Some ex_global_layer \<and>
   basePath ex_global_layer = home_dos ex_hs_shadow \<and>
   conflict_pairs ascii_text ex_hs_shadow =
     [(ex_always, ex_global_ui), (ex_nest, ex_global_never)] \<and>
   same_title_ci ascii_text ex_always ex_global_ui \<and>
   \<not> same_title_ci ascii_text ex_nest ex_global_never \<and>
   says ascii_text ex_nest ''always'' \<and> says ascii_text ex_global_never ''never'' \<and>
   contradictory ascii_text ex_nest ex_global_never \<and>
   map fc_title (detectConflicts ascii_text ex_hs_shadow) = [''UI Pattern'', ''Nesting vs Widgets''] \<and>
   (\<exists>c \<in> set (detectConflicts ascii_text ex_hs_shadow).
      project_foundation c = ex_nest \<and> global_foundation c = ex_global_never \<and>
      recommendation c =
        ''Potential conflict: Both apply to [FRONTEND] but may have contradictory guidance. Review and clarify.'') \<and>
   outerLayers (ex_hs_shadow\<lparr>outerLayers := []\<rparr>) = [] \<and>
   detectConflicts ascii_text (ex_hs_shadow\<lparr>outerLayers := []\<rparr>) = []"
proof -
  note spec = detectConflicts_spec [of ex_hs_shadow ascii_text]
  note spec1 = detectConflicts_spec [of "ex_hs_shadow\<lparr>outerLayers := []\<rparr>" ascii_text]
  have g: "globalLayer ex_hs_shadow = Some ex_global_layer"
    by code_simp
  have h: "basePath ex_global_layer = home_dos ex_hs_shadow"
    by code_simp
  have rhs: "concat (map (\<lambda>pf. case find (same_title_ci ascii_text pf) (layer_records ex_global_layer) of
                             Some gf \<Rightarrow> [(pf, gf)]
                           | None \<Rightarrow>
                               map (Pair pf)
                                 (filter (\<lambda>gf. common_tags pf gf \<noteq> [] \<and>
                                                contradictory ascii_text pf gf)
                                    (layer_records ex_global_layer)))
                  (layer_records (projectLayer ex_hs_shadow))) =
       [(ex_always, ex_global_ui), (ex_nest, ex_global_never)]"
    by code_simp
  from spec g h rhs have pairs: "conflict_pairs ascii_text ex_hs_shadow =
     [(ex_always, ex_global_ui), (ex_nest, ex_global_never)]"
    by simp
  have s1: "same_title_ci ascii_text ex_always ex_global_ui"
    by code_simp
  have s2: "\<not> same_title_ci ascii_text ex_nest ex_global_never"
    by code_simp
  have w: "says ascii_text ex_nest ''always''" "says ascii_text ex_global_never ''never''"
    by code_simp+
  with spec have c: "contradictory ascii_text ex_nest ex_global_never"
    by blast
  have t: "map fc_title (detectConflicts ascii_text ex_hs_shadow) =
      [''UI Pattern'', ''Nesting vs Widgets'']"
    by code_simp
  have r: "\<exists>c \<in> set (detectConflicts ascii_text ex_hs_shadow).
      project_foundation c = ex_nest \<and> global_foundation c = ex_global_never \<and>
      recommendation c =
        ''Potential conflict: Both apply to [FRONTEND] but may have contradictory guidance. Review and clarify.''"
    by code_simp
  have o: "outerLayers (ex_hs_shadow\<lparr>outerLayers := []\<rparr>) = []"
    by simp
  with spec1 have e: "detectConflicts ascii_text (ex_hs_shadow\<lparr>outerLayers := []\<rparr>) = []"
    by blast
  from g h pairs s1 s2 w c t r o e show ?thesis
    by simp
qed

text \<open>
  The claim as stated fails: the project foundation \<open>UI Pattern\<close> says \<open>always\<close>, the
  global foundation \<open>Widgets\<close> says \<open>never\<close>, their titles differ also up to case and
  they share the tag \<open>FRONTEND\<close>, yet the pair is not reported, because the project
  foundation matches the title of another global foundation and the loop goes on to the
  next project foundation.
\<close>

theorem detectConflicts_counterexample:
  "globalLayer ex_hs_shadow = Some ex_global_layer \<and>
   basePath ex_global_layer = home_dos ex_hs_shadow \<and>
   ex_always \<in> set (layer_records (projectLayer ex_hs_shadow)) \<and>
   ex_global_never \<in> set (layer_records ex_global_layer) \<and>
   \<not> same_title_ci ascii_text ex_always ex_global_never \<and>
   common_tags ex_always ex_global_never = [''FRONTEND''] \<and>
   says ascii_text ex_always ''always'' \<and> says ascii_text ex_global_never ''never'' \<and>
   (ex_always, ex_global_never) \<notin> set (conflict_pairs ascii_text ex_hs_shadow)"
  by code_simp

text \<open>
  The word pair \<open>prefer\<close>/\<open>avoid\<close> is looked for in one direction only: a project
  foundation that says \<open>avoid\<close> is not found to contradict a global one that says
  \<open>prefer\<close>, while the same two texts in the other roles are.
\<close>

lemma contradictory_prefer_avoid_one_way:
  "contradictory ascii_text (ex_foundation ''F-1'' ''A'' ''Prefer tabs'' [''STYLE''] 1)
                 (ex_foundation ''GF-1'' ''B'' ''Avoid tabs'' [''STYLE''] 1) \<and>
   \<not> contradictory ascii_text (ex_foundation ''F-1'' ''A'' ''Avoid tabs'' [''STYLE''] 1)
                   (ex_foundation ''GF-1'' ''B'' ''Prefer tabs'' [''STYLE''] 1)"
  by code_simp

text \<open>
  The layer that the operations call global is the outermost of two or more layers,
  whether or not it is the user-wide directory: below a parent project, on a machine
  without a user-wide directory, the parent's foundations are compared as global ones.
\<close>

lemma detectConflicts_parent_layer:
  "home_dos ex_hs_parent \<notin> set (map basePath (layers ex_hs_parent)) \<and>
   conflict_pairs ascii_text ex_hs_parent =
     [(ex_always, ex_global_ui), (ex_nest, ex_global_never)]"
  by code_simp

section \<open>Verification: context\<close>

lemma rank_foundations_set:
  "foundation ` set (rankFoundationsByRelevance js fs ac) = foundation ` set fs"
  by (auto simp: rankFoundationsByRelevance_def image_image split: option.splits)

text \<open>
  Claim C10. Whenever \<open>getContext\<close> returns, and it returns whenever the project layer
  has its configuration, the relevant foundations are the ranking of the merged listing
  filtered to confidence at least 1, so no record of confidence 0 is among them; the
  layer's own \<open>getFoundations\<close> without filters returns the whole collection, records of
  confidence 0 included.
\<close>

theorem getContext_confidence:
  "(\<forall>ctx. getContext js hs = Inr ctx \<longrightarrow>
      (\<forall>f \<in> set (ctx_relevant_foundations ctx). f_confidence (foundation f) \<ge> 1) \<and>
      ctx_relevant_foundations ctx =
        rankFoundationsByRelevance js
          (filter (\<lambda>f. f_confidence (foundation f) \<ge> 1) (hgetFoundations hs None))
          (ctx_active_case ctx)) \<and>
   (config_yaml (projectLayer hs) \<noteq> None \<longrightarrow> (\<exists>ctx. getContext js hs = Inr ctx)) \<and>
   (\<forall>l fs. foundations_yaml l = Some fs \<longrightarrow> getFoundations l None = fs)"
proof (intro conjI allI impI ballI)
  fix ctx f
  assume c: "getContext js hs = Inr ctx" and f: "f \<in> set (ctx_relevant_foundations ctx)"
  from c obtain ac where
    r: "ctx_relevant_foundations ctx =
        rankFoundationsByRelevance js
          (filter (\<lambda>f. f_confidence (foundation f) \<ge> 1) (hgetFoundations hs None)) ac"
    by (auto simp: getContext_def Let_def split: sum.splits)
  from f have "foundation f \<in> foundation ` set (ctx_relevant_foundations ctx)" by simp
  then have "foundation f \<in> foundation `
      set (filter (\<lambda>f. f_confidence (foundation f) \<ge> 1) (hgetFoundations hs None))"
    unfolding r rank_foundations_set .
  then show "f_confidence (foundation f) \<ge> 1" by auto
next
  fix ctx
  assume c: "getContext js hs = Inr ctx"
  then show "ctx_relevant_foundations ctx =
        rankFoundationsByRelevance js
          (filter (\<lambda>f. f_confidence (foundation f) \<ge> 1) (hgetFoundations hs None))
          (ctx_active_case ctx)"
    by (auto simp: getContext_def Let_def split: sum.splits)
next
  assume "config_yaml (projectLayer hs) \<noteq> None"
  then show "\<exists>ctx. getContext js hs = Inr ctx"
    by (auto simp: getContext_def getConfig_def Let_def)
next
  fix l :: Layer and fs
  assume "foundations_yaml l = Some fs"
  then show "getFoundations l None = fs"
    by (simp add: getFoundations_def)
qed

text \<open>
  The example project layer holds \<open>Retired idea\<close> at confidence 0: the merged listing
  returns it, the context does not.
\<close>

theorem getContext_confidence_witness:
  "config_yaml (projectLayer ex_hs) \<noteq> None \<and>
   f_confidence ex_zero = 0 \<and>
   ex_zero \<in> foundation ` set (hgetFoundations ex_hs None) \<and>
   (\<exists>ctx. getContext ascii_text ex_hs = Inr ctx \<and>
      map fws_title (ctx_relevant_foundations ctx) =
        [''Data modeling pattern'', ''UI pattern'', ''Widgets''] \<and>
      ex_zero \<notin> foundation ` set (ctx_relevant_foundations ctx))"
proof -
  have cfg: "config_yaml (projectLayer ex_hs) \<noteq> None"
    by code_simp
  have z: "f_confidence ex_zero = 0"
    by code_simp
  have listed: "ex_zero \<in> foundation ` set (hgetFoundations ex_hs None)"
    by code_simp
  from getContext_confidence [of ascii_text ex_hs] cfg
  obtain ctx where c: "getContext ascii_text ex_hs = Inr ctx"
    by blast
  with getContext_confidence [of ascii_text ex_hs]
  have all1: "\<forall>f \<in> set (ctx_relevant_foundations ctx). f_confidence (foundation f) \<ge> 1"
    by blast
  have "map fws_title (ctx_relevant_foundations (projr (getContext ascii_text ex_hs))) =
        [''Data modeling pattern'', ''UI pattern'', ''Widgets'']"
    by code_simp
  with c have titles: "map fws_title (ctx_relevant_foundations ctx) =
        [''Data modeling pattern'', ''UI pattern'', ''Widgets'']"
    by simp
  from all1 z have nz: "ex_zero \<notin> foundation ` set (ctx_relevant_foundations ctx)"
    by auto
  have "\<exists>ctx. getContext ascii_text ex_hs = Inr ctx \<and>
      map fws_title (ctx_relevant_foundations ctx) =
        [''Data modeling pattern'', ''UI pattern'', ''Widgets''] \<and>
      ex_zero \<notin> foundation ` set (ctx_relevant_foundations ctx)"
    by (rule exI [of _ ctx]) (intro conjI c titles nz)
  then show ?thesis
    by (intro conjI cfg z listed)
qed

section \<open>Verification: closing a unit of work\<close>

lemma getCase_write_case_yaml [simp]:
  "getCase (write_case_yaml s k c) k' = (if k' = k then Some c else getCase s k')"
  by (simp add: getCase_def write_case_yaml_def update_conv')

lemma getPressureEvents_write_case_yaml [simp]:
  "getPressureEvents (write_case_yaml s k c) k' = getPressureEvents s k'"
  by (auto simp: getPressureEvents_def write_case_yaml_def update_conv' case_dir_of_def
      split: option.splits)

lemma cases_setActiveCase [simp]: "cases (setActiveCase s a) = cases s"
  by (simp add: setActiveCase_def persistActiveCase_def)

lemma getCase_setActiveCase [simp]: "getCase (setActiveCase s a) k = getCase s k"
  by (simp add: getCase_def)

lemma getPressureEvents_setActiveCase [simp]:
  "getPressureEvents (setActiveCase s a) k = getPressureEvents s k"
  by (simp add: getPressureEvents_def)

lemma map_of_forgetCase [simp]:
  "map_of (cases (forgetCase s k)) k' = (if k' = k then None else map_of (cases s) k')"
  by (auto simp: forgetCase_def delete_conv')

lemma map_of_write_case_yaml_other:
  "k' \<noteq> k \<Longrightarrow> map_of (cases (write_case_yaml s k c)) k' = map_of (cases s) k'"
  by (simp add: write_case_yaml_def update_conv')

text \<open>The case that \<open>closeCase\<close> writes, and the layer before the forgetting rule.\<close>

definition closed_case :: "Case \<Rightarrow> CloseOutcome \<Rightarrow> string \<Rightarrow> Case" where
  "closed_case c outcome now =
     c\<lparr>c_status := COMPLETED, c_completed_at := Some now,
       c_signals :=
         Some ((case c_signals c of None \<Rightarrow> empty_signals | Some sg \<Rightarrow> sg)
                \<lparr>sig_outcome :=
                   Some \<lparr>o_regressions = co_regressions outcome, o_rework_within_14d = None,
                         o_regret = String_of (co_regret outcome),
                         o_notes = co_notes outcome\<rparr>\<rparr>)\<rparr>"

definition closed_layer :: "Layer \<Rightarrow> string \<Rightarrow> Case \<Rightarrow> Layer" where
  "closed_layer s caseId u =
     (let s1 = write_case_yaml s caseId u
      in if activeCase s1 = Some caseId then setActiveCase s1 None else s1)"

lemma closeCase_unfold:
  assumes "getCase s caseId = Some c" "String_of (co_regret outcome) \<in> set Regret_values"
  shows "closeCase s caseId outcome now =
     (if String_of (co_regret outcome) = ''0'' \<and>
         list_all promoted (getPressureEvents s caseId)
      then Inr (forgetCase (closed_layer s caseId (closed_case c outcome now)) caseId,
                closed_case c outcome now, True)
      else Inr (closed_layer s caseId (closed_case c outcome now),
                closed_case c outcome now, False))"
proof -
  have p: "CaseSchema_parse (closed_case c outcome now) = Inr (closed_case c outcome now)"
    using assms(2) by (simp add: CaseSchema_parse_def closed_case_def)
  have u: "updateCase s caseId
             (\<lambda>x. x\<lparr>c_status := COMPLETED, c_completed_at := Some now,
                     c_signals :=
                       Some ((case c_signals c of None \<Rightarrow> empty_signals | Some sg \<Rightarrow> sg)
                              \<lparr>sig_outcome :=
                                 Some \<lparr>o_regressions = co_regressions outcome,
                                       o_rework_within_14d = None,
                                       o_regret = String_of (co_regret outcome),
                                       o_notes = co_notes outcome\<rparr>\<rparr>)\<rparr>) =
           Inr (write_case_yaml s caseId (closed_case c outcome now), closed_case c outcome now)"
    (is "updateCase s caseId ?upd = _")
  proof -
    have "?upd c = closed_case c outcome now"
      by (simp add: closed_case_def)
    with p assms(1) show ?thesis
      by (simp add: updateCase_def)
  qed
  have pe: "getPressureEvents (closed_layer s caseId (closed_case c outcome now)) caseId =
            getPressureEvents s caseId"
    by (simp add: closed_layer_def Let_def)
  have "(length (getPressureEvents s caseId) = 0 \<or> list_all promoted (getPressureEvents s caseId))
        = list_all promoted (getPressureEvents s caseId)"
    by auto
  with u pe assms(1) show ?thesis
    unfolding closeCase_def
    by (simp add: Let_def closed_layer_def)
qed

lemma closed_layer_getCase [simp]:
  "getCase (closed_layer s caseId u) caseId = Some u"
  by (simp add: closed_layer_def Let_def)

lemma closed_layer_pressures [simp]:
  "getPressureEvents (closed_layer s caseId u) k = getPressureEvents s k"
  by (simp add: closed_layer_def Let_def)

lemma closed_case_status [simp]: "c_status (closed_case c outcome now) = COMPLETED"
  by (simp add: closed_case_def)

lemma getCase_forgetCase [simp]: "getCase (forgetCase s k) k = None"
  by (simp add: getCase_def)

lemma getPressureEvents_forgetCase [simp]: "getPressureEvents (forgetCase s k) k = []"
  by (simp add: getPressureEvents_def)

text \<open>
  Claim C1. For a call of \<open>closeCase\<close> on an existing unit, with a regret that prints as
  \<open>0\<close>: when every pressure event of the unit is promoted (its promoted-to field holds
  a foundation id, that is, a non-empty string; no event at all counts), the call returns
  \<open>forgotten = true\<close> and the unit's directory, with its case and its pressure events,
  is gone; otherwise it returns \<open>forgotten = false\<close> and the unit is kept, COMPLETED,
  with its pressure events. With a regret that prints as \<open>1\<close>, \<open>2\<close> or \<open>3\<close> the
  unit is kept, COMPLETED, and \<open>forgotten = false\<close>, whatever its pressure events.
\<close>

theorem closeCase_auto_forget:
  assumes "getCase s caseId = Some c"
  shows
    "(String_of (co_regret outcome) = ''0'' \<and> list_all promoted (getPressureEvents s caseId) \<longrightarrow>
        (\<exists>s' u. closeCase s caseId outcome now = Inr (s', u, True) \<and>
                c_status u = COMPLETED \<and>
                map_of (cases s') caseId = None \<and> getCase s' caseId = None \<and>
                getPressureEvents s' caseId = [])) \<and>
     (String_of (co_regret outcome) = ''0'' \<and>
      \<not> list_all promoted (getPressureEvents s caseId) \<longrightarrow>
        (\<exists>s' u. closeCase s caseId outcome now = Inr (s', u, False) \<and>
                c_status u = COMPLETED \<and> getCase s' caseId = Some u \<and>
                getPressureEvents s' caseId = getPressureEvents s caseId)) \<and>
     (String_of (co_regret outcome) \<in> {''1'', ''2'', ''3''} \<longrightarrow>
        (\<exists>s' u. closeCase s caseId outcome now = Inr (s', u, False) \<and>
                c_status u = COMPLETED \<and> getCase s' caseId = Some u \<and>
                getPressureEvents s' caseId = getPressureEvents s caseId))"
proof (intro conjI impI)
  assume h: "String_of (co_regret outcome) = ''0'' \<and>
             list_all promoted (getPressureEvents s caseId)"
  then have "String_of (co_regret outcome) \<in> set Regret_values"
    by (simp add: Regret_values_def)
  from closeCase_unfold [OF assms this, of now] h
  have "closeCase s caseId outcome now =
        Inr (forgetCase (closed_layer s caseId (closed_case c outcome now)) caseId,
             closed_case c outcome now, True)"
    by simp
  then show "\<exists>s' u. closeCase s caseId outcome now = Inr (s', u, True) \<and>
                c_status u = COMPLETED \<and>
                map_of (cases s') caseId = None \<and> getCase s' caseId = None \<and>
                getPressureEvents s' caseId = []"
    by simp
next
  assume h: "String_of (co_regret outcome) = ''0'' \<and>
             \<not> list_all promoted (getPressureEvents s caseId)"
  then have "String_of (co_regret outcome) \<in> set Regret_values"
    by (simp add: Regret_values_def)
  from closeCase_unfold [OF assms this, of now] h
  have "closeCase s caseId outcome now =
        Inr (closed_layer s caseId (closed_case c outcome now),
             closed_case c outcome now, False)"
    by simp
  then show "\<exists>s' u. closeCase s caseId outcome now = Inr (s', u, False) \<and>
                c_status u = COMPLETED \<and> getCase s' caseId = Some u \<and>
                getPressureEvents s' caseId = getPressureEvents s caseId"
    by simp
next
  assume h: "String_of (co_regret outcome) \<in> {''1'', ''2'', ''3''}"
  then have v: "String_of (co_regret outcome) \<in> set Regret_values"
    by (auto simp: Regret_values_def)
  from h have "String_of (co_regret outcome) \<noteq> ''0''"
    by auto
  with closeCase_unfold [OF assms v, of now]
  have "closeCase s caseId outcome now =
        Inr (closed_layer s caseId (closed_case c outcome now),
             closed_case c outcome now, False)"
    by simp
  then show "\<exists>s' u. closeCase s caseId outcome now = Inr (s', u, False) \<and>
                c_status u = COMPLETED \<and> getCase s' caseId = Some u \<and>
                getPressureEvents s' caseId = getPressureEvents s caseId"
    by simp
qed

text \<open>
  The unit \<open>clean task\<close>, closed with regret 0 right after its creation, is forgotten and
  the active case is cleared.
\<close>

theorem closeCase_auto_forget_witness:
  "getCase ex_clean_layer ''0001-clean-task'' \<noteq> None \<and>
   String_of (co_regret (ex_outcome 0)) = ''0'' \<and>
   list_all promoted (getPressureEvents ex_clean_layer ''0001-clean-task'') \<and>
   (\<exists>s' u. closeCase ex_clean_layer ''0001-clean-task'' (ex_outcome 0) ''t2'' = Inr (s', u, True) \<and>
           getCase s' ''0001-clean-task'' = None \<and> activeCase s' = None)"
proof -
  let ?id = "''0001-clean-task''"
  have e: "getCase ex_clean_layer ?id \<noteq> None"
    by code_simp
  then obtain c where g: "getCase ex_clean_layer ?id = Some c"
    by auto
  have r: "String_of (co_regret (ex_outcome 0)) = ''0''"
    by code_simp
  have p: "list_all promoted (getPressureEvents ex_clean_layer ?id)"
    by code_simp
  from closeCase_auto_forget [OF g, of "ex_outcome 0" "''t2''"] r p
  obtain s' u where
    c: "closeCase ex_clean_layer ?id (ex_outcome 0) ''t2'' = Inr (s', u, True)" and
    n: "getCase s' ?id = None"
    by auto
  have "activeCase (fst (projr (closeCase ex_clean_layer ?id (ex_outcome 0) ''t2''))) = None"
    by code_simp
  with c have a: "activeCase s' = None"
    by simp
  have "\<exists>s' u. closeCase ex_clean_layer ?id (ex_outcome 0) ''t2'' = Inr (s', u, True) \<and>
           getCase s' ?id = None \<and> activeCase s' = None"
    by (intro exI [of _ s'] exI [of _ u] conjI c n a)
  then show ?thesis
    by (intro conjI e r p)
qed

text \<open>
  The unit \<open>Add tile caching\<close> with one pressure event that is not promoted is kept when
  closed with regret 0, and also when closed with regret 1.
\<close>

lemma closeCase_keeps_unpromoted:
  "map (\<lambda>r. case closeCase ex_lessons_layer ''0001-add-tile-caching'' (ex_outcome r) ''t3'' of
             Inl e \<Rightarrow> None
           | Inr (s', u, forgotten) \<Rightarrow>
               Some (forgotten, c_status u, map pe_id (getPressureEvents s' ''0001-add-tile-caching'')))
     [0, 1] =
   [Some (False, COMPLETED, [''PE-0001'']), Some (False, COMPLETED, [''PE-0001''])]"
  by code_simp

section \<open>Verification: unit identifiers\<close>

subsection \<open>Digits\<close>

lemma digit_value_digit_char: "d < 10 \<Longrightarrow> digit_value (digit_char d) = d"
proof -
  have "list_all (\<lambda>d. digit_value (digit_char d) = d) [0..<10]"
    by code_simp
  then show "d < 10 \<Longrightarrow> digit_value (digit_char d) = d"
    by (simp add: list_all_iff)
qed

lemma is_digit_digit_char: "d < 10 \<Longrightarrow> is_digit (digit_char d)"
proof -
  have "list_all (\<lambda>d. is_digit (digit_char d)) [0..<10]"
    by code_simp
  then show "d < 10 \<Longrightarrow> is_digit (digit_char d)"
    by (simp add: list_all_iff)
qed

lemma nat_digits_digits: "list_all is_digit (nat_digits n)"
proof (induction n rule: nat_digits.induct)
  case (1 n)
  show ?case
  proof (cases "n < 10")
    case True
    then show ?thesis
      by (subst nat_digits.simps) (simp add: is_digit_digit_char)
  next
    case False
    with 1 show ?thesis
      by (subst nat_digits.simps) (simp add: is_digit_digit_char)
  qed
qed

lemma nat_digits_nonempty: "nat_digits n \<noteq> []"
  by (subst nat_digits.simps) simp

lemma parseInt_digits_snoc:
  "parseInt_digits (ds @ [c]) = 10 * parseInt_digits ds + digit_value c"
  by (simp add: parseInt_digits_def)

lemma parseInt_nat_digits: "parseInt_digits (nat_digits n) = n"
proof (induction n rule: nat_digits.induct)
  case (1 n)
  show ?case
  proof (cases "n < 10")
    case True
    then show ?thesis
      by (subst nat_digits.simps) (simp add: parseInt_digits_def digit_value_digit_char)
  next
    case False
    with 1 have "parseInt_digits (nat_digits (n div 10)) = n div 10"
      by simp
    with False show ?thesis
      by (subst nat_digits.simps) (simp add: parseInt_digits_snoc digit_value_digit_char)
  qed
qed

lemma parseInt_leading_zeros:
  "parseInt_digits (replicate k (CHR ''0'') @ ds) = parseInt_digits ds"
proof -
  have z: "digit_value (CHR ''0'') = 0"
    by (simp add: digit_value_def digit_chars_def)
  show ?thesis
    by (induction k) (simp_all add: parseInt_digits_def z)
qed

lemma padStart4_digits: "list_all is_digit (padStart4 (nat_digits n))"
proof -
  have "is_digit (CHR ''0'')"
    by (simp add: is_digit_def digit_chars_def)
  with nat_digits_digits [of n] show ?thesis
    by (auto simp: padStart4_def list_all_iff)
qed

lemma parseInt_padStart4: "parseInt_digits (padStart4 (nat_digits n)) = n"
  by (simp add: padStart4_def parseInt_leading_zeros parseInt_nat_digits)

lemma nat_digits_length: "0 < k \<Longrightarrow> n < 10 ^ k \<Longrightarrow> length (nat_digits n) \<le> k"
proof (induction k arbitrary: n)
  case 0
  then show ?case by simp
next
  case (Suc k)
  show ?case
  proof (cases "n < 10")
    case True
    then show ?thesis
      by (subst nat_digits.simps) simp
  next
    case False
    with Suc.prems have k: "0 < k"
      by (cases k) auto
    from Suc.prems have "n div 10 < 10 ^ k"
      by (simp add: less_mult_imp_div_less mult.commute)
    from Suc.IH [OF k this] False show ?thesis
      by (subst nat_digits.simps) simp
  qed
qed

lemma padStart4_length: "n \<le> 9999 \<Longrightarrow> length (padStart4 (nat_digits n)) = 4"
proof -
  assume "n \<le> 9999"
  then have "n < 10 ^ 4" by simp
  then have "length (nat_digits n) \<le> 4"
    by (intro nat_digits_length) simp_all
  then show ?thesis
    by (simp add: padStart4_def)
qed

lemma hyphen_not_digit: "\<not> is_digit (CHR ''-'')"
  by (simp add: is_digit_def digit_chars_def)

lemma hyphen_not_alnum: "\<not> is_lower_alnum (CHR ''-'')"
  by (simp add: is_lower_alnum_def digit_chars_def lower_letters_def)

lemma match_leading_number_id:
  "match_leading_number (padStart4 (nat_digits n) @ CHR ''-'' # rest) = Some n"
proof -
  let ?ds = "padStart4 (nat_digits n)"
  have "takeWhile is_digit (?ds @ CHR ''-'' # rest) = ?ds"
    using padStart4_digits [of n] hyphen_not_digit
    by (simp add: takeWhile_append2 list_all_iff takeWhile_tail)
  moreover have "?ds \<noteq> []"
    by (simp add: padStart4_def nat_digits_nonempty)
  ultimately show ?thesis
    by (simp add: match_leading_number_def parseInt_padStart4)
qed

subsection \<open>Slugs\<close>

lemma collapse_chars:
  "list_all (\<lambda>c. is_lower_alnum c \<or> c = CHR ''-'') (collapse_non_alnum s)"
  by (induction s rule: collapse_non_alnum.induct) simp_all

lemma collapse_alnum:
  "(\<exists>c \<in> set (collapse_non_alnum s). is_lower_alnum c) = (\<exists>c \<in> set s. is_lower_alnum c)"
proof (induction s rule: collapse_non_alnum.induct)
  case 1
  then show ?case by simp
next
  case (2 c cs)
  show ?case
  proof (cases "is_lower_alnum c")
    case True
    then show ?thesis by auto
  next
    case False
    have "(\<exists>x \<in> set (dropWhile (\<lambda>d. \<not> is_lower_alnum d) cs). is_lower_alnum x) =
          (\<exists>x \<in> set cs. is_lower_alnum x)"
      by (induction cs) auto
    with 2 False show ?thesis
      using hyphen_not_alnum by auto
  qed
qed

lemma all_dropWhile: "(\<forall>x \<in> set (dropWhile P xs). P x) = (\<forall>x \<in> set xs. P x)"
  by (induction xs) auto

lemma trim_hyphens_subset: "set (trim_hyphens s) \<subseteq> set s"
proof -
  let ?P = "\<lambda>c. c = CHR ''-''"
  have "set (dropWhile ?P (rev (dropWhile ?P s))) \<subseteq> set (rev (dropWhile ?P s))"
    by (rule subsetI) (rule set_dropWhileD)
  also have "\<dots> \<subseteq> set s"
    using set_dropWhileD [of _ ?P s] by auto
  finally show ?thesis
    by (simp add: trim_hyphens_def)
qed

lemma trim_hyphens_empty: "(trim_hyphens s = []) = (\<forall>c \<in> set s. c = CHR ''-'')"
proof -
  let ?P = "\<lambda>c. c = CHR ''-''"
  have "(trim_hyphens s = []) = (\<forall>x \<in> set (rev (dropWhile ?P s)). ?P x)"
    by (simp add: trim_hyphens_def dropWhile_eq_Nil_conv)
  also have "\<dots> = (\<forall>x \<in> set (dropWhile ?P s). ?P x)"
    by simp
  also have "\<dots> = (\<forall>x \<in> set s. ?P x)"
    by (rule all_dropWhile)
  finally show ?thesis .
qed

lemma slugify_chars: "list_all (\<lambda>c. is_lower_alnum c \<or> c = CHR ''-'') (slugify js t)"
proof -
  have "set (slugify js t) \<subseteq> set (collapse_non_alnum (toLowerCase js t))"
    using trim_hyphens_subset [of "collapse_non_alnum (toLowerCase js t)"]
    by (auto simp: slugify_def dest: in_set_takeD)
  with collapse_chars [of "toLowerCase js t"] show ?thesis
    by (auto simp: list_all_iff)
qed

lemma slugify_length: "length (slugify js t) \<le> 50"
  by (simp add: slugify_def)

lemma ex_other_than:
  "\<forall>c \<in> A. Q c \<or> c = h \<Longrightarrow> \<not> Q h \<Longrightarrow> (\<exists>c \<in> A. c \<noteq> h) = (\<exists>c \<in> A. Q c)"
  by auto

lemma slugify_nonempty:
  "(slugify js t \<noteq> []) = (\<exists>c \<in> set (toLowerCase js t). is_lower_alnum c)"
proof -
  let ?x = "collapse_non_alnum (toLowerCase js t)"
  have "(slugify js t \<noteq> []) = (trim_hyphens ?x \<noteq> [])"
    by (simp add: slugify_def)
  also have "\<dots> = (\<exists>c \<in> set ?x. c \<noteq> CHR ''-'')"
    by (simp only: trim_hyphens_empty) blast
  also have "\<dots> = (\<exists>c \<in> set ?x. is_lower_alnum c)"
  proof -
    have "\<forall>c \<in> set ?x. is_lower_alnum c \<or> c = CHR ''-''"
      using collapse_chars [of "toLowerCase js t"] by (simp only: list_all_iff)
    then show ?thesis
      using hyphen_not_alnum by (rule ex_other_than)
  qed
  also have "\<dots> = (\<exists>c \<in> set (toLowerCase js t). is_lower_alnum c)"
    by (rule collapse_alnum)
  finally show ?thesis .
qed

lemma matches_unit_id_created:
  assumes "n \<le> 9999" "slugify js t \<noteq> []"
  shows "matches_unit_id (padStart4 (nat_digits n) @ ''-'' @ slugify js t)"
proof -
  let ?ds = "padStart4 (nat_digits n)"
  have l: "length ?ds = 4"
    using assms(1) by (rule padStart4_length)
  from assms(2) have "length (slugify js t) \<ge> 1"
    by (cases "slugify js t") simp_all
  with l have "length (?ds @ ''-'' @ slugify js t) \<ge> 6"
    by simp
  moreover from l have "take 4 (?ds @ ''-'' @ slugify js t) = ?ds"
    by simp
  moreover from l have "(?ds @ ''-'' @ slugify js t) ! 4 = CHR ''-''"
    by (simp add: nth_append)
  moreover from l have "drop 5 (?ds @ ''-'' @ slugify js t) = slugify js t"
    by simp
  ultimately show ?thesis
    using padStart4_digits [of n] slugify_chars [of js t]
    by (simp add: matches_unit_id_def)
qed

subsection \<open>The counter of one store instance\<close>

lemma nextCaseId_write_case_yaml [simp]:
  "nextCaseId (write_case_yaml s k c) = nextCaseId s"
  by (simp add: write_case_yaml_def)

lemma nextCaseId_write_pressures_yaml [simp]:
  "nextCaseId (write_pressures_yaml s k es) = nextCaseId s"
  by (simp add: write_pressures_yaml_def)

lemma nextCaseId_setActiveCase [simp]: "nextCaseId (setActiveCase s a) = nextCaseId s"
  by (simp add: setActiveCase_def persistActiveCase_def)

lemma nextCaseId_forgetCase [simp]: "nextCaseId (forgetCase s k) = nextCaseId s"
  by (simp add: forgetCase_def)

lemma createCase_next: "nextCaseId (fst (createCase js s input now)) = js_succ (nextCaseId s)"
  by (simp add: createCase_def Let_def split: sum.splits)

lemma createCase_id:
  "snd (createCase js s input now) = Inr c \<Longrightarrow>
   c_id c = padStart4 (nat_digits (nextCaseId s)) @ ''-'' @ slugify js (cc_title input)"
  by (auto simp: createCase_def Let_def CaseSchema_parse_def split: sum.splits option.splits if_splits)

lemma createCase_succeeds:
  "(\<exists>c. snd (createCase js s input now) = Inr c) =
   (\<forall>sg oc. cc_signals input = Some sg \<and> sig_outcome sg = Some oc \<longrightarrow>
      o_regret oc \<in> set Regret_values)"
  by (auto simp: createCase_def Let_def CaseSchema_parse_def split: sum.splits option.splits if_splits)

lemma updateCase_next:
  "updateCase s k upd = Inr (s', u) \<Longrightarrow> nextCaseId s' = nextCaseId s"
  by (auto simp: updateCase_def split: option.splits sum.splits)

lemma closeCase_next:
  assumes "closeCase s k outcome now = Inr (s', u, forgotten)"
  shows "nextCaseId s' = nextCaseId s"
proof -
  from assms obtain s1 u1 upd where u: "updateCase s k upd = Inr (s1, u1)"
    and s': "s' = s1 \<or> s' = setActiveCase s1 None \<or> s' = forgetCase s1 k \<or>
             s' = forgetCase (setActiveCase s1 None) k"
    unfolding closeCase_def Let_def
    by (auto split: sum.splits if_splits prod.splits)
  from updateCase_next [OF u] s' show ?thesis
    by auto
qed

lemma logPressure_next: "nextCaseId (fst (logPressure s input now)) = nextCaseId s"
proof -
  have "\<And>s2 k upd s3 x. updateCase s2 k upd = Inr (s3, x) \<Longrightarrow> nextCaseId s3 = nextCaseId s2"
    by (rule updateCase_next)
  then show ?thesis
    unfolding logPressure_def Let_def
    by (auto split: sum.splits option.splits prod.splits)
qed

lemma markPressurePromoted_loop_next:
  "nextCaseId (markPressurePromoted_loop s p f cs) = nextCaseId s"
  by (induction cs) (auto simp: Let_def split: option.splits)

lemma markPressurePromoted_next [simp]:
  "nextCaseId (markPressurePromoted s p f) = nextCaseId s"
  by (simp add: markPressurePromoted_def markPressurePromoted_loop_next)

lemma foldl_mark_next:
  "nextCaseId (foldl (\<lambda>st peId. markPressurePromoted st peId f) s ps) = nextCaseId s"
  by (induction ps arbitrary: s) simp_all

lemma promoteToFoundation_next:
  "nextCaseId (fst (promoteToFoundation s input now)) = nextCaseId s"
  by (simp add: promoteToFoundation_def Let_def foldl_mark_next)

lemma case_seq_created:
  "snd (createCase js s input now) = Inr c \<Longrightarrow> case_seq c = nextCaseId s"
  by (simp add: case_seq_def createCase_id match_leading_number_id)

lemma apply_op_cases:
  assumes "apply_op js s op = (s1, cs)"
  shows "(cs = [] \<and> (nextCaseId s1 = nextCaseId s \<or> nextCaseId s1 = js_succ (nextCaseId s))) \<or>
         (\<exists>c. cs = [c] \<and> case_seq c = nextCaseId s \<and> nextCaseId s1 = js_succ (nextCaseId s))"
proof (cases op)
  case (OpCreateCase input now)
  obtain s' r where cr: "createCase js s input now = (s', r)"
    by (cases "createCase js s input now")
  with createCase_next [of js s input now] have n: "nextCaseId s' = js_succ (nextCaseId s)"
    by simp
  show ?thesis
  proof (cases r)
    case (Inl e)
    with assms OpCreateCase cr n show ?thesis by auto
  next
    case (Inr c)
    with cr have "snd (createCase js s input now) = Inr c" by simp
    from case_seq_created [OF this] assms OpCreateCase cr Inr n show ?thesis by auto
  qed
next
  case (OpCloseCase k outcome now)
  with assms show ?thesis
    by (auto split: sum.splits dest: closeCase_next)
next
  case (OpLogPressure input now)
  with assms logPressure_next [of s input now] show ?thesis by auto
next
  case (OpPromoteToFoundation input now)
  with assms promoteToFoundation_next [of s input now] show ?thesis by auto
next
  case (OpSetActiveCase k)
  with assms show ?thesis by auto
qed

lemma js_succ_below: "n < max_counter \<Longrightarrow> js_succ n = n + 1"
  by (simp add: js_succ_def)

lemma js_succ_stall: "js_succ max_counter = max_counter"
  by (simp add: js_succ_def)

lemma run_ops_seq:
  "run_ops js s ops = (s', cs) \<Longrightarrow> nextCaseId s + length ops \<le> max_counter \<Longrightarrow>
   nextCaseId s \<le> nextCaseId s' \<and> nextCaseId s' \<le> nextCaseId s + length ops \<and>
   sorted_wrt (<) (map case_seq cs) \<and>
   (\<forall>c \<in> set cs. nextCaseId s \<le> case_seq c \<and> case_seq c < nextCaseId s')"
proof (induction ops arbitrary: s s' cs)
  case Nil
  then show ?case by simp
next
  case (Cons op ops)
  obtain s1 cs1 where a: "apply_op js s op = (s1, cs1)"
    by (cases "apply_op js s op")
  obtain s2 cs2 where r: "run_ops js s1 ops = (s2, cs2)"
    by (cases "run_ops js s1 ops")
  from Cons.prems a r have e: "s' = s2" "cs = cs1 @ cs2"
    by simp_all
  from Cons.prems have lt: "nextCaseId s < max_counter"
    by simp
  then have sc: "js_succ (nextCaseId s) = nextCaseId s + 1"
    by (rule js_succ_below)
  from apply_op_cases [OF a] sc
  have s1: "nextCaseId s \<le> nextCaseId s1" "nextCaseId s1 \<le> nextCaseId s + 1"
    by auto
  with Cons.prems have "nextCaseId s1 + length ops \<le> max_counter"
    by simp
  from Cons.IH [OF r this] have ih:
    "nextCaseId s1 \<le> nextCaseId s2" "nextCaseId s2 \<le> nextCaseId s1 + length ops"
    "sorted_wrt (<) (map case_seq cs2)"
    "\<forall>c \<in> set cs2. nextCaseId s1 \<le> case_seq c \<and> case_seq c < nextCaseId s2"
    by simp_all
  from apply_op_cases [OF a] show ?case
  proof
    assume "cs1 = [] \<and> (nextCaseId s1 = nextCaseId s \<or> nextCaseId s1 = js_succ (nextCaseId s))"
    with ih e s1 show ?thesis by auto
  next
    assume "\<exists>c. cs1 = [c] \<and> case_seq c = nextCaseId s \<and> nextCaseId s1 = js_succ (nextCaseId s)"
    then obtain c where c: "cs1 = [c]" "case_seq c = nextCaseId s"
      "nextCaseId s1 = nextCaseId s + 1" using sc by auto
    with ih e show ?thesis by (auto simp: less_Suc_eq_le)
  qed
qed

lemma distinct_ids_of_seq:
  assumes "sorted_wrt (<) (map case_seq cs)"
  shows "distinct (map c_id cs)"
proof -
  from assms have "distinct (map case_seq cs)"
    by (simp add: strict_sorted_iff)
  moreover have "map case_seq cs =
      map (\<lambda>i. case match_leading_number i of None \<Rightarrow> 0 | Some n \<Rightarrow> n) (map c_id cs)"
    by (simp add: case_seq_def)
  ultimately show ?thesis
    by (metis distinct_map)
qed

subsection \<open>Seeding the counter\<close>

lemma foldl_bump_bound:
  "n0 \<le> foldl (\<lambda>n c. bump n (g c)) n0 cs \<and>
   (\<forall>c \<in> set cs. \<forall>m. g c = Some m \<and> m < max_counter \<longrightarrow>
      m < foldl (\<lambda>n c. bump n (g c)) n0 cs)"
proof (induction cs arbitrary: n0)
  case Nil
  then show ?case by simp
next
  case (Cons c cs)
  have b: "n0 \<le> bump n0 (g c)"
    "\<forall>m. g c = Some m \<and> m < max_counter \<longrightarrow> m < bump n0 (g c)"
    by (auto simp: bump_def js_succ_def split: option.splits)
  from Cons [of "bump n0 (g c)"] b show ?case
    by (auto intro: le_trans less_le_trans)
qed

lemma listCases_cong: "cases s = cases s' \<Longrightarrow> listCases s = listCases s'"
  by (simp add: listCases_def)

lemma initialize_counter:
  "\<forall>c \<in> set (listCases d). \<forall>m. match_leading_number (c_id c) = Some m \<and> m < max_counter \<longrightarrow>
     m < nextCaseId (initialize js (newStorage d))"
proof -
  let ?s = "restoreActiveCase js
      (if config_yaml (newStorage d) = None
       then (newStorage d)\<lparr>config_yaml :=
              Some \<lparr>project = ''unnamed-project'', version = 1, scope = PROJECT\<rparr>\<rparr>
       else newStorage d)"
  have c: "cases ?s = cases d"
    by (simp add: restoreActiveCase_def newStorage_def Let_def split: option.splits)
  have l: "listCases ?s = listCases d"
    by (rule listCases_cong [OF c])
  have "nextCaseId (initialize js (newStorage d)) =
        foldl (\<lambda>n c. bump n (match_leading_number (c_id c))) (nextCaseId ?s) (listCases d)"
    by (simp add: initialize_def initializeCounters_def Let_def l)
  with foldl_bump_bound [of "nextCaseId ?s" "\<lambda>c. match_leading_number (c_id c)" "listCases d"]
  show ?thesis by simp
qed
subsection \<open>The identifier of a created unit\<close>

lemma slugify_empty:
  "(slugify js t = []) = (\<forall>x \<in> set (toLowerCase js t). \<not> is_lower_alnum x)"
  using slugify_nonempty [of js t] by blast

text \<open>
  Claim C2, amended. \<open>createCase\<close> advances the instance's counter by one, as long as
  the counter is below \<open>2^53\<close>, where it stops advancing, and, unless the signals it is
  given fail the schema, returns a unit whose identifier is the counter, zero-padded to at
  least four digits, a hyphen, and the slug of the title. The slug consists of the
  characters \<open>a\<close> to \<open>z\<close>, \<open>0\<close> to \<open>9\<close> and hyphens and has at most 50 characters;
  it is empty exactly when the lower-cased title has none of the characters \<open>a\<close> to
  \<open>z\<close> and \<open>0\<close> to \<open>9\<close>. The identifier matches \<open>^\d{4}-[a-z0-9-]+$\<close> when the
  counter is at most 9999 and the lower-cased title has such a character. Over a run of
  operations of one store instance that does not take the counter to \<open>2^53\<close>, the
  sequence numbers of the units created strictly increase, so their identifiers are
  distinct, and they lie between the counter the run starts with and the one it ends
  with; a new instance seeds its counter above the number, when below \<open>2^53\<close>, of every
  unit it lists at initialization.
\<close>

theorem createCase_identifier:
  "nextCaseId (fst (createCase js s input now)) = js_succ (nextCaseId s) \<and>
   (nextCaseId s < max_counter \<longrightarrow>
      nextCaseId (fst (createCase js s input now)) = nextCaseId s + 1) \<and>
   (nextCaseId s = max_counter \<longrightarrow>
      nextCaseId (fst (createCase js s input now)) = nextCaseId s) \<and>
   ((\<exists>c. snd (createCase js s input now) = Inr c) =
    (\<forall>sg oc. cc_signals input = Some sg \<and> sig_outcome sg = Some oc \<longrightarrow>
       o_regret oc \<in> set Regret_values)) \<and>
   ((slugify js (cc_title input) = []) =
    (\<forall>x \<in> set (toLowerCase js (cc_title input)). \<not> is_lower_alnum x)) \<and>
   list_all (\<lambda>x. is_lower_alnum x \<or> x = CHR ''-'') (slugify js (cc_title input)) \<and>
   length (slugify js (cc_title input)) \<le> 50 \<and>
   (\<forall>c. snd (createCase js s input now) = Inr c \<and> nextCaseId s \<le> max_counter \<longrightarrow>
      c_id c = padStart4 (nat_digits (nextCaseId s)) @ ''-'' @ slugify js (cc_title input) \<and>
      case_seq c = nextCaseId s \<and>
      list_all is_digit (padStart4 (nat_digits (nextCaseId s))) \<and>
      4 \<le> length (padStart4 (nat_digits (nextCaseId s))) \<and>
      (nextCaseId s \<le> 9999 \<longrightarrow> length (padStart4 (nat_digits (nextCaseId s))) = 4) \<and>
      (nextCaseId s \<le> 9999 \<and>
       (\<exists>x \<in> set (toLowerCase js (cc_title input)). is_lower_alnum x) \<longrightarrow>
         matches_unit_id (c_id c))) \<and>
   (\<forall>s' cs. run_ops js s ops = (s', cs) \<and> nextCaseId s + length ops \<le> max_counter \<longrightarrow>
      sorted_wrt (<) (map case_seq cs) \<and> distinct (map c_id cs) \<and>
      (\<forall>c \<in> set cs. nextCaseId s \<le> case_seq c \<and> case_seq c < nextCaseId s')) \<and>
   (\<forall>c \<in> set (listCases d).
      \<forall>m. match_leading_number (c_id c) = Some m \<and> m < max_counter \<longrightarrow>
        m < nextCaseId (initialize js (newStorage d)))"
proof (intro conjI allI impI)
  show "nextCaseId (fst (createCase js s input now)) = js_succ (nextCaseId s)"
    by (rule createCase_next)
  show "nextCaseId (fst (createCase js s input now)) = nextCaseId s + 1"
    if "nextCaseId s < max_counter"
    using that by (simp add: createCase_next js_succ_below)
  show "nextCaseId (fst (createCase js s input now)) = nextCaseId s"
    if "nextCaseId s = max_counter"
    using that by (simp add: createCase_next js_succ_stall)
  show "(\<exists>c. snd (createCase js s input now) = Inr c) =
    (\<forall>sg oc. cc_signals input = Some sg \<and> sig_outcome sg = Some oc \<longrightarrow>
       o_regret oc \<in> set Regret_values)"
    by (rule createCase_succeeds)
  show "(slugify js (cc_title input) = []) =
    (\<forall>x \<in> set (toLowerCase js (cc_title input)). \<not> is_lower_alnum x)"
    by (rule slugify_empty)
  show "list_all (\<lambda>x. is_lower_alnum x \<or> x = CHR ''-'') (slugify js (cc_title input))"
    by (rule slugify_chars)
  show "length (slugify js (cc_title input)) \<le> 50"
    by (rule slugify_length)
  show "\<forall>c \<in> set (listCases d).
      \<forall>m. match_leading_number (c_id c) = Some m \<and> m < max_counter \<longrightarrow>
        m < nextCaseId (initialize js (newStorage d))"
    by (rule initialize_counter)
next
  fix c
  assume "snd (createCase js s input now) = Inr c \<and> nextCaseId s \<le> max_counter"
  then have c: "snd (createCase js s input now) = Inr c"
    by simp
  show i: "c_id c = padStart4 (nat_digits (nextCaseId s)) @ ''-'' @ slugify js (cc_title input)"
    using c by (rule createCase_id)
  show "case_seq c = nextCaseId s"
    using c by (rule case_seq_created)
  show "list_all is_digit (padStart4 (nat_digits (nextCaseId s)))"
    by (rule padStart4_digits)
  show "4 \<le> length (padStart4 (nat_digits (nextCaseId s)))"
    by (simp add: padStart4_def)
  show "length (padStart4 (nat_digits (nextCaseId s))) = 4" if "nextCaseId s \<le> 9999"
    using that by (rule padStart4_length)
  show "matches_unit_id (c_id c)"
    if "nextCaseId s \<le> 9999 \<and>
        (\<exists>x \<in> set (toLowerCase js (cc_title input)). is_lower_alnum x)"
  proof -
    from that have "slugify js (cc_title input) \<noteq> []"
      by (simp add: slugify_nonempty)
    with that show ?thesis
      unfolding i by (intro matches_unit_id_created) simp_all
  qed
next
  fix s' cs
  assume "run_ops js s ops = (s', cs) \<and> nextCaseId s + length ops \<le> max_counter"
  then have r: "run_ops js s ops = (s', cs)" and b: "nextCaseId s + length ops \<le> max_counter"
    by simp_all
  from run_ops_seq [OF r b] show "sorted_wrt (<) (map case_seq cs)"
    by simp
  then show "distinct (map c_id cs)"
    by (rule distinct_ids_of_seq)
  from run_ops_seq [OF r b]
  show "\<forall>c \<in> set cs. nextCaseId s \<le> case_seq c \<and> case_seq c < nextCaseId s'"
    by simp
qed

text \<open>
  The scenario of the spec: \<open>Add tile caching\<close> gets the identifier
  \<open>0001-add-tile-caching\<close>. In the run, the first unit is forgotten when it is closed
  and the next unit is numbered 2 all the same.
\<close>

theorem createCase_identifier_witness:
  "nextCaseId (ex_empty_layer ''/w/app/.decision-os'' ''app'') \<le> 9999 \<and>
   nextCaseId (ex_empty_layer ''/w/app/.decision-os'' ''app'') + length ex_ops \<le> max_counter \<and>
   (\<exists>x \<in> set (toLowerCase ascii_text (cc_title (ex_create_input ''Add tile caching''))).
      is_lower_alnum x) \<and>
   map_sum id c_id
     (snd (createCase ascii_text (ex_empty_layer ''/w/app/.decision-os'' ''app'')
             (ex_create_input ''Add tile caching'') ''t1'')) = Inr ''0001-add-tile-caching'' \<and>
   matches_unit_id ''0001-add-tile-caching'' \<and>
   nextCaseId (fst (createCase ascii_text (ex_empty_layer ''/w/app/.decision-os'' ''app'')
             (ex_create_input ''Add tile caching'') ''t1'')) = 2 \<and>
   (map c_id (snd (run_ops ascii_text (ex_empty_layer ''/w/app/.decision-os'' ''app'') ex_ops)),
    map fst (cases (fst (run_ops ascii_text (ex_empty_layer ''/w/app/.decision-os'' ''app'') ex_ops)))) =
     ([''0001-clean-task'', ''0002-third-task''], [''0002-third-task''])"
proof -
  let ?s = "ex_empty_layer ''/w/app/.decision-os'' ''app''"
  let ?input = "ex_create_input ''Add tile caching''"
  note spec = createCase_identifier [of ascii_text ?s ?input "''t1''"]
  have h1: "nextCaseId ?s \<le> 9999"
    by code_simp
  have h1': "nextCaseId ?s \<le> max_counter" "nextCaseId ?s < max_counter"
    by code_simp+
  have h2: "\<exists>x \<in> set (toLowerCase ascii_text (cc_title ?input)). is_lower_alnum x"
    by code_simp
  have h3: "nextCaseId ?s + length ex_ops \<le> max_counter"
    by code_simp
  have e: "map_sum id c_id (snd (createCase ascii_text ?s ?input ''t1'')) =
      Inr ''0001-add-tile-caching''"
    by code_simp
  then obtain c where c: "snd (createCase ascii_text ?s ?input ''t1'') = Inr c"
    and i: "c_id c = ''0001-add-tile-caching''"
    by (cases "snd (createCase ascii_text ?s ?input ''t1'')") auto
  from spec c h1 h1' h2
  have "matches_unit_id (c_id c)"
    by blast
  with i have m: "matches_unit_id ''0001-add-tile-caching''"
    by simp
  from spec h1' have "nextCaseId (fst (createCase ascii_text ?s ?input ''t1'')) = nextCaseId ?s + 1"
    by blast
  then have n: "nextCaseId (fst (createCase ascii_text ?s ?input ''t1'')) = 2"
    by (simp add: ex_empty_layer_def)
  have r: "(map c_id (snd (run_ops ascii_text ?s ex_ops)),
            map fst (cases (fst (run_ops ascii_text ?s ex_ops)))) =
     ([''0001-clean-task'', ''0002-third-task''], [''0002-third-task''])"
    by code_simp
  show ?thesis
    by (intro conjI h1 h2 h3 e m n r)
qed

text \<open>
  The claim as stated fails: the title \<open>!!!\<close> is not empty, and the unit created for it
  on a fresh layer has the identifier \<open>0001-\<close>, whose slug is empty, so it does not
  match the pattern.
\<close>

theorem createCase_identifier_counterexample:
  "cc_title (ex_create_input ''!!!'') \<noteq> [] \<and>
   map_sum id c_id
     (snd (createCase ascii_text (ex_empty_layer ''/w/app/.decision-os'' ''app'')
             (ex_create_input ''!!!'') ''t1'')) = Inr ''0001-'' \<and>
   \<not> matches_unit_id ''0001-''"
  by code_simp

text \<open>
  Three more inputs on which the claim as stated fails. At counter 10000 the identifier
  has five digits. A sequence number is used again by a new instance: the only unit is
  forgotten, the store is opened again, and the next unit is numbered 1 like the first.
  And at \<open>2^53\<close> the counter no longer advances: two units created there with the same
  title get the same identifier.
\<close>

lemma createCase_five_digits:
  "map_sum id c_id
     (snd (createCase ascii_text
             ((ex_empty_layer ''/w/app/.decision-os'' ''app'')\<lparr>nextCaseId := 10000\<rparr>)
             (ex_create_input ''wide'') ''t1'')) = Inr ''10000-wide'' \<and>
   \<not> matches_unit_id ''10000-wide''"
  by code_simp

lemma createCase_number_reused_after_restart:
  "(case closeCase ex_clean_layer ''0001-clean-task'' (ex_outcome 0) ''t2'' of
      Inl e \<Rightarrow> None
    | Inr (s', u, forgotten) \<Rightarrow>
        Some (c_id u, forgotten,
              map_sum id c_id
                (snd (createCase ascii_text (initialize ascii_text (newStorage s'))
                        (ex_create_input ''other task'') ''t3'')))) =
   Some (''0001-clean-task'', True, Inr ''0001-other-task'')"
  by code_simp

lemma createCase_counter_stalls:
  "map c_id
     (snd (run_ops ascii_text
             ((ex_empty_layer ''/w/app/.decision-os'' ''app'')\<lparr>nextCaseId := max_counter\<rparr>)
             [OpCreateCase (ex_create_input ''late'') ''t1'',
              OpCreateCase (ex_create_input ''late'') ''t2''])) =
     [''9007199254740992-late'', ''9007199254740992-late'']"
  by code_simp

section \<open>Verification: removing and elevating foundations\<close>

lemma findIndex_None: "(findIndex P xs = None) = (\<forall>x \<in> set xs. \<not> P x)"
  by (induction xs) auto

lemma findIndex_Some:
  "findIndex P xs = Some i \<Longrightarrow> i < length xs \<and> P (xs ! i) \<and> (\<forall>j < i. \<not> P (xs ! j))"
proof (induction xs arbitrary: i)
  case Nil
  then show ?case by simp
next
  case (Cons x xs)
  show ?case
  proof (cases "P x")
    case True
    with Cons.prems show ?thesis by simp
  next
    case False
    with Cons.prems obtain k where k: "findIndex P xs = Some k" "i = Suc k"
      by auto
    from Cons.IH [OF k(1)] False k(2) show ?thesis
      by (auto simp: less_Suc_eq_0_disj)
  qed
qed

lemma find_findIndex:
  "find P xs = Some x \<Longrightarrow> \<exists>i. findIndex P xs = Some i \<and> xs ! i = x"
  by (induction xs) (auto split: if_splits)

lemma getFoundations_None: "getFoundations s None = (case foundations_yaml s of None \<Rightarrow> [] | Some fs \<Rightarrow> fs)"
  by (simp add: getFoundations_def split: option.splits)

text \<open>
  Claim C8, against the model of \<open>removeFoundation\<close> written from the spec. For every
  layer and every id the operation returns, never an error; the boolean tells whether the
  collection held an entry with the id; when it did not, or when there is no collection
  file, the layer is unchanged; when it did, the first entry with the id is gone and the
  other entries are kept in their order.
\<close>

theorem removeFoundation_total:
  "\<exists>s' b. removeFoundation s foundationId = Inr (s', b) \<and>
      b = (\<exists>f \<in> set (getFoundations s None). f_id f = foundationId) \<and>
      (foundations_yaml s = None \<longrightarrow> \<not> b) \<and>
      (\<not> b \<longrightarrow> s' = s) \<and>
      (b \<longrightarrow>
         (\<exists>i < length (getFoundations s None).
            f_id (getFoundations s None ! i) = foundationId \<and>
            (\<forall>j < i. f_id (getFoundations s None ! j) \<noteq> foundationId) \<and>
            getFoundations s' None =
              take i (getFoundations s None) @ drop (Suc i) (getFoundations s None) \<and>
            s' = s\<lparr>foundations_yaml := Some (getFoundations s' None)\<rparr>))"
proof (cases "foundations_yaml s")
  case None
  then show ?thesis
    by (intro exI [of _ s] exI [of _ False]) (simp add: removeFoundation_def getFoundations_None)
next
  case (Some fs)
  show ?thesis
  proof (cases "findIndex (\<lambda>f. f_id f = foundationId) fs")
    case None
    with Some have "removeFoundation s foundationId = Inr (s, False)"
      by (simp add: removeFoundation_def)
    moreover from None have "\<not> (\<exists>f \<in> set fs. f_id f = foundationId)"
      by (simp add: findIndex_None)
    ultimately show ?thesis
      using Some by (intro exI [of _ s] exI [of _ False]) (simp add: getFoundations_None)
  next
    case Some': (Some i)
    let ?s' = "s\<lparr>foundations_yaml := Some (take i fs @ drop (Suc i) fs)\<rparr>"
    from findIndex_Some [OF Some'] have i: "i < length fs" "f_id (fs ! i) = foundationId"
      "\<forall>j < i. f_id (fs ! j) \<noteq> foundationId"
      by simp_all
    from Some Some' have r: "removeFoundation s foundationId = Inr (?s', True)"
      by (simp add: removeFoundation_def)
    from i have ex: "\<exists>f \<in> set fs. f_id f = foundationId"
      using nth_mem by blast
    have g': "getFoundations ?s' None = take i fs @ drop (Suc i) fs"
      by (simp add: getFoundations_None)
    have "\<exists>k < length fs. f_id (fs ! k) = foundationId \<and>
            (\<forall>j < k. f_id (fs ! j) \<noteq> foundationId) \<and>
            getFoundations ?s' None = take k fs @ drop (Suc k) fs \<and>
            ?s' = s\<lparr>foundations_yaml := Some (getFoundations ?s' None)\<rparr>"
      using i g' by (intro exI [of _ i]) simp
    with r ex Some show ?thesis
      by (intro exI [of _ ?s'] exI [of _ True]) (simp add: getFoundations_None)
  qed
qed

text \<open>
  The three cases of the repository's tests: an id of the collection, an id that is not in
  it, and a layer without a collection file.
\<close>

theorem removeFoundation_total_witness:
  "map_sum id (\<lambda>(s', b). (b, map f_id (getFoundations s' None)))
     (removeFoundation ex_project_layer ''F-0002'') = Inr (True, [''F-0001'', ''F-0003'']) \<and>
   map_sum id (\<lambda>(s', b). (b, s' = ex_project_layer))
     (removeFoundation ex_project_layer ''F-9999'') = Inr (False, True) \<and>
   foundations_yaml (ex_empty_layer ''/w/app/.decision-os'' ''app'') = None \<and>
   map_sum id snd (removeFoundation (ex_empty_layer ''/w/app/.decision-os'' ''app'') ''F-0001'') =
     Inr False"
proof -
  let ?e = "ex_empty_layer ''/w/app/.decision-os'' ''app''"
  have a: "map_sum id (\<lambda>(s', b). (b, map f_id (getFoundations s' None)))
     (removeFoundation ex_project_layer ''F-0002'') = Inr (True, [''F-0001'', ''F-0003''])"
    by code_simp
  have b: "map_sum id (\<lambda>(s', b). (b, s' = ex_project_layer))
     (removeFoundation ex_project_layer ''F-9999'') = Inr (False, True)"
    by code_simp
  have n: "foundations_yaml ?e = None"
    by code_simp
  from removeFoundation_total [of ?e "''F-0001''"] n
  obtain s' where "removeFoundation ?e ''F-0001'' = Inr (s', False)"
    by auto
  then have c: "map_sum id snd (removeFoundation ?e ''F-0001'') = Inr False"
    by simp
  show ?thesis
    by (intro conjI a b n c)
qed

subsection \<open>Elevation\<close>

lemma foundations_write_pressures_yaml [simp]:
  "foundations_yaml (write_pressures_yaml s k es) = foundations_yaml s"
  by (simp add: write_pressures_yaml_def)

lemma markPressurePromoted_loop_foundations:
  "foundations_yaml (markPressurePromoted_loop s p f cs) = foundations_yaml s"
  by (induction cs) (auto simp: Let_def split: option.splits)

lemma foldl_mark_foundations:
  "foundations_yaml (foldl (\<lambda>st peId. markPressurePromoted st peId f) s ps) = foundations_yaml s"
  by (induction ps arbitrary: s)
     (simp_all add: markPressurePromoted_def markPressurePromoted_loop_foundations)

lemma promoteToFoundation_foundations:
  "getFoundations (fst (promoteToFoundation s input now)) None =
     getFoundations s None @ [snd (promoteToFoundation s input now)]"
  by (simp add: promoteToFoundation_def Let_def foldl_mark_foundations getFoundations_None
      split: option.splits)

lemma promoteToFoundation_record:
  "snd (promoteToFoundation s input now) =
     \<lparr>f_id = (if (case pi_scope input of None \<Rightarrow> PROJECT | Some sc \<Rightarrow> sc) = GLOBAL
               then ''GF'' else ''F'') @ ''-'' @ padStart4 (nat_digits (nextFoundationId s)),
      f_title = pi_title input, f_default_behavior = pi_default_behavior input,
      f_context_tags = pi_context_tags input, f_counter_contexts = pi_counter_contexts input,
      f_confidence = 1,
      f_scope = (case pi_scope input of None \<Rightarrow> PROJECT | Some sc \<Rightarrow> sc),
      f_origin_project = pi_origin_project input,
      f_validated_in =
        (if truthy (pi_origin_project input) then Some [the (pi_origin_project input)] else None),
      f_exit_criteria = pi_exit_criteria input,
      f_source_pressures = pi_source_pressures input,
      f_created_at = now, f_updated_at = now\<rparr>"
  by (simp add: promoteToFoundation_def Let_def)

lemma globalLayer_set_globalLayer:
  "globalLayer hs = Some g \<Longrightarrow> globalLayer (set_globalLayer (hs\<lparr>projectLayer := p\<rparr>) g') = Some g'"
  by (simp add: globalLayer_def set_globalLayer_def split: if_splits)

lemma projectLayer_set_globalLayer [simp]:
  "projectLayer (set_globalLayer hs g) = projectLayer hs"
  by (simp add: set_globalLayer_def)

lemma removeFoundation_found:
  "foundations_yaml s = Some fs \<Longrightarrow> findIndex (\<lambda>f. f_id f = fid) fs = Some i \<Longrightarrow>
   removeFoundation s fid = Inr (s\<lparr>foundations_yaml := Some (take i fs @ drop (Suc i) fs)\<rparr>, True)"
  by (simp add: removeFoundation_def)


lemma basePath_write_pressures_yaml [simp]:
  "basePath (write_pressures_yaml s k es) = basePath s"
  by (simp add: write_pressures_yaml_def)

lemma markPressurePromoted_loop_basePath:
  "basePath (markPressurePromoted_loop s p f cs) = basePath s"
  by (induction cs) (auto simp: Let_def split: option.splits)

lemma foldl_mark_basePath:
  "basePath (foldl (\<lambda>st peId. markPressurePromoted st peId f) s ps) = basePath s"
  by (induction ps arbitrary: s)
     (simp_all add: markPressurePromoted_def markPressurePromoted_loop_basePath)

lemma promoteToFoundation_basePath:
  "basePath (fst (promoteToFoundation s input now)) = basePath s"
  by (simp add: promoteToFoundation_def Let_def foldl_mark_basePath)

text \<open>
  Claim C7, amended. When the outermost of two or more layers is the user-wide directory
  and the project layer holds a record with the id, elevation appends a new record to the
  user-wide collection and removes the project record, the first one with the id. The new
  record has the original's title, context tags, counter-contexts, source pressures and
  exit criteria; its behaviour text is the original's, followed by the elevation note when
  a non-empty reason is given; its scope is GLOBAL and its id is the next \<open>GF\<close> id of
  the user-wide layer; its origin is the current project. Its confidence is 1, its
  validated-in list is the current project alone, and its timestamps are the time of the
  elevation, whatever the original's were. Elevation fails when the project layer is the
  only layer, and when the project layer has no record with the id.
\<close>

theorem elevateFoundation_spec:
  "(outerLayers hs = [] \<longrightarrow> elevateFoundation hs fid reason now = Inl NoGlobalLayer) \<and>
   (\<forall>g. globalLayer hs = Some g \<and> basePath g = home_dos hs \<and>
      (\<forall>f \<in> set (layer_records (projectLayer hs)). f_id f \<noteq> fid) \<longrightarrow>
      elevateFoundation hs fid reason now = Inl (FoundationNotInProject fid)) \<and>
   (\<forall>g fnd cfg.
      globalLayer hs = Some g \<and> basePath g = home_dos hs \<and>
      nextFoundationId g \<le> max_counter \<and>
      find (\<lambda>f. f_id f = fid) (layer_records (projectLayer hs)) = Some fnd \<and>
      config_yaml (projectLayer hs) = Some cfg \<longrightarrow>
      (\<exists>hs' gf. elevateFoundation hs fid reason now = Inr (hs', gf) \<and>
         f_title gf = f_title fnd \<and>
         f_default_behavior gf =
           f_default_behavior fnd @
           (case reason of
              None \<Rightarrow> []
            | Some r \<Rightarrow>
                if r = [] then []
                else [CHR 0x0A, CHR 0x0A] @ ''[Elevated from '' @ project cfg @ '': '' @ r @ '']'') \<and>
         f_context_tags gf = f_context_tags fnd \<and>
         f_counter_contexts gf = f_counter_contexts fnd \<and>
         f_source_pressures gf = f_source_pressures fnd \<and>
         f_exit_criteria gf = f_exit_criteria fnd \<and>
         f_scope gf = GLOBAL \<and>
         f_id gf = ''GF-'' @ padStart4 (nat_digits (nextFoundationId g)) \<and>
         f_origin_project gf = Some (project cfg) \<and>
         f_confidence gf = 1 \<and>
         f_validated_in gf = (if project cfg = [] then None else Some [project cfg]) \<and>
         f_created_at gf = now \<and> f_updated_at gf = now \<and>
         (\<exists>g'. globalLayer hs' = Some g' \<and> basePath g' = home_dos hs' \<and>
               layer_records g' = layer_records g @ [gf]) \<and>
         (\<exists>i < length (layer_records (projectLayer hs)).
            layer_records (projectLayer hs) ! i = fnd \<and>
            (\<forall>j < i. f_id (layer_records (projectLayer hs) ! j) \<noteq> fid) \<and>
            layer_records (projectLayer hs') =
              take i (layer_records (projectLayer hs)) @
              drop (Suc i) (layer_records (projectLayer hs)))))"
proof (intro conjI allI impI)
  show "elevateFoundation hs fid reason now = Inl NoGlobalLayer" if "outerLayers hs = []"
    using that by (simp add: elevateFoundation_def globalLayer_def)
  show "elevateFoundation hs fid reason now = Inl (FoundationNotInProject fid)"
    if "globalLayer hs = Some g \<and> basePath g = home_dos hs \<and>
        (\<forall>f \<in> set (layer_records (projectLayer hs)). f_id f \<noteq> fid)" for g
  proof -
    from that have "find (\<lambda>f. f_id f = fid) (getFoundations (projectLayer hs) None) = None"
      by (simp add: find_None_iff getFoundations_unfiltered)
    with that show ?thesis
      by (simp add: elevateFoundation_def)
  qed
next
  fix g fnd cfg
  assume h0: "globalLayer hs = Some g \<and> basePath g = home_dos hs \<and>
      nextFoundationId g \<le> max_counter \<and>
      find (\<lambda>f. f_id f = fid) (layer_records (projectLayer hs)) = Some fnd \<and>
      config_yaml (projectLayer hs) = Some cfg"
  then have h: "globalLayer hs = Some g \<and>
      find (\<lambda>f. f_id f = fid) (getFoundations (projectLayer hs) None) = Some fnd \<and>
      config_yaml (projectLayer hs) = Some cfg"
    by (simp add: getFoundations_unfiltered)
  let ?p = "projectLayer hs"
  let ?pfs = "getFoundations ?p None"
  let ?input = "\<lparr>pi_title = f_title fnd,
                  pi_default_behavior =
                    f_default_behavior fnd @ elevation_note (project cfg) reason,
                  pi_context_tags = f_context_tags fnd,
                  pi_counter_contexts = f_counter_contexts fnd,
                  pi_source_pressures = f_source_pressures fnd,
                  pi_exit_criteria = f_exit_criteria fnd,
                  pi_scope = Some GLOBAL,
                  pi_origin_project = Some (project cfg)\<rparr>"
  let ?g' = "fst (promoteToFoundation g ?input now)"
  let ?gf = "snd (promoteToFoundation g ?input now)"
  from h obtain i where i: "findIndex (\<lambda>f. f_id f = fid) ?pfs = Some i" "?pfs ! i = fnd"
    using find_findIndex by fastforce
  from h have "?pfs \<noteq> []" by auto
  then obtain fs where fs: "foundations_yaml ?p = Some fs" "?pfs = fs"
    by (cases "foundations_yaml ?p") (simp_all add: getFoundations_None)
  let ?p' = "?p\<lparr>foundations_yaml := Some (take i fs @ drop (Suc i) fs)\<rparr>"
  let ?hs' = "set_globalLayer (hs\<lparr>projectLayer := ?p'\<rparr>) ?g'"
  from i fs have rm: "removeFoundation ?p fid = Inr (?p', True)"
    by (simp add: removeFoundation_found)
  from h have cfg: "getConfig ?p = Inr cfg"
    by (simp add: getConfig_def)
  from h cfg rm have e: "elevateFoundation hs fid reason now = Inr (?hs', ?gf)"
    unfolding elevateFoundation_def
    by (simp add: case_prod_beta)
  have note_eq: "elevation_note (project cfg) reason =
      (case reason of
         None \<Rightarrow> []
       | Some r \<Rightarrow>
           if r = [] then []
           else [CHR 0x0A, CHR 0x0A] @ ''[Elevated from '' @ project cfg @ '': '' @ r @ '']'')"
    by (cases reason) (simp_all add: elevation_note_def truthy_def)
  have rec: "?gf =
     \<lparr>f_id = ''GF-'' @ padStart4 (nat_digits (nextFoundationId g)),
      f_title = f_title fnd,
      f_default_behavior = f_default_behavior fnd @ elevation_note (project cfg) reason,
      f_context_tags = f_context_tags fnd, f_counter_contexts = f_counter_contexts fnd,
      f_confidence = 1, f_scope = GLOBAL, f_origin_project = Some (project cfg),
      f_validated_in = (if project cfg = [] then None else Some [project cfg]),
      f_exit_criteria = f_exit_criteria fnd,
      f_source_pressures = f_source_pressures fnd,
      f_created_at = now, f_updated_at = now\<rparr>"
    by (simp add: promoteToFoundation_record truthy_def)
  from h have gl: "globalLayer ?hs' = Some ?g'"
    by (simp add: globalLayer_set_globalLayer)
  have bp: "basePath ?g' = home_dos ?hs'"
    using h0 by (simp add: promoteToFoundation_basePath set_globalLayer_def)
  have gfs: "layer_records ?g' = layer_records g @ [?gf]"
    using promoteToFoundation_foundations [of g ?input now]
    by (simp only: getFoundations_unfiltered)
  from findIndex_Some [OF i(1)] have ii: "i < length ?pfs"
    "\<forall>j < i. f_id (?pfs ! j) \<noteq> fid"
    by simp_all
  have pfs': "getFoundations (projectLayer ?hs') None = take i ?pfs @ drop (Suc i) ?pfs"
    using fs by (simp add: getFoundations_None)
  have global_part: "\<exists>g'. globalLayer ?hs' = Some g' \<and> basePath g' = home_dos ?hs' \<and>
      layer_records g' = layer_records g @ [?gf]"
    using gl gfs bp by blast
  have "\<exists>k < length ?pfs. ?pfs ! k = fnd \<and> (\<forall>j < k. f_id (?pfs ! j) \<noteq> fid) \<and>
      getFoundations (projectLayer ?hs') None = take k ?pfs @ drop (Suc k) ?pfs"
    using ii i(2) pfs' by blast
  then have project_part: "\<exists>k < length (layer_records ?p). layer_records ?p ! k = fnd \<and>
      (\<forall>j < k. f_id (layer_records ?p ! j) \<noteq> fid) \<and>
      layer_records (projectLayer ?hs') =
        take k (layer_records ?p) @ drop (Suc k) (layer_records ?p)"
    by (simp only: getFoundations_unfiltered)
  show "\<exists>hs' gf. elevateFoundation hs fid reason now = Inr (hs', gf) \<and>
         f_title gf = f_title fnd \<and>
         f_default_behavior gf =
           f_default_behavior fnd @
           (case reason of
              None \<Rightarrow> []
            | Some r \<Rightarrow>
                if r = [] then []
                else [CHR 0x0A, CHR 0x0A] @ ''[Elevated from '' @ project cfg @ '': '' @ r @ '']'') \<and>
         f_context_tags gf = f_context_tags fnd \<and>
         f_counter_contexts gf = f_counter_contexts fnd \<and>
         f_source_pressures gf = f_source_pressures fnd \<and>
         f_exit_criteria gf = f_exit_criteria fnd \<and>
         f_scope gf = GLOBAL \<and>
         f_id gf = ''GF-'' @ padStart4 (nat_digits (nextFoundationId g)) \<and>
         f_origin_project gf = Some (project cfg) \<and>
         f_confidence gf = 1 \<and>
         f_validated_in gf = (if project cfg = [] then None else Some [project cfg]) \<and>
         f_created_at gf = now \<and> f_updated_at gf = now \<and>
         (\<exists>g'. globalLayer hs' = Some g' \<and> basePath g' = home_dos hs' \<and>
               layer_records g' = layer_records g @ [gf]) \<and>
         (\<exists>i < length (layer_records ?p). layer_records ?p ! i = fnd \<and>
            (\<forall>j < i. f_id (layer_records ?p ! j) \<noteq> fid) \<and>
            layer_records (projectLayer hs') =
              take i (layer_records ?p) @ drop (Suc i) (layer_records ?p))"
    apply (rule exI [of _ ?hs'])
    apply (rule exI [of _ ?gf])
    apply (intro conjI e global_part project_part)
    apply (simp_all only: rec Foundation.simps)
    apply (simp only: note_eq)
    done
qed

text \<open>
  The project foundation \<open>F-0009\<close> is elevated with a reason: the user-wide layer gets
  \<open>GF-0003\<close> with the note appended, and the project layer keeps its other foundation
  only. A store with the project layer alone refuses.
\<close>

theorem elevateFoundation_spec_witness:
  "globalLayer ex_hs_elev = Some ex_global_layer \<and>
   basePath ex_global_layer = home_dos ex_hs_elev \<and>
   nextFoundationId ex_global_layer \<le> max_counter \<and>
   find (\<lambda>f. f_id f = ''F-0009'') (layer_records (projectLayer ex_hs_elev)) = Some ex_proven \<and>
   config_yaml (projectLayer ex_hs_elev) = Some \<lparr>project = ''app'', version = 1, scope = PROJECT\<rparr> \<and>
   (\<exists>hs' gf.
      elevateFoundation ex_hs_elev ''F-0009'' (Some ''Holds everywhere'') ''t9'' = Inr (hs', gf) \<and>
      f_id gf = ''GF-0003'' \<and> f_title gf = ''Trace call sites'' \<and>
      f_default_behavior gf =
        ''Trace call sites before refactoring'' @ [CHR 0x0A, CHR 0x0A] @
        ''[Elevated from app: Holds everywhere]'' \<and>
      f_scope gf = GLOBAL \<and> f_origin_project gf = Some ''app'' \<and>
      f_confidence gf = 1 \<and> f_validated_in gf = Some [''app''] \<and>
      f_exit_criteria gf = Some ''Tooling finds call sites'') \<and>
   map_sum id
     (\<lambda>r. (map f_id (layer_records (projectLayer (fst r))),
           map f_id (layer_records (last (outerLayers (fst r))))))
     (elevateFoundation ex_hs_elev ''F-0009'' (Some ''Holds everywhere'') ''t9'') =
     Inr ([''F-0001''], [''GF-0001'', ''GF-0002'', ''GF-0003'']) \<and>
   outerLayers (ex_hs_elev\<lparr>outerLayers := []\<rparr>) = [] \<and>
   elevateFoundation (ex_hs_elev\<lparr>outerLayers := []\<rparr>) ''F-0009'' None ''t9'' = Inl NoGlobalLayer"
proof -
  note spec = elevateFoundation_spec [of ex_hs_elev "''F-0009''" "Some ''Holds everywhere''" "''t9''"]
  note spec1 = elevateFoundation_spec [of "ex_hs_elev\<lparr>outerLayers := []\<rparr>" "''F-0009''" None "''t9''"]
  let ?cfg = "\<lparr>project = ''app'', version = 1, scope = PROJECT\<rparr>"
  have g: "globalLayer ex_hs_elev = Some ex_global_layer"
    by code_simp
  have b: "basePath ex_global_layer = home_dos ex_hs_elev"
    by code_simp
  have n: "nextFoundationId ex_global_layer \<le> max_counter"
    by code_simp
  have f: "find (\<lambda>f. f_id f = ''F-0009'') (layer_records (projectLayer ex_hs_elev)) = Some ex_proven"
    by code_simp
  have c: "config_yaml (projectLayer ex_hs_elev) = Some ?cfg"
    by code_simp
  have i: "padStart4 (nat_digits (nextFoundationId ex_global_layer)) = ''0003''"
    by code_simp
  have p: "f_title ex_proven = ''Trace call sites''"
    "f_default_behavior ex_proven = ''Trace call sites before refactoring''"
    "f_exit_criteria ex_proven = Some ''Tooling finds call sites''"
    by code_simp+
  from spec g b n f c
  have "\<exists>hs' gf.
      elevateFoundation ex_hs_elev ''F-0009'' (Some ''Holds everywhere'') ''t9'' = Inr (hs', gf) \<and>
      f_id gf = ''GF-'' @ padStart4 (nat_digits (nextFoundationId ex_global_layer)) \<and>
      f_title gf = f_title ex_proven \<and>
      f_default_behavior gf =
        f_default_behavior ex_proven @ [CHR 0x0A, CHR 0x0A] @
        ''[Elevated from '' @ project ?cfg @ '': '' @ ''Holds everywhere'' @ '']'' \<and>
      f_scope gf = GLOBAL \<and> f_origin_project gf = Some (project ?cfg) \<and>
      f_confidence gf = 1 \<and>
      f_validated_in gf = (if project ?cfg = [] then None else Some [project ?cfg]) \<and>
      f_exit_criteria gf = f_exit_criteria ex_proven"
    by (elim conjE allE [of _ ex_global_layer] allE [of _ ex_proven] allE [of _ ?cfg]) fastforce
  then have e: "\<exists>hs' gf.
      elevateFoundation ex_hs_elev ''F-0009'' (Some ''Holds everywhere'') ''t9'' = Inr (hs', gf) \<and>
      f_id gf = ''GF-0003'' \<and> f_title gf = ''Trace call sites'' \<and>
      f_default_behavior gf =
        ''Trace call sites before refactoring'' @ [CHR 0x0A, CHR 0x0A] @
        ''[Elevated from app: Holds everywhere]'' \<and>
      f_scope gf = GLOBAL \<and> f_origin_project gf = Some ''app'' \<and>
      f_confidence gf = 1 \<and> f_validated_in gf = Some [''app''] \<and>
      f_exit_criteria gf = Some ''Tooling finds call sites''"
    by (simp add: i p)
  have r: "map_sum id
     (\<lambda>r. (map f_id (layer_records (projectLayer (fst r))),
           map f_id (layer_records (last (outerLayers (fst r))))))
     (elevateFoundation ex_hs_elev ''F-0009'' (Some ''Holds everywhere'') ''t9'') =
     Inr ([''F-0001''], [''GF-0001'', ''GF-0002'', ''GF-0003''])"
    by code_simp
  have o: "outerLayers (ex_hs_elev\<lparr>outerLayers := []\<rparr>) = []"
    by simp
  with spec1 have x: "elevateFoundation (ex_hs_elev\<lparr>outerLayers := []\<rparr>) ''F-0009'' None ''t9'' =
      Inl NoGlobalLayer"
    by blast
  show ?thesis
    by (intro conjI g b n f c e r o x)
qed

text \<open>
  The claim as stated fails: the original stands at confidence 3 and is validated in
  three projects; the elevated record has confidence 1 and is validated in the current
  project only.
\<close>

theorem elevateFoundation_counterexample:
  "globalLayer ex_hs_elev = Some ex_global_layer \<and>
   basePath ex_global_layer = home_dos ex_hs_elev \<and>
   ex_proven \<in> set (layer_records (projectLayer ex_hs_elev)) \<and>
   f_id ex_proven = ''F-0009'' \<and> f_scope ex_proven = PROJECT \<and>
   f_confidence ex_proven = 3 \<and>
   f_validated_in ex_proven = Some [''app'', ''shop'', ''blog''] \<and>
   map_sum id (f_id \<circ> snd) (elevateFoundation ex_hs_elev ''F-0009'' None ''t9'') =
     Inr ''GF-0003'' \<and>
   map_sum id (f_confidence \<circ> snd) (elevateFoundation ex_hs_elev ''F-0009'' None ''t9'') =
     Inr 1 \<and>
   map_sum id (f_validated_in \<circ> snd) (elevateFoundation ex_hs_elev ''F-0009'' None ''t9'') =
     Inr (Some [''app''])"
  by code_simp

section \<open>Verification: cross-validation\<close>

lemma firsts_distinct_key: "distinct (map k xs) \<Longrightarrow> distinct (map k (firsts S xs))"
proof (induction xs arbitrary: S)
  case Nil
  then show ?case by simp
next
  case (Cons a xs)
  from Cons.prems have "k a \<notin> k ` set xs" by simp
  with firsts_set [of "insert (fws_title a) S" xs]
  have "k a \<notin> k ` set (firsts (insert (fws_title a) S) xs)" by blast
  with Cons show ?case by simp
qed

lemma candidates_ids:
  "map (\<lambda>a. f_id (foundation a)) (listing_candidates home None ls) =
     map f_id (concat (map layer_records ls))"
  by (induction ls) (simp_all add: listing_candidates_def passes_None with_provenance_def comp_def)

lemma listed_provenance:
  assumes "a \<in> set (hgetFoundations hs filters)"
  shows "\<exists>l \<in> set (layers hs). \<exists>r \<in> set (layer_records l).
           passes filters r \<and> a = with_provenance (home_dos hs) l r"
proof -
  from assms firsts_set [of "{}" "listing_candidates (home_dos hs) filters (layers hs)"]
  have "a \<in> set (listing_candidates (home_dos hs) filters (layers hs))"
    by (auto simp: hgetFoundations_firsts)
  then show ?thesis
    by (auto simp: listing_candidates_def)
qed

lemma find_distinct_key:
  "distinct (map k xs) \<Longrightarrow> a \<in> set xs \<Longrightarrow> find (\<lambda>x. k x = k a) xs = Some a"
  by (induction xs) (auto simp: rev_image_eqI)

lemma findIndex_distinct:
  "distinct (map k xs) \<Longrightarrow> r \<in> set xs \<Longrightarrow>
   \<exists>i. findIndex (\<lambda>x. k x = k r) xs = Some i \<and> xs ! i = r \<and>
       xs[i := u] = map (\<lambda>x. if k x = k r then u else x) xs"
proof (induction xs)
  case Nil
  then show ?case by simp
next
  case (Cons x xs)
  show ?case
  proof (cases "k x = k r")
    case True
    with Cons.prems have x: "x = r"
      by (auto simp: rev_image_eqI)
    from Cons.prems True have "\<forall>y \<in> set xs. k y \<noteq> k r"
      by (auto simp: rev_image_eqI)
    then have "map (\<lambda>y. if k y = k r then u else y) xs = xs"
      by (simp add: map_idI)
    with True x show ?thesis
      by simp
  next
    case False
    with Cons.prems have "r \<in> set xs" "distinct (map k xs)"
      by auto
    from Cons.IH [OF this(2) this(1)] False show ?thesis
      by auto
  qed
qed

lemma updateFoundation_distinct:
  assumes d: "distinct (map f_id (layer_records l))" and r: "r \<in> set (layer_records l)"
    and c: "f_confidence (upd r) \<le> 3"
  shows "updateFoundation l (f_id r) upd now =
    Inr (l\<lparr>foundations_yaml :=
             Some (replace_by_id (f_id r) ((upd r)\<lparr>f_updated_at := now\<rparr>) (layer_records l))\<rparr>,
         (upd r)\<lparr>f_updated_at := now\<rparr>)"
proof -
  from r obtain fs where fs: "foundations_yaml l = Some fs" "layer_records l = fs"
    by (cases "foundations_yaml l") (simp_all add: layer_records_def)
  from findIndex_distinct [OF d r, of "(upd r)\<lparr>f_updated_at := now\<rparr>"] fs
  obtain i where i: "findIndex (\<lambda>x. f_id x = f_id r) fs = Some i" "fs ! i = r"
    "fs[i := (upd r)\<lparr>f_updated_at := now\<rparr>] =
       replace_by_id (f_id r) ((upd r)\<lparr>f_updated_at := now\<rparr>) fs"
    by (auto simp: replace_by_id_def)
  from c have "FoundationSchema_parse ((upd r)\<lparr>f_updated_at := now\<rparr>) =
      Inr ((upd r)\<lparr>f_updated_at := now\<rparr>)"
    by (simp add: FoundationSchema_parse_def)
  with fs i show ?thesis
    by (simp add: updateFoundation_def)
qed

lemma confidence_after_le: "f_confidence r \<le> 3 \<Longrightarrow> confidence_after r label \<le> 3"
  by (simp add: confidence_after_def)

lemma labels_after_distinct:
  "(case f_validated_in r of None \<Rightarrow> True | Some old \<Rightarrow> distinct old) \<Longrightarrow>
   distinct (labels_after r label)"
  by (cases "f_validated_in r") (simp_all add: labels_after_def)

lemma entries_confidence_distinct:
  "(case f_validated_in r of None \<Rightarrow> True | Some old \<Rightarrow> distinct old) \<Longrightarrow>
   entries_confidence r label = confidence_after r label"
  by (simp add: entries_confidence_def confidence_after_def labels_after_distinct distinct_card)

lemma validateFoundation_found:
  assumes f: "find (\<lambda>f. f_id (foundation f) = fid) (hgetFoundations hs None) = Some a"
    and cfg: "config_yaml (projectLayer hs) = Some cfg"
  shows "validateFoundation hs fid now =
    (let upd = (\<lambda>f. f\<lparr>f_validated_in := Some (labels_after (foundation a) (project cfg)),
                      f_confidence := entries_confidence (foundation a) (project cfg)\<rparr>)
     in case (if source_scope a = GLOBAL then globalLayer hs else None) of
          Some g \<Rightarrow>
            (case updateFoundation g fid upd now of
               Inl e \<Rightarrow> Inl e
             | Inr (g', updated) \<Rightarrow> Inr (set_globalLayer hs g', updated))
        | None \<Rightarrow>
            (case updateFoundation (projectLayer hs) fid upd now of
               Inl e \<Rightarrow> Inl e
             | Inr (p', updated) \<Rightarrow> Inr (hs\<lparr>projectLayer := p'\<rparr>, updated)))"
proof -
  have l: "(if project cfg \<in> set (case f_validated_in (foundation a) of None \<Rightarrow> [] | Some v \<Rightarrow> v)
            then (case f_validated_in (foundation a) of None \<Rightarrow> [] | Some v \<Rightarrow> v)
            else (case f_validated_in (foundation a) of None \<Rightarrow> [] | Some v \<Rightarrow> v) @
                 [project cfg]) =
           labels_after (foundation a) (project cfg)"
    by (cases "f_validated_in (foundation a)") (simp_all add: labels_after_def)
  have c: "(if length (labels_after (foundation a) (project cfg)) \<ge> 3 \<and>
               f_confidence (foundation a) < 3
            then min 3 (f_confidence (foundation a) + 1) else f_confidence (foundation a)) =
           entries_confidence (foundation a) (project cfg)"
    by (simp add: entries_confidence_def)
  show ?thesis
    unfolding validateFoundation_def
    by (simp only: f cfg getConfig_def Let_def option.case sum.case l c)
qed

lemma validated_record_upd:
  "(r\<lparr>f_validated_in := Some (labels_after r label),
      f_confidence := confidence_after r label\<rparr>)\<lparr>f_updated_at := now\<rparr> =
   validated_record r label now"
  by (simp add: validated_record_def)

lemma validateFoundation_two_layers:
  assumes a: "a \<in> set (hgetFoundations hs None)"
    and d: "distinct (map f_id (concat (map layer_records (layers hs))))"
    and p: "basePath (projectLayer hs) \<noteq> home_dos hs"
    and o: "outerLayers hs = [] \<or> (\<exists>g. outerLayers hs = [g] \<and> basePath g = home_dos hs)"
    and cfg: "config_yaml (projectLayer hs) = Some cfg"
    and c: "f_confidence (foundation a) \<le> 3"
    and nd: "case f_validated_in (foundation a) of None \<Rightarrow> True | Some old \<Rightarrow> distinct old"
  shows "(source_scope a = PROJECT \<longrightarrow>
           foundation a \<in> set (layer_records (projectLayer hs)) \<and>
           validateFoundation hs (f_id (foundation a)) now =
             Inr (hs\<lparr>projectLayer :=
                      with_records (projectLayer hs)
                        (replace_by_id (f_id (foundation a))
                           (validated_record (foundation a) (project cfg) now)
                           (layer_records (projectLayer hs)))\<rparr>,
                  validated_record (foundation a) (project cfg) now)) \<and>
         (source_scope a = GLOBAL \<longrightarrow>
           (\<exists>g. outerLayers hs = [g] \<and> basePath g = home_dos hs \<and>
              foundation a \<in> set (layer_records g) \<and>
              validateFoundation hs (f_id (foundation a)) now =
                Inr (hs\<lparr>outerLayers :=
                         [with_records g
                            (replace_by_id (f_id (foundation a))
                               (validated_record (foundation a) (project cfg) now)
                               (layer_records g))]\<rparr>,
                     validated_record (foundation a) (project cfg) now)))"
proof -
  let ?L = "hgetFoundations hs None"
  let ?r = "foundation a"
  let ?u = "validated_record ?r (project cfg) now"
  let ?upd = "\<lambda>f. f\<lparr>f_validated_in := Some (labels_after ?r (project cfg)),
                     f_confidence := confidence_after ?r (project cfg)\<rparr>"
  from listed_provenance [OF a] obtain l r where l: "l \<in> set (layers hs)"
    and r: "r \<in> set (layer_records l)" and e: "a = with_provenance (home_dos hs) l r"
    by blast
  from e have fr: "?r = r" and sc: "source_scope a = (if basePath l = home_dos hs then GLOBAL else PROJECT)"
    by (simp_all add: with_provenance_def)
  have "distinct (map (\<lambda>a. f_id (foundation a)) (listing_candidates (home_dos hs) None (layers hs)))"
    using d by (simp only: candidates_ids)
  then have dl: "distinct (map (\<lambda>a. f_id (foundation a)) ?L)"
    by (simp only: hgetFoundations_firsts firsts_distinct_key)
  from find_distinct_key [OF dl a]
  have f: "find (\<lambda>f. f_id (foundation f) = f_id ?r) ?L = Some a" .
  note v = validateFoundation_found [OF f cfg, of now,
      unfolded entries_confidence_distinct [OF nd]]
  have cu: "f_confidence (?upd x) \<le> 3" for x
    using c by (simp add: confidence_after_le)
  show ?thesis
  proof (intro conjI impI)
    assume s: "source_scope a = PROJECT"
    with sc have "basePath l \<noteq> home_dos hs"
      by (auto split: if_splits)
    with l o have lp: "l = projectLayer hs"
      by (auto simp: layers_def)
    with r fr show "?r \<in> set (layer_records (projectLayer hs))"
      by simp
    from d have dp: "distinct (map f_id (layer_records (projectLayer hs)))"
      by (simp add: layers_def)
    from r fr lp have rp: "?r \<in> set (layer_records (projectLayer hs))"
      by simp
    from updateFoundation_distinct [of "projectLayer hs" ?r ?upd now, OF dp rp cu]
    have "updateFoundation (projectLayer hs) (f_id ?r) ?upd now =
        Inr (with_records (projectLayer hs)
               (replace_by_id (f_id ?r) ?u (layer_records (projectLayer hs))), ?u)"
      by (simp only: validated_record_upd with_records_def)
    with v s show "validateFoundation hs (f_id ?r) now =
        Inr (hs\<lparr>projectLayer :=
                 with_records (projectLayer hs)
                   (replace_by_id (f_id ?r) ?u (layer_records (projectLayer hs)))\<rparr>, ?u)"
      by (simp add: Let_def)
  next
    assume s: "source_scope a = GLOBAL"
    with sc have "basePath l = home_dos hs"
      by (auto split: if_splits)
    with l o p obtain g where g: "outerLayers hs = [g]" "basePath g = home_dos hs" "l = g"
      by (auto simp: layers_def)
    from g have gl: "globalLayer hs = Some g"
      by (simp add: globalLayer_def)
    from d g have dg: "distinct (map f_id (layer_records g))"
      by (simp add: layers_def)
    from r fr g have rg: "?r \<in> set (layer_records g)"
      by simp
    from updateFoundation_distinct [of g ?r ?upd now, OF dg rg cu]
    have "updateFoundation g (f_id ?r) ?upd now =
        Inr (with_records g (replace_by_id (f_id ?r) ?u (layer_records g)), ?u)"
      by (simp only: validated_record_upd with_records_def)
    with v s gl g have "validateFoundation hs (f_id ?r) now =
        Inr (hs\<lparr>outerLayers :=
                 [with_records g (replace_by_id (f_id ?r) ?u (layer_records g))]\<rparr>, ?u)"
      by (simp add: Let_def set_globalLayer_def)
    with g rg show "\<exists>g. outerLayers hs = [g] \<and> basePath g = home_dos hs \<and>
        ?r \<in> set (layer_records g) \<and>
        validateFoundation hs (f_id ?r) now =
          Inr (hs\<lparr>outerLayers :=
                   [with_records g (replace_by_id (f_id ?r) ?u (layer_records g))]\<rparr>, ?u)"
      by blast
  qed
qed

text \<open>
  Claim C6, amended. Cross-validation looks the id up in the merged listing and fails when
  no listed record has it. In a store of the project layer alone, or of the project layer
  and the user-wide layer, whose records all have different ids, validating a listed
  record whose validated-in list repeats no label succeeds: the current project's label
  is added to the list when it is absent, the confidence is one more exactly when the new
  list has three distinct labels or more and the confidence is below 3, and it never
  exceeds 3; the record is rewritten, in place and with a new update time, in the
  collection of the layer that holds it, the user-wide layer when its source scope is
  GLOBAL, the project layer otherwise, and the other layer is untouched. A list that
  repeats no label still repeats none after the label is added.
\<close>

theorem validateFoundation_spec:
  "((\<forall>a \<in> set (hgetFoundations hs None). f_id (foundation a) \<noteq> fid) \<longrightarrow>
      validateFoundation hs fid now = Inl (FoundationNotFound fid)) \<and>
   (\<forall>a cfg.
      a \<in> set (hgetFoundations hs None) \<and> f_id (foundation a) = fid \<and>
      distinct (map f_id (concat (map layer_records (layers hs)))) \<and>
      basePath (projectLayer hs) \<noteq> home_dos hs \<and>
      (outerLayers hs = [] \<or> (\<exists>g. outerLayers hs = [g] \<and> basePath g = home_dos hs)) \<and>
      config_yaml (projectLayer hs) = Some cfg \<and> f_confidence (foundation a) \<le> 3 \<and>
      (case f_validated_in (foundation a) of None \<Rightarrow> True | Some old \<Rightarrow> distinct old) \<longrightarrow>
      f_confidence (validated_record (foundation a) (project cfg) now) \<le> 3 \<and>
      (source_scope a = PROJECT \<longrightarrow>
         foundation a \<in> set (layer_records (projectLayer hs)) \<and>
         validateFoundation hs fid now =
           Inr (hs\<lparr>projectLayer :=
                    with_records (projectLayer hs)
                      (replace_by_id fid (validated_record (foundation a) (project cfg) now)
                         (layer_records (projectLayer hs)))\<rparr>,
                validated_record (foundation a) (project cfg) now)) \<and>
      (source_scope a = GLOBAL \<longrightarrow>
         (\<exists>g. outerLayers hs = [g] \<and> basePath g = home_dos hs \<and>
            foundation a \<in> set (layer_records g) \<and>
            validateFoundation hs fid now =
              Inr (hs\<lparr>outerLayers :=
                       [with_records g
                          (replace_by_id fid (validated_record (foundation a) (project cfg) now)
                             (layer_records g))]\<rparr>,
                   validated_record (foundation a) (project cfg) now)))) \<and>
   (\<forall>r label.
      (case f_validated_in r of None \<Rightarrow> True | Some old \<Rightarrow> distinct old) \<longrightarrow>
      distinct (labels_after r label) \<and>
      card (set (labels_after r label)) = length (labels_after r label))"
proof (intro conjI allI impI)
  show "validateFoundation hs fid now = Inl (FoundationNotFound fid)"
    if "\<forall>a \<in> set (hgetFoundations hs None). f_id (foundation a) \<noteq> fid"
  proof -
    from that have "find (\<lambda>f. f_id (foundation f) = fid) (hgetFoundations hs None) = None"
      by (simp add: find_None_iff)
    then show ?thesis
      by (simp add: validateFoundation_def)
  qed
next
  fix a cfg
  assume h: "a \<in> set (hgetFoundations hs None) \<and> f_id (foundation a) = fid \<and>
      distinct (map f_id (concat (map layer_records (layers hs)))) \<and>
      basePath (projectLayer hs) \<noteq> home_dos hs \<and>
      (outerLayers hs = [] \<or> (\<exists>g. outerLayers hs = [g] \<and> basePath g = home_dos hs)) \<and>
      config_yaml (projectLayer hs) = Some cfg \<and> f_confidence (foundation a) \<le> 3 \<and>
      (case f_validated_in (foundation a) of None \<Rightarrow> True | Some old \<Rightarrow> distinct old)"
  then have i: "f_id (foundation a) = fid"
    by simp
  from h have t: "(source_scope a = PROJECT \<longrightarrow>
           foundation a \<in> set (layer_records (projectLayer hs)) \<and>
           validateFoundation hs (f_id (foundation a)) now =
             Inr (hs\<lparr>projectLayer :=
                      with_records (projectLayer hs)
                        (replace_by_id (f_id (foundation a))
                           (validated_record (foundation a) (project cfg) now)
                           (layer_records (projectLayer hs)))\<rparr>,
                  validated_record (foundation a) (project cfg) now)) \<and>
         (source_scope a = GLOBAL \<longrightarrow>
           (\<exists>g. outerLayers hs = [g] \<and> basePath g = home_dos hs \<and>
              foundation a \<in> set (layer_records g) \<and>
              validateFoundation hs (f_id (foundation a)) now =
                Inr (hs\<lparr>outerLayers :=
                         [with_records g
                            (replace_by_id (f_id (foundation a))
                               (validated_record (foundation a) (project cfg) now)
                               (layer_records g))]\<rparr>,
                     validated_record (foundation a) (project cfg) now)))"
    by (intro validateFoundation_two_layers) simp_all
  from h show "f_confidence (validated_record (foundation a) (project cfg) now) \<le> 3"
    by (simp add: validated_record_def confidence_after_le)
  {
    assume "source_scope a = PROJECT"
    with t show "foundation a \<in> set (layer_records (projectLayer hs))"
      by simp
    from \<open>source_scope a = PROJECT\<close> t show "validateFoundation hs fid now =
           Inr (hs\<lparr>projectLayer :=
                    with_records (projectLayer hs)
                      (replace_by_id fid (validated_record (foundation a) (project cfg) now)
                         (layer_records (projectLayer hs)))\<rparr>,
                validated_record (foundation a) (project cfg) now)"
      unfolding i by simp
  }
  {
    assume "source_scope a = GLOBAL"
    with t show "\<exists>g. outerLayers hs = [g] \<and> basePath g = home_dos hs \<and>
            foundation a \<in> set (layer_records g) \<and>
            validateFoundation hs fid now =
              Inr (hs\<lparr>outerLayers :=
                       [with_records g
                          (replace_by_id fid (validated_record (foundation a) (project cfg) now)
                             (layer_records g))]\<rparr>,
                   validated_record (foundation a) (project cfg) now)"
      unfolding i by simp
  }
next
  fix r :: Foundation and label
  assume "case f_validated_in r of None \<Rightarrow> True | Some old \<Rightarrow> distinct old"
  then show d: "distinct (labels_after r label)"
    by (rule labels_after_distinct)
  then show "card (set (labels_after r label)) = length (labels_after r label)"
    by (rule distinct_card)
qed

text \<open>
  In the example the project \<open>app\<close> validates its own foundation \<open>F-0004\<close>, validated
  in two other projects before: the list gets a third entry and the confidence goes from
  2 to 3, in the project layer. It validates the global foundation \<open>GF-0002\<close>, never
  validated before: the list is the project alone, the confidence stays, and the
  user-wide layer is the one rewritten.
\<close>

theorem validateFoundation_spec_witness:
  "\<lparr>foundation = ex_shared, source_layer = ''/w/app/.decision-os'', source_scope = PROJECT,
     relevance = None\<rparr> \<in> set (hgetFoundations ex_hs_valid None) \<and>
   \<lparr>foundation = ex_global_never, source_layer = ''/home/u/.decision-os'',
     source_scope = GLOBAL, relevance = None\<rparr> \<in> set (hgetFoundations ex_hs_valid None) \<and>
   map f_id (concat (map layer_records (layers ex_hs_valid))) =
     [''F-0001'', ''F-0004'', ''GF-0001'', ''GF-0002''] \<and>
   basePath (projectLayer ex_hs_valid) \<noteq> home_dos ex_hs_valid \<and>
   outerLayers ex_hs_valid = [ex_global_layer] \<and>
   basePath ex_global_layer = home_dos ex_hs_valid \<and>
   config_yaml (projectLayer ex_hs_valid) =
     Some \<lparr>project = ''app'', version = 1, scope = PROJECT\<rparr> \<and>
   f_validated_in ex_shared = Some [''shop'', ''blog''] \<and> f_confidence ex_shared = 2 \<and>
   f_validated_in ex_global_never = None \<and> f_confidence ex_global_never = 1 \<and>
   validateFoundation ex_hs_valid ''F-0004'' ''t9'' =
     Inr (ex_hs_valid\<lparr>projectLayer :=
            with_records (projectLayer ex_hs_valid)
              [ex_ui, ex_shared\<lparr>f_validated_in := Some [''shop'', ''blog'', ''app''],
                               f_confidence := 3, f_updated_at := ''t9''\<rparr>]\<rparr>,
          ex_shared\<lparr>f_validated_in := Some [''shop'', ''blog'', ''app''],
                     f_confidence := 3, f_updated_at := ''t9''\<rparr>) \<and>
   validateFoundation ex_hs_valid ''GF-0002'' ''t9'' =
     Inr (ex_hs_valid\<lparr>outerLayers :=
            [with_records ex_global_layer
               [ex_global_ui, ex_global_never\<lparr>f_validated_in := Some [''app''],
                                              f_confidence := 1, f_updated_at := ''t9''\<rparr>]]\<rparr>,
          ex_global_never\<lparr>f_validated_in := Some [''app''],
                           f_confidence := 1, f_updated_at := ''t9''\<rparr>)"
proof -
  let ?a1 = "\<lparr>foundation = ex_shared, source_layer = ''/w/app/.decision-os'',
              source_scope = PROJECT, relevance = None\<rparr>"
  let ?a2 = "\<lparr>foundation = ex_global_never, source_layer = ''/home/u/.decision-os'',
              source_scope = GLOBAL, relevance = None\<rparr>"
  let ?cfg = "\<lparr>project = ''app'', version = 1, scope = PROJECT\<rparr>"
  note spec1 = validateFoundation_spec [of ex_hs_valid "''F-0004''" "''t9''"]
  note spec2 = validateFoundation_spec [of ex_hs_valid "''GF-0002''" "''t9''"]
  have m1: "?a1 \<in> set (hgetFoundations ex_hs_valid None)"
    by code_simp
  have m2: "?a2 \<in> set (hgetFoundations ex_hs_valid None)"
    by code_simp
  have ids: "map f_id (concat (map layer_records (layers ex_hs_valid))) =
     [''F-0001'', ''F-0004'', ''GF-0001'', ''GF-0002'']"
    by code_simp
  then have d: "distinct (map f_id (concat (map layer_records (layers ex_hs_valid))))"
    by simp
  have p: "basePath (projectLayer ex_hs_valid) \<noteq> home_dos ex_hs_valid"
    by code_simp
  have o: "outerLayers ex_hs_valid = [ex_global_layer]"
    by (simp add: ex_hs_valid_def)
  have b: "basePath ex_global_layer = home_dos ex_hs_valid"
    by code_simp
  from o b have o': "outerLayers ex_hs_valid = [] \<or>
      (\<exists>g. outerLayers ex_hs_valid = [g] \<and> basePath g = home_dos ex_hs_valid)"
    by simp
  have c: "config_yaml (projectLayer ex_hs_valid) = Some ?cfg"
    by code_simp
  have i1: "f_id (foundation ?a1) = ''F-0004''" "f_confidence (foundation ?a1) \<le> 3"
    "source_scope ?a1 = PROJECT"
    "case f_validated_in (foundation ?a1) of None \<Rightarrow> True | Some old \<Rightarrow> distinct old"
    by code_simp+
  have i2: "f_id (foundation ?a2) = ''GF-0002''" "f_confidence (foundation ?a2) \<le> 3"
    "source_scope ?a2 = GLOBAL"
    "case f_validated_in (foundation ?a2) of None \<Rightarrow> True | Some old \<Rightarrow> distinct old"
    by code_simp+
  have u1: "validated_record ex_shared ''app'' ''t9'' =
      ex_shared\<lparr>f_validated_in := Some [''shop'', ''blog'', ''app''],
                 f_confidence := 3, f_updated_at := ''t9''\<rparr>"
    by code_simp
  have u2: "validated_record ex_global_never ''app'' ''t9'' =
      ex_global_never\<lparr>f_validated_in := Some [''app''],
                       f_confidence := 1, f_updated_at := ''t9''\<rparr>"
    by code_simp
  have r1: "replace_by_id ''F-0004'' (validated_record ex_shared ''app'' ''t9'')
      (layer_records (projectLayer ex_hs_valid)) =
      [ex_ui, validated_record ex_shared ''app'' ''t9'']"
    by code_simp
  have r2: "replace_by_id ''GF-0002'' (validated_record ex_global_never ''app'' ''t9'')
      (layer_records ex_global_layer) =
      [ex_global_ui, validated_record ex_global_never ''app'' ''t9'']"
    by code_simp
  from spec1 have "?a1 \<in> set (hgetFoundations ex_hs_valid None) \<and>
      f_id (foundation ?a1) = ''F-0004'' \<and>
      distinct (map f_id (concat (map layer_records (layers ex_hs_valid)))) \<and>
      basePath (projectLayer ex_hs_valid) \<noteq> home_dos ex_hs_valid \<and>
      (outerLayers ex_hs_valid = [] \<or>
       (\<exists>g. outerLayers ex_hs_valid = [g] \<and> basePath g = home_dos ex_hs_valid)) \<and>
      config_yaml (projectLayer ex_hs_valid) = Some ?cfg \<and>
      f_confidence (foundation ?a1) \<le> 3 \<and>
      (case f_validated_in (foundation ?a1) of None \<Rightarrow> True | Some old \<Rightarrow> distinct old) \<longrightarrow>
      (source_scope ?a1 = PROJECT \<longrightarrow>
         validateFoundation ex_hs_valid ''F-0004'' ''t9'' =
           Inr (ex_hs_valid\<lparr>projectLayer :=
                    with_records (projectLayer ex_hs_valid)
                      (replace_by_id ''F-0004''
                         (validated_record (foundation ?a1) (project ?cfg) ''t9'')
                         (layer_records (projectLayer ex_hs_valid)))\<rparr>,
                validated_record (foundation ?a1) (project ?cfg) ''t9''))"
    by (elim conjE allE [of _ ?a1] allE [of _ ?cfg]) (intro impI, simp)
  with m1 i1 d p o' c have v1: "validateFoundation ex_hs_valid ''F-0004'' ''t9'' =
      Inr (ex_hs_valid\<lparr>projectLayer :=
             with_records (projectLayer ex_hs_valid)
               [ex_ui, ex_shared\<lparr>f_validated_in := Some [''shop'', ''blog'', ''app''],
                                f_confidence := 3, f_updated_at := ''t9''\<rparr>]\<rparr>,
           ex_shared\<lparr>f_validated_in := Some [''shop'', ''blog'', ''app''],
                      f_confidence := 3, f_updated_at := ''t9''\<rparr>)"
    using r1 u1 by simp
  from spec2 have "?a2 \<in> set (hgetFoundations ex_hs_valid None) \<and>
      f_id (foundation ?a2) = ''GF-0002'' \<and>
      distinct (map f_id (concat (map layer_records (layers ex_hs_valid)))) \<and>
      basePath (projectLayer ex_hs_valid) \<noteq> home_dos ex_hs_valid \<and>
      (outerLayers ex_hs_valid = [] \<or>
       (\<exists>g. outerLayers ex_hs_valid = [g] \<and> basePath g = home_dos ex_hs_valid)) \<and>
      config_yaml (projectLayer ex_hs_valid) = Some ?cfg \<and>
      f_confidence (foundation ?a2) \<le> 3 \<and>
      (case f_validated_in (foundation ?a2) of None \<Rightarrow> True | Some old \<Rightarrow> distinct old) \<longrightarrow>
      (source_scope ?a2 = GLOBAL \<longrightarrow>
         (\<exists>g. outerLayers ex_hs_valid = [g] \<and>
            validateFoundation ex_hs_valid ''GF-0002'' ''t9'' =
              Inr (ex_hs_valid\<lparr>outerLayers :=
                       [with_records g
                          (replace_by_id ''GF-0002''
                             (validated_record (foundation ?a2) (project ?cfg) ''t9'')
                             (layer_records g))]\<rparr>,
                   validated_record (foundation ?a2) (project ?cfg) ''t9'')))"
    by (elim conjE allE [of _ ?a2] allE [of _ ?cfg]) (intro impI, fastforce)
  with m2 i2 d p o' c obtain g where "outerLayers ex_hs_valid = [g]"
    "validateFoundation ex_hs_valid ''GF-0002'' ''t9'' =
       Inr (ex_hs_valid\<lparr>outerLayers :=
              [with_records g
                 (replace_by_id ''GF-0002''
                    (validated_record (foundation ?a2) (project ?cfg) ''t9'')
                    (layer_records g))]\<rparr>,
            validated_record (foundation ?a2) (project ?cfg) ''t9'')"
    by blast
  with o have v2: "validateFoundation ex_hs_valid ''GF-0002'' ''t9'' =
      Inr (ex_hs_valid\<lparr>outerLayers :=
             [with_records ex_global_layer
                [ex_global_ui, ex_global_never\<lparr>f_validated_in := Some [''app''],
                                               f_confidence := 1, f_updated_at := ''t9''\<rparr>]]\<rparr>,
           ex_global_never\<lparr>f_validated_in := Some [''app''],
                            f_confidence := 1, f_updated_at := ''t9''\<rparr>)"
    using r2 u2 by simp
  have w: "f_validated_in ex_shared = Some [''shop'', ''blog'']" "f_confidence ex_shared = 2"
    "f_validated_in ex_global_never = None" "f_confidence ex_global_never = 1"
    by code_simp+
  show ?thesis
    by (intro conjI m1 m2 ids p o b c w v1 v2)
qed

text \<open>
  The claim as stated fails: the user-wide layer holds a record with the id \<open>GF-0001\<close>,
  but a project record of the same title keeps it out of the merged listing, and
  validating it fails.
\<close>

theorem validateFoundation_counterexample:
  "ex_global_layer \<in> set (layers ex_hs) \<and>
   ex_global_ui \<in> set (layer_records ex_global_layer) \<and>
   f_id ex_global_ui = ''GF-0001'' \<and>
   validateFoundation ex_hs ''GF-0001'' ''t9'' = Inl (FoundationNotFound ''GF-0001'')"
  by code_simp

text \<open>
  What is counted is the entries of the validated-in list: a record whose stored list
  repeats a label gets its confidence raised with two distinct labels.
\<close>

lemma validateFoundation_counts_entries:
  "map_sum id (f_validated_in \<circ> snd)
     (validateFoundation
        (ex_hs\<lparr>projectLayer :=
           with_records ex_project_layer
             [ex_data\<lparr>f_validated_in := Some [''shop'', ''shop'']\<rparr>]\<rparr>)
        ''F-0002'' ''t9'') = Inr (Some [''shop'', ''shop'', ''app'']) \<and>
   f_confidence ex_data = 1 \<and>
   map_sum id (f_confidence \<circ> snd)
     (validateFoundation
        (ex_hs\<lparr>projectLayer :=
           with_records ex_project_layer
             [ex_data\<lparr>f_validated_in := Some [''shop'', ''shop'']\<rparr>]\<rparr>)
        ''F-0002'' ''t9'') = Inr 2"
  by code_simp

section \<open>Verification: compression candidates of the review\<close>

text \<open>
  Claim C9, at the inputs where the code departs from it. A record is pushed into the
  group of a tag once for every occurrence of the tag in its list. So one record that
  repeats a tag makes a group of two entries, reported as a candidate with the same id
  twice; and of two records, one of which repeats a tag, the two tag groups have the same
  set of member ids and are both reported, because their sorted id lists differ. When no
  tag is repeated the two groups are reported once, with both common tags.
\<close>

theorem suggestReview_repeated_tag:
  "map theme (foundation_candidates (suggestReview
     (ex_review_layer [ex_pe ''PE-0001'' [''API'', ''API'']]))) = [''API''] \<and>
   map cand_pressure_events (foundation_candidates (suggestReview
     (ex_review_layer [ex_pe ''PE-0001'' [''API'', ''API'']]))) = [[''PE-0001'', ''PE-0001'']] \<and>
   map theme (foundation_candidates (suggestReview
     (ex_review_layer [ex_pe ''PE-0001'' [''API'', ''API'', ''AUTH''],
                       ex_pe ''PE-0002'' [''API'', ''AUTH'']]))) = [''API'', ''AUTH''] \<and>
   map cand_pressure_events (foundation_candidates (suggestReview
     (ex_review_layer [ex_pe ''PE-0001'' [''API'', ''API'', ''AUTH''],
                       ex_pe ''PE-0002'' [''API'', ''AUTH'']]))) =
     [[''PE-0001'', ''PE-0001'', ''PE-0002''], [''PE-0001'', ''PE-0002'']] \<and>
   set [''PE-0001'', ''PE-0001'', ''PE-0002''] = set [''PE-0001'', ''PE-0002''] \<and>
   map theme (foundation_candidates (suggestReview
     (ex_review_layer [ex_pe ''PE-0001'' [''API'', ''AUTH''],
                       ex_pe ''PE-0002'' [''API'', ''AUTH'']]))) = [''API''] \<and>
   map cand_pressure_events (foundation_candidates (suggestReview
     (ex_review_layer [ex_pe ''PE-0001'' [''API'', ''AUTH''],
                       ex_pe ''PE-0002'' [''API'', ''AUTH'']]))) = [[''PE-0001'', ''PE-0002'']] \<and>
   map shared_tags (foundation_candidates (suggestReview
     (ex_review_layer [ex_pe ''PE-0001'' [''API'', ''AUTH''],
                       ex_pe ''PE-0002'' [''API'', ''AUTH'']]))) = [[''API'', ''AUTH'']]"
  by code_simp

end
